(* ===== verification/Go_Prelude.thy ===== *)
theory Go_Prelude
  imports Main "HOL-Library.State_Monad"
begin

text \<open>
  The vocabulary the component theories share: Go's \<^verbatim>\<open>error\<close> values, functions that
  return \<^verbatim>\<open>(T, error)\<close> as a state monad over the sum \<open>err + 'a\<close> (\<open>Inl\<close> is the error
  return), a weakest-precondition calculus for that monad, and the string functions of
  \<^verbatim>\<open>strings\<close> that the sources call.
\<close>

section \<open>Collections of rules\<close>

named_theorems wp_simps
  \<open>equations that compute the weakest precondition of a program construct\<close>

named_theorems wp_ops
  \<open>weakest-precondition rules of the operations a component calls\<close>

section \<open>Go errors\<close>

text \<open>
  Error values by the way the code can tell them apart.  \<open>LinkNotFoundError\<close> is netlink's
  error type, which the code recognises by a type assertion; \<open>APINotFound\<close> is an API-server
  error for which \<^verbatim>\<open>apierrors.IsNotFound\<close> holds; \<open>OtherError\<close> is any other error of the
  environment or one made by \<^verbatim>\<open>errors.New\<close>; \<open>Wrapped\<close> is \<^verbatim>\<open>fmt.Errorf("...: %w", err)\<close>;
  \<open>StatusError\<close> is a gRPC status (code, message, details).  A \<^verbatim>\<open>panic\<close> is the value
  \<open>Panic\<close>: no code here recovers from one.
\<close>

datatype grpc_code = OK | InvalidArgument | NotFound | FailedPrecondition | Internal | OtherCode nat

datatype ErrorCode =
    UNKNOWN | INCOMPATIBLE_CNI_VERSION | UNSUPPORTED_FIELD | UNKNOWN_CONTAINER
  | INVALID_ENVIRONMENT_VARIABLES | IO_FAILURE | DECODING_FAILURE
  | INVALID_NETWORK_CONFIG | TRY_AGAIN_LATER | INTERNAL

text \<open>\<open>CNIError\<close> is the message the agent attaches to a status; any other detail is opaque.\<close>

datatype status_detail = CNIError ErrorCode string string | OtherDetail string

datatype err =
    ErrIPFamilyMismatch
  | LinkNotFoundError string
  | APINotFound string
  | OtherError string
  | Wrapped string err
  | StatusError grpc_code string "status_detail list"
  | Panic string

text \<open>\<^verbatim>\<open>errors.Is(err, ErrIPFamilyMismatch)\<close> walks the chain of wrapped errors.\<close>

fun Is_ErrIPFamilyMismatch :: "err \<Rightarrow> bool" where
  "Is_ErrIPFamilyMismatch ErrIPFamilyMismatch = True"
| "Is_ErrIPFamilyMismatch (Wrapped _ e) = Is_ErrIPFamilyMismatch e"
| "Is_ErrIPFamilyMismatch _ = False"

text \<open>\<^verbatim>\<open>_, ok := err.(netlink.LinkNotFoundError)\<close> looks at the error itself only.\<close>

definition is_LinkNotFoundError :: "err \<Rightarrow> bool" where
  "is_LinkNotFoundError e = (case e of LinkNotFoundError _ \<Rightarrow> True | _ \<Rightarrow> False)"

lemma is_LinkNotFoundError_simps [simp]:
  "is_LinkNotFoundError (LinkNotFoundError n)"
  "\<not> is_LinkNotFoundError ErrIPFamilyMismatch"
  "\<not> is_LinkNotFoundError (APINotFound n)"
  "\<not> is_LinkNotFoundError (OtherError n)"
  "\<not> is_LinkNotFoundError (Wrapped n e)"
  by (simp_all add: is_LinkNotFoundError_def)

definition IsNotFound :: "err \<Rightarrow> bool" where
  "IsNotFound e = (case e of APINotFound _ \<Rightarrow> True | _ \<Rightarrow> False)"

lemma IsNotFound_simps [simp]:
  "IsNotFound (APINotFound n)"
  "\<not> IsNotFound (OtherError n)"
  by (simp_all add: IsNotFound_def)

section \<open>Functions that return a value or an error\<close>

type_synonym ('s, 'a) go = "('s, err + 'a) state"

abbreviation ret :: "'a \<Rightarrow> ('s, 'a) go" where
  "ret x \<equiv> State_Monad.return (Inr x)"

abbreviation fail :: "err \<Rightarrow> ('s, 'a) go" where
  "fail e \<equiv> State_Monad.return (Inl e)"

text \<open>\<^verbatim>\<open>x, err := m; if err != nil { return err }; f(x)\<close>.\<close>

definition bindE :: "('s, 'a) go \<Rightarrow> ('a \<Rightarrow> ('s, 'b) go) \<Rightarrow> ('s, 'b) go" where
  "bindE m f = State_Monad.bind m (\<lambda>r. case r of Inl e \<Rightarrow> fail e | Inr x \<Rightarrow> f x)"

text \<open>A deferred call runs after the function, whatever it returned, and its error is dropped.\<close>

definition deferred :: "('s, 'a) go \<Rightarrow> ('s, unit) go \<Rightarrow> ('s, 'a) go" where
  "deferred m d = do { r \<leftarrow> m; _ \<leftarrow> d; State_Monad.return r }"

text \<open>
  \<^verbatim>\<open>fmt.Errorf("msg: %w", err)\<close> around the error of a call; a panic is no error value and
  passes through unwrapped.
\<close>

definition wrap :: "string \<Rightarrow> err \<Rightarrow> err" where
  "wrap msg e = (case e of Panic p \<Rightarrow> Panic p | _ \<Rightarrow> Wrapped msg e)"

lemma Is_wrap [simp]: "Is_ErrIPFamilyMismatch (wrap msg e) = Is_ErrIPFamilyMismatch e"
  by (cases e) (simp_all add: wrap_def)

definition is_panic :: "err \<Rightarrow> bool" where
  "is_panic e = (case e of Panic _ \<Rightarrow> True | _ \<Rightarrow> False)"

lemma is_panic_simps [simp]:
  "is_panic (Panic p)"
  "\<not> is_panic ErrIPFamilyMismatch"
  "\<not> is_panic (LinkNotFoundError n)"
  "\<not> is_panic (APINotFound n)"
  "\<not> is_panic (OtherError n)"
  "\<not> is_panic (Wrapped n e)"
  "\<not> is_panic (StatusError c m ds)"
  by (simp_all add: is_panic_def)

lemma is_panic_wrap [simp]: "is_panic (wrap msg e) = is_panic e"
  by (cases e) (simp_all add: wrap_def)

lemma is_panicE: "is_panic e \<Longrightarrow> (\<And>p. e = Panic p \<Longrightarrow> thesis) \<Longrightarrow> thesis"
  by (cases e) simp_all

definition errorf :: "string \<Rightarrow> ('s, 'a) go \<Rightarrow> ('s, 'a) go" where
  "errorf msg m = State_Monad.bind m (\<lambda>r. case r of Inl e \<Rightarrow> fail (wrap msg e) | Inr x \<Rightarrow> ret x)"

text \<open>A \<^verbatim>\<open>for\<close> loop over a slice whose body may return an error from the function.\<close>

primrec for_each :: "('a \<Rightarrow> ('s, unit) go) \<Rightarrow> 'a list \<Rightarrow> ('s, unit) go" where
  "for_each body [] = ret ()"
| "for_each body (x # xs) = bindE (body x) (\<lambda>_. for_each body xs)"

section \<open>Weakest preconditions\<close>

definition wp :: "('s, 'a) state \<Rightarrow> ('a \<Rightarrow> 's \<Rightarrow> bool) \<Rightarrow> 's \<Rightarrow> bool" where
  "wp m Q s = (case run_state m s of (r, s') \<Rightarrow> Q r s')"

lemma wp_runI: "(\<And>r s'. run_state m s = (r, s') \<Longrightarrow> Q r s') \<Longrightarrow> wp m Q s"
  by (simp add: wp_def split: prod.splits)

lemma wp_runD: "wp m Q s \<Longrightarrow> run_state m s = (r, s') \<Longrightarrow> Q r s'"
  by (simp add: wp_def)

lemma wp_iff: "wp m Q s \<longleftrightarrow> (\<forall>r s'. run_state m s = (r, s') \<longrightarrow> Q r s')"
  by (auto simp: wp_def split: prod.splits)

lemma wp_ex: "wp m Q s \<Longrightarrow> \<exists>r s'. run_state m s = (r, s') \<and> Q r s'"
  by (cases "run_state m s") (auto simp: wp_iff)

lemma wp_True [simp]: "wp m (\<lambda>r s'. True) s"
  by (simp add: wp_iff)

lemma wp_conseq: "wp m P s \<Longrightarrow> (\<And>r s'. P r s' \<Longrightarrow> Q r s') \<Longrightarrow> wp m Q s"
  by (auto simp: wp_iff)

lemma wp_conj: "wp m P s \<Longrightarrow> wp m Q s \<Longrightarrow> wp m (\<lambda>r s'. P r s' \<and> Q r s') s"
  by (auto simp: wp_iff)

lemma wp_return [wp_simps]: "wp (State_Monad.return x) Q s = Q x s"
  by (simp add: wp_def)

lemma wp_bind [wp_simps]: "wp (State_Monad.bind m f) Q s = wp m (\<lambda>r. wp (f r) Q) s"
  by (simp add: wp_def split: prod.splits)

lemma wp_case_sum [wp_simps]:
  "wp (case r of Inl e \<Rightarrow> f e | Inr x \<Rightarrow> g x) Q s =
    (case r of Inl e \<Rightarrow> wp (f e) Q s | Inr x \<Rightarrow> wp (g x) Q s)"
  by (simp split: sum.splits)

lemma wp_if [wp_simps]: "wp (if b then m else n) Q s = (if b then wp m Q s else wp n Q s)"
  by simp

lemma wp_bindE [wp_simps]:
  "wp (bindE m f) Q s =
    wp m (\<lambda>r s'. case r of Inl e \<Rightarrow> Q (Inl e) s' | Inr x \<Rightarrow> wp (f x) Q s') s"
  by (simp add: bindE_def wp_def split: prod.splits sum.splits)

lemma wp_errorf [wp_simps]:
  "wp (errorf msg m) Q s =
    wp m (\<lambda>r s'. case r of Inl e \<Rightarrow> Q (Inl (wrap msg e)) s' | Inr x \<Rightarrow> Q (Inr x) s') s"
  by (simp add: errorf_def wp_def split: prod.splits sum.splits)

text \<open>Sequencing with a given midcondition.\<close>

lemma wp_seq:
  assumes "wp m (\<lambda>r s'. case r of Inl e \<Rightarrow> Q (Inl e) s' | Inr x \<Rightarrow> R x s') s"
    and "\<And>x s'. R x s' \<Longrightarrow> wp (f x) Q s'"
  shows "wp (bindE m f) Q s"
  unfolding wp_bindE by (rule wp_conseq [OF assms(1)]) (auto intro: assms(2) split: sum.splits)

lemma run_bindE:
  "run_state (bindE m f) s =
    (case run_state m s of (Inl e, s') \<Rightarrow> (Inl e, s') | (Inr x, s') \<Rightarrow> run_state (f x) s')"
  by (simp add: bindE_def split: prod.splits sum.splits)

lemma bindE_ret: "bindE (ret x) f = f x"
  by (simp add: bindE_def)

lemma bindE_assoc: "bindE (bindE m f) g = bindE m (\<lambda>x. bindE (f x) g)"
  by (rule state.expand) (auto simp: fun_eq_iff run_bindE split: prod.split sum.split)

lemma wp_deferred [wp_simps]:
  "wp (deferred m d) Q s = wp m (\<lambda>r s'. wp d (\<lambda>_ s''. Q r s'') s') s"
  by (simp add: deferred_def wp_def split: prod.split)

lemma run_errorf:
  "run_state (errorf msg m) s =
    (case run_state m s of (Inl e, s') \<Rightarrow> (Inl (wrap msg e), s') | (Inr x, s') \<Rightarrow> (Inr x, s'))"
  by (simp add: errorf_def split: prod.splits sum.splits)

text \<open>
  The loop rule: an invariant indexed by the part of the list already done.  \<open>I\<close> speaks of
  the state between iterations, \<open>E\<close> of the state in which the loop returns an error.
\<close>

lemma wp_for_each:
  assumes "I [] s"
    and "\<And>ys x zs t. xs = ys @ x # zs \<Longrightarrow> I ys t \<Longrightarrow>
      wp (body x) (\<lambda>r t'. case r of Inl e \<Rightarrow> E e t' | Inr _ \<Rightarrow> I (ys @ [x]) t') t"
  shows "wp (for_each body xs) (\<lambda>r t. case r of Inl e \<Rightarrow> E e t | Inr _ \<Rightarrow> I xs t) s"
proof -
  have "wp (for_each body zs) (\<lambda>r t. case r of Inl e \<Rightarrow> E e t | Inr _ \<Rightarrow> I xs t) t"
    if "xs = ys @ zs" "I ys t" for ys zs t
    using that
  proof (induction zs arbitrary: ys t)
    case Nil
    then show ?case by (simp add: wp_simps)
  next
    case (Cons x zs)
    have "wp (body x) (\<lambda>r t'. case r of Inl e \<Rightarrow> E e t' | Inr _ \<Rightarrow> I (ys @ [x]) t') t"
      using Cons.prems by (intro assms(2)) auto
    then show ?case
      unfolding for_each.simps wp_bindE
    proof (rule wp_conseq)
      fix r t'
      assume "case r of Inl e \<Rightarrow> E e t' | Inr _ \<Rightarrow> I (ys @ [x]) t'"
      then show "case r of Inl e \<Rightarrow> case Inl e of Inl e \<Rightarrow> E e t' | Inr _ \<Rightarrow> I xs t'
        | Inr y \<Rightarrow> wp (for_each body zs)
            (\<lambda>r t. case r of Inl e \<Rightarrow> E e t | Inr _ \<Rightarrow> I xs t) t'"
        using Cons.IH [of "ys @ [x]" t'] Cons.prems(1) by (cases r) auto
    qed
  qed
  from this [of "[]" xs s] assms(1) show ?thesis by simp
qed

section \<open>Strings\<close>

text \<open>\<^verbatim>\<open>strings.HasPrefix(s, p)\<close>.\<close>

definition HasPrefix :: "string \<Rightarrow> string \<Rightarrow> bool" where
  "HasPrefix s p = (take (length p) s = p)"

lemma HasPrefix_iff: "HasPrefix s p \<longleftrightarrow> (\<exists>t. s = p @ t)"
  unfolding HasPrefix_def by (metis append_eq_conv_conj append_take_drop_id)

lemma HasPrefix_append [simp]: "HasPrefix (p @ t) p"
  by (simp add: HasPrefix_def)

text \<open>
  \<^verbatim>\<open>strings.Split(s, sep)\<close> for a separator of one character: never empty, and \<open>[s]\<close> where
  the separator does not occur (so \<open>Split ''''\<close> is \<open>['''']\<close>).
\<close>

fun Split :: "char \<Rightarrow> string \<Rightarrow> string list" where
  "Split c [] = [[]]"
| "Split c (x # xs) =
    (if x = c then [] # Split c xs
     else case Split c xs of [] \<Rightarrow> [[x]] | w # ws \<Rightarrow> (x # w) # ws)"

lemma Split_not_Nil [simp]: "Split c s \<noteq> []"
  by (induction s) (auto split: list.splits)

lemma length_Split: "length (Split c s) = Suc (count_list s c)"
  by (induction s) (auto split: list.splits)

lemma Split_noop: "c \<notin> set s \<Longrightarrow> Split c s = [s]"
  by (induction s) auto

lemma Split_append: "c \<notin> set u \<Longrightarrow> Split c (u @ c # v) = u # Split c v"
  by (induction u) auto

text \<open>\<^verbatim>\<open>strings.Join(parts, sep)\<close>, and that it undoes \<^const>\<open>Split\<close>.\<close>

fun Join :: "string list \<Rightarrow> string \<Rightarrow> string" where
  "Join [] sep = []"
| "Join [p] sep = p"
| "Join (p # q # ps) sep = p @ sep @ Join (q # ps) sep"

lemma Join_Cons: "ps \<noteq> [] \<Longrightarrow> Join (p # ps) sep = p @ sep @ Join ps sep"
  by (cases ps) auto

lemma Join_Split: "Join (Split c s) [c] = s"
proof (induction s)
  case Nil
  then show ?case by simp
next
  case (Cons x s)
  obtain w ws where ws: "Split c s = w # ws"
    by (cases "Split c s") auto
  then show ?case
    using Cons.IH by (cases ws) (auto simp: Join_Cons)
qed

lemma Split_Join:
  "ps \<noteq> [] \<Longrightarrow> (\<forall>p \<in> set ps. c \<notin> set p) \<Longrightarrow> Split c (Join ps [c]) = ps"
proof (induction ps rule: induct_list012)
  case (3 p q ps)
  then show ?case by (simp add: Split_append)
qed (auto simp: Split_noop)

lemma Split_sep: "Split c (u @ c # v) = Split c u @ Split c v"
  by (induction u) (auto split: list.splits)

lemma Split_snoc: "c \<notin> set v \<Longrightarrow> Split c (u @ c # v) = Split c u @ [v]"
  by (simp add: Split_sep Split_noop)

lemma Join_snoc: "Join (cs @ [n]) sep = (if cs = [] then n else Join cs sep @ sep @ n)"
  by (induction cs rule: induct_list012) simp_all

end
