(* ===== verification/Go_Net.thy ===== *)
theory Go_Net
  imports Go_Prelude "HOL-Library.Word"
begin

unbundle bit_operations_syntax

text \<open>
  What the sources use of Go's package \<^verbatim>\<open>net\<close>, as of the Go 1.20 the build asks for:
  \<^verbatim>\<open>net.IP\<close> as a byte slice with its \<^verbatim>\<open>To4\<close>, \<^verbatim>\<open>Equal\<close>, \<^verbatim>\<open>String\<close> and \<^verbatim>\<open>Mask\<close>,
  \<^verbatim>\<open>CIDRMask\<close>, \<^verbatim>\<open>IPNet.Contains\<close>, and the parsers \<^verbatim>\<open>ParseIP\<close> and \<^verbatim>\<open>ParseCIDR\<close>.
  The nil slice is the empty list: no function modelled here returns an empty slice that is
  not nil.
\<close>

type_synonym byte = "8 word"
type_synonym ip = "byte list"

abbreviation nil_IP :: ip where
  "nil_IP \<equiv> []"

definition v4InV6Prefix :: "byte list" where
  "v4InV6Prefix = [0, 0, 0, 0, 0, 0, 0, 0, 0, 0, 255, 255]"

definition To4 :: "ip \<Rightarrow> ip" where
  "To4 a =
    (if length a = 4 then a
     else if length a = 16 \<and> take 12 a = v4InV6Prefix then drop 12 a
     else nil_IP)"

definition Equal :: "ip \<Rightarrow> ip \<Rightarrow> bool" where
  "Equal a x =
    (if length a = length x then a = x
     else if length a = 4 \<and> length x = 16 then take 12 x = v4InV6Prefix \<and> a = drop 12 x
     else if length a = 16 \<and> length x = 4 then take 12 a = v4InV6Prefix \<and> drop 12 a = x
     else False)"

lemma length_v4InV6Prefix [simp]: "length v4InV6Prefix = 12"
  by (simp add: v4InV6Prefix_def)

lemma To4_v4 [simp]: "length a = 4 \<Longrightarrow> To4 a = a"
  by (simp add: To4_def)

lemma length_To4: "To4 a \<noteq> nil_IP \<Longrightarrow> length (To4 a) = 4"
  by (auto simp: To4_def split: if_splits)

lemma To4_idem [simp]: "To4 (To4 a) = To4 a"
  by (auto simp: To4_def)

lemma Equal_refl [simp]: "Equal a a"
  by (simp add: Equal_def)

lemma Equal_sym: "Equal a b \<Longrightarrow> Equal b a"
  by (auto simp: Equal_def split: if_splits)

text \<open>On the lengths an address can have, equal addresses have the same 4-byte form.\<close>

lemma Equal_To4:
  "Equal a b \<Longrightarrow> To4 a = To4 b"
  by (auto simp: Equal_def To4_def split: if_splits)

lemma To4_eq_append: "length a = 16 \<Longrightarrow> To4 a \<noteq> nil_IP \<Longrightarrow> a = v4InV6Prefix @ To4 a"
  by (auto simp: To4_def split: if_splits) (metis append_take_drop_id)

lemma To4_Equal:
  assumes "To4 a \<noteq> nil_IP" and "To4 b = To4 a"
  shows "Equal a b"
proof -
  have len: "length x = 4 \<or> length x = 16" if "To4 x \<noteq> nil_IP" for x
    using that by (auto simp: To4_def split: if_splits)
  have pre: "take 12 x = v4InV6Prefix \<and> drop 12 x = To4 x"
    if "length x = 16" "To4 x \<noteq> nil_IP" for x
    using that by (auto simp: To4_def split: if_splits)
  consider "length a = 4" "length b = 4" | "length a = 16" "length b = 16"
    | "length a = 4" "length b = 16" | "length a = 16" "length b = 4"
    using len [of a] len [of b] assms by auto
  then show ?thesis
  proof cases
    case 1 with assms show ?thesis by (simp add: Equal_def)
  next
    case 2
    then have "a = b" using To4_eq_append [of a] To4_eq_append [of b] assms by simp
    then show ?thesis by simp
  next
    case 3 with assms pre [of b] show ?thesis by (simp add: Equal_def)
  next
    case 4 with assms pre [of a] show ?thesis by (simp add: Equal_def)
  qed
qed

lemma Equal_iff_To4: "To4 a \<noteq> nil_IP \<Longrightarrow> Equal a b \<longleftrightarrow> To4 b = To4 a"
  using Equal_To4 [of a b] To4_Equal [of a b] by auto

lemma Equal_not_v4:
  "To4 a = nil_IP \<Longrightarrow> a \<noteq> nil_IP \<Longrightarrow> Equal a b \<longleftrightarrow> a = b"
  by (auto simp: To4_def Equal_def split: if_splits)

section \<open>Masks and networks\<close>

text \<open>\<^verbatim>\<open>net.CIDRMask(ones, bits)\<close>; the nil mask for lengths that are no mask's.\<close>

definition mask_byte :: "nat \<Rightarrow> byte" where
  "mask_byte n = (if 8 \<le> n then 255 else 255 - of_nat (2 ^ (8 - n) - 1))"

definition CIDRMask :: "nat \<Rightarrow> nat \<Rightarrow> byte list" where
  "CIDRMask ones bits =
    (if (bits = 32 \<or> bits = 128) \<and> ones \<le> bits
     then map (\<lambda>i. mask_byte (ones - 8 * i)) [0..<bits div 8]
     else [])"

record ipnet =
  IP :: ip
  Mask :: "byte list"

definition and_bytes :: "byte list \<Rightarrow> byte list \<Rightarrow> byte list" where
  "and_bytes a m = map2 (AND) a m"

text \<open>\<^verbatim>\<open>ip.Mask(m)\<close>.\<close>

definition IP_Mask :: "ip \<Rightarrow> byte list \<Rightarrow> ip" where
  "IP_Mask a m =
    (let m' = (if length m = 16 \<and> length a = 4 \<and> take 12 m = replicate 12 255
               then drop 12 m else m);
         a' = (if length m' = 4 \<and> length a = 16 \<and> take 12 a = v4InV6Prefix
               then drop 12 a else a)
     in if length a' \<noteq> length m' then nil_IP else and_bytes a' m')"

text \<open>
  \<^verbatim>\<open>m.Size()\<close>: the number of leading ones and of bits of a canonical mask, \<open>(0, 0)\<close> for
  one with a zero before a one.
\<close>

definition byte_bits :: "byte \<Rightarrow> bool list" where
  "byte_bits b = map (bit b) (rev [0..<8])"

definition mask_bits :: "byte list \<Rightarrow> bool list" where
  "mask_bits m = concat (map byte_bits m)"

definition Mask_Size :: "byte list \<Rightarrow> nat \<times> nat" where
  "Mask_Size m =
    (let bs = mask_bits m; ones = length (takeWhile id bs)
     in if True \<in> set (drop ones bs) then (0, 0) else (ones, 8 * length m))"

definition networkNumberAndMask :: "ipnet \<Rightarrow> ip \<times> byte list" where
  "networkNumberAndMask n =
    (let a = (if To4 (IP n) \<noteq> nil_IP then To4 (IP n) else IP n) in
     if length a \<noteq> 4 \<and> length a \<noteq> 16 then (nil_IP, [])
     else if length (Mask n) = 4 then (if length a = 4 then (a, Mask n) else (nil_IP, []))
     else if length (Mask n) = 16 then (a, if length a = 4 then drop 12 (Mask n) else Mask n)
     else (nil_IP, []))"

text \<open>\<^verbatim>\<open>n.Contains(ip)\<close>.\<close>

definition Contains :: "ipnet \<Rightarrow> ip \<Rightarrow> bool" where
  "Contains n x =
    (let (nn, m) = networkNumberAndMask n;
         a = (if To4 x \<noteq> nil_IP then To4 x else x)
     in length a = length nn \<and> and_bytes nn m = and_bytes a m)"

lemma length_and_bytes [simp]: "length (and_bytes a m) = min (length a) (length m)"
  by (simp add: and_bytes_def)

lemma and_bytes_idem: "and_bytes (and_bytes a m) m = and_bytes a m"
  by (simp add: and_bytes_def list_eq_iff_nth_eq)

lemma and_bytes_zero: "length a = length m \<Longrightarrow> set m \<subseteq> {0} \<Longrightarrow> and_bytes a m = replicate (length a) 0"
  unfolding and_bytes_def
  by (induction a m rule: list_induct2) auto

lemma length_CIDRMask:
  "bits = 32 \<or> bits = 128 \<Longrightarrow> ones \<le> bits \<Longrightarrow> length (CIDRMask ones bits) = bits div 8"
  by (auto simp: CIDRMask_def)

section \<open>Text forms\<close>

fun hex_digit :: "nat \<Rightarrow> char" where
  "hex_digit n = (if n < 10 then char_of (48 + n) else char_of (87 + n))"

text \<open>\<^verbatim>\<open>%x\<close> of a byte slice: two digits a byte.\<close>

definition hex_byte :: "byte \<Rightarrow> string" where
  "hex_byte b = [hex_digit (unat b div 16), hex_digit (unat b mod 16)]"

definition hex_bytes :: "byte list \<Rightarrow> string" where
  "hex_bytes bs = concat (map hex_byte bs)"

text \<open>Numbers without leading zeros.\<close>

fun dec_string :: "nat \<Rightarrow> string" where
  "dec_string n = (if n < 10 then [char_of (48 + n)]
                   else dec_string (n div 10) @ [char_of (48 + n mod 10)])"

fun hex_string :: "nat \<Rightarrow> string" where
  "hex_string n = (if n < 16 then [hex_digit n] else hex_string (n div 16) @ [hex_digit (n mod 16)])"

declare dec_string.simps [simp del] hex_string.simps [simp del]

fun groups :: "byte list \<Rightarrow> nat list" where
  "groups (a # b # bs) = (unat a * 256 + unat b) # groups bs"
| "groups _ = []"

text \<open>The first of the longest runs of zero groups: its start and its length.\<close>

fun best_run :: "nat \<Rightarrow> nat list \<Rightarrow> nat \<times> nat \<Rightarrow> nat \<times> nat" where
  "best_run i [] best = best"
| "best_run i (g # gs) best =
    (let l = length (takeWhile (\<lambda>x. x = 0) (g # gs))
     in best_run (Suc i) gs (if snd best < l then (i, l) else best))"

definition IPv6_String :: "ip \<Rightarrow> string" where
  "IPv6_String a =
    (let gs = groups a; (i, l) = best_run 0 gs (0, 0)
     in if l < 2 then Join (map hex_string gs) '':''
        else Join (map hex_string (take i gs)) '':'' @ ''::'' @
             Join (map hex_string (drop (i + l) gs)) '':'')"

definition IPv4_String :: "ip \<Rightarrow> string" where
  "IPv4_String a = Join (map (dec_string \<circ> unat) a) ''.''"

definition IP_String :: "ip \<Rightarrow> string" where
  "IP_String a =
    (if a = nil_IP then ''<nil>''
     else if To4 a \<noteq> nil_IP then IPv4_String (To4 a)
     else if length a \<noteq> 16 then ''?'' @ hex_bytes a
     else IPv6_String a)"

text \<open>\<^verbatim>\<open>n.String()\<close> of a network with a canonical mask: address, slash, prefix length.\<close>

definition IPNet_String :: "ipnet \<Rightarrow> string" where
  "IPNet_String n =
    (let (nn, m) = networkNumberAndMask n in
     if nn = nil_IP \<or> m = [] then ''<nil>''
     else if Mask_Size m = (0, 0) then IP_String nn @ ''/'' @ hex_bytes m
     else IP_String nn @ ''/'' @ dec_string (fst (Mask_Size m)))"

section \<open>Parsers\<close>

definition big :: nat where "big = 16777215"

definition digit_val :: "char \<Rightarrow> nat option" where
  "digit_val c = (let n = of_char c in if (48::nat) \<le> n \<and> n \<le> 57 then Some (n - 48) else None)"

definition xdigit_val :: "char \<Rightarrow> nat option" where
  "xdigit_val c =
    (let n = of_char c in
     if (48::nat) \<le> n \<and> n \<le> 57 then Some (n - 48)
     else if 97 \<le> n \<and> n \<le> 102 then Some (n - 87)
     else if 65 \<le> n \<and> n \<le> 70 then Some (n - 55)
     else None)"

text \<open>
  \<^verbatim>\<open>dtoi\<close> and \<^verbatim>\<open>xtoi\<close>: the number at the head of the string and what follows it, or None
  where there is no digit or the number reaches \<open>big\<close>.
\<close>

fun atoi_loop :: "nat \<Rightarrow> (char \<Rightarrow> nat option) \<Rightarrow> nat \<Rightarrow> string \<Rightarrow> (nat \<times> string) option" where
  "atoi_loop base dv n [] = Some (n, [])"
| "atoi_loop base dv n (c # cs) =
    (case dv c of None \<Rightarrow> Some (n, c # cs)
     | Some d \<Rightarrow> (let n' = n * base + d in if big \<le> n' then None else atoi_loop base dv n' cs))"

definition atoi :: "nat \<Rightarrow> (char \<Rightarrow> nat option) \<Rightarrow> string \<Rightarrow> (nat \<times> string) option" where
  "atoi base dv s =
    (case s of [] \<Rightarrow> None | c # cs \<Rightarrow> if dv c = None then None else atoi_loop base dv 0 s)"

abbreviation dtoi :: "string \<Rightarrow> (nat \<times> string) option" where
  "dtoi \<equiv> atoi 10 digit_val"

abbreviation xtoi :: "string \<Rightarrow> (nat \<times> string) option" where
  "xtoi \<equiv> atoi 16 xdigit_val"

lemma atoi_loop_length: "atoi_loop base dv n s = Some (m, t) \<Longrightarrow> length t \<le> length s"
proof (induction base dv n s rule: atoi_loop.induct)
  case (2 base dv n c cs)
  then show ?case
    by (fastforce simp: Let_def split: option.splits if_splits)
qed simp

lemma atoi_shorter: "atoi base dv s = Some (m, t) \<Longrightarrow> length t < length s"
  by (auto simp: atoi_def Let_def less_Suc_eq_le dest: atoi_loop_length
      split: list.splits if_splits option.splits)

text \<open>\<^verbatim>\<open>parseIPv4\<close>: four octets without leading zeros, as the bytes of a 4-byte address.\<close>

fun parse_octets :: "nat \<Rightarrow> string \<Rightarrow> (byte list \<times> string) option" where
  "parse_octets 0 s = Some ([], s)"
| "parse_octets (Suc k) s =
    (case dtoi s of None \<Rightarrow> None
     | Some (n, t) \<Rightarrow>
        if 255 < n \<or> (1 < length s - length t \<and> hd s = CHR ''0'') then None
        else if k = 0 then Some ([of_nat n], t)
        else case t of
            [] \<Rightarrow> None
          | c # u \<Rightarrow> if c \<noteq> CHR ''.'' then None
                     else map_option (\<lambda>(bs, v). (of_nat n # bs, v)) (parse_octets k u))"

definition parse4 :: "string \<Rightarrow> (byte list) option" where
  "parse4 s = (case parse_octets 4 s of Some (bs, []) \<Rightarrow> Some bs | _ \<Rightarrow> None)"

definition IPv4 :: "byte list \<Rightarrow> ip" where
  "IPv4 bs = v4InV6Prefix @ bs"

definition parseIPv4 :: "string \<Rightarrow> ip" where
  "parseIPv4 s = (case parse4 s of None \<Rightarrow> nil_IP | Some bs \<Rightarrow> IPv4 bs)"

text \<open>
  The loop of \<^verbatim>\<open>parseIPv6\<close>: \<open>acc\<close> holds the bytes stored so far (the loop variable
  \<^verbatim>\<open>i\<close> is its length) and \<open>ell\<close> the position of the ellipsis.  It returns the bytes, the
  ellipsis and the unread rest of the string.
\<close>

function parse6_loop ::
  "byte list \<Rightarrow> nat option \<Rightarrow> string \<Rightarrow> (byte list \<times> nat option \<times> string) option" where
  "parse6_loop acc ell s =
    (if 16 \<le> length acc then Some (acc, ell, s)
     else case xtoi s of
       None \<Rightarrow> None
     | Some (n, t) \<Rightarrow>
        if 65535 < n then None
        else if t \<noteq> [] \<and> hd t = CHR ''.'' then
          (if ell = None \<and> length acc \<noteq> 12 then None
           else if 16 < length acc + 4 then None
           else case parse4 s of None \<Rightarrow> None | Some bs \<Rightarrow> Some (acc @ bs, ell, []))
        else let acc' = acc @ [of_nat (n div 256), of_nat (n mod 256)] in
          case t of
            [] \<Rightarrow> Some (acc', ell, [])
          | c # u \<Rightarrow>
             (if c \<noteq> CHR '':'' \<or> u = [] then None
              else if hd u = CHR '':'' then
                (if ell \<noteq> None then None
                 else if tl u = [] then Some (acc', Some (length acc'), [])
                 else parse6_loop acc' (Some (length acc')) (tl u))
              else parse6_loop acc' ell u))"
  by pat_completeness auto
termination
  by (relation "measure (\<lambda>(acc, ell, s). length s)") (auto dest: atoi_shorter)

declare parse6_loop.simps [simp del]

definition parseIPv6 :: "string \<Rightarrow> ip" where
  "parseIPv6 s =
    (let lead = (take 2 s = ''::''); s' = (if lead then drop 2 s else s) in
     if lead \<and> s' = [] then replicate 16 0
     else case parse6_loop [] (if lead then Some 0 else None) s' of
       None \<Rightarrow> nil_IP
     | Some (bs, ell, rest) \<Rightarrow>
        if rest \<noteq> [] then nil_IP
        else if length bs < 16 then
          (case ell of None \<Rightarrow> nil_IP
           | Some e \<Rightarrow> take e bs @ replicate (16 - length bs) 0 @ drop e bs)
        else if ell \<noteq> None then nil_IP
        else bs)"

lemma parse4_simp:
  "parse4 s = (case parse_octets (Suc (Suc (Suc (Suc 0)))) s of Some (bs, []) \<Rightarrow> Some bs | _ \<Rightarrow> None)"
  by (simp add: parse4_def eval_nat_numeral)

definition ParseIP :: "string \<Rightarrow> ip" where
  "ParseIP s =
    (case dropWhile (\<lambda>c. c \<noteq> CHR ''.'' \<and> c \<noteq> CHR '':'') s of
       [] \<Rightarrow> nil_IP
     | c # _ \<Rightarrow> if c = CHR ''.'' then parseIPv4 s else parseIPv6 s)"

text \<open>\<^verbatim>\<open>net.ParseCIDR\<close>: the address and its network; the parse error carries the text.\<close>

definition ParseCIDR :: "string \<Rightarrow> err + (ip \<times> ipnet)" where
  "ParseCIDR s =
    (let addr = takeWhile (\<lambda>c. c \<noteq> CHR ''/'') s;
         rest = dropWhile (\<lambda>c. c \<noteq> CHR ''/'') s;
         bad = Inl (OtherError (''invalid CIDR address: '' @ s))
     in if rest = [] then bad
        else let iplen = (if parseIPv4 addr \<noteq> nil_IP then 4 else 16);
                 a = (if parseIPv4 addr \<noteq> nil_IP then parseIPv4 addr else parseIPv6 addr)
             in case dtoi (tl rest) of
                  None \<Rightarrow> bad
                | Some (n, t) \<Rightarrow>
                    if a = nil_IP \<or> t \<noteq> [] \<or> 8 * iplen < n then bad
                    else let m = CIDRMask n (8 * iplen)
                         in Inr (a, \<lparr>IP = IP_Mask a m, Mask = m\<rparr>))"

lemma replicate_numeral [simp]:
  "replicate (numeral k) x = x # replicate (pred_numeral k) x"
  by (simp add: numeral_eq_Suc)

text \<open>The parsers return 16-byte addresses.\<close>

lemma parse_octets_length: "parse_octets k s = Some (bs, t) \<Longrightarrow> length bs = k"
  by (induction k s arbitrary: bs t rule: parse_octets.induct)
    (auto split: option.splits if_splits list.splits prod.splits)

lemma parse4_length: "parse4 s = Some bs \<Longrightarrow> length bs = 4"
  by (auto simp: parse4_def dest: parse_octets_length split: option.splits list.splits)

lemma parse6_loop_length:
  "parse6_loop acc ell s = Some (bs, e, r) \<Longrightarrow> even (length acc) \<Longrightarrow> length acc \<le> 16 \<Longrightarrow> length bs \<le> 16"
proof (induction "length s" arbitrary: acc ell s rule: less_induct)
  case less
  show ?case
  proof (cases "16 \<le> length acc")
    case True
    with less.prems show ?thesis by (simp add: parse6_loop.simps)
  next
    case False
    with less.prems(2) have len: "length acc + 2 \<le> 16" by presburger
    have IH: "parse6_loop (acc @ [b1, b2]) ell' t = Some (bs, e, r) \<Longrightarrow> length t < length s \<Longrightarrow> length bs \<le> 16"
      for t ell' b1 b2
      using less.hyps [of t "acc @ [b1, b2]" ell'] less.prems(2) len by simp
    show ?thesis
      using less.prems(1) False len
      by (subst (asm) parse6_loop.simps)
        (auto simp: Let_def dest!: parse4_length IH dest: atoi_shorter split: option.splits if_splits list.splits prod.splits)
  qed
qed

lemma parseIPv4_length: "parseIPv4 s = nil_IP \<or> length (parseIPv4 s) = 16 \<and> To4 (parseIPv4 s) \<noteq> nil_IP"
  by (auto simp: parseIPv4_def IPv4_def To4_def dest!: parse4_length split: option.splits)

lemma parseIPv6_length: "parseIPv6 s = nil_IP \<or> length (parseIPv6 s) = 16"
  by (auto simp: parseIPv6_def Let_def dest: parse6_loop_length split: option.splits if_splits)

lemma ParseIP_length: "ParseIP s = nil_IP \<or> length (ParseIP s) = 16"
  using parseIPv4_length parseIPv6_length by (auto simp: ParseIP_def split: list.splits)

text \<open>The equations that evaluate the parsers on a literal.\<close>

lemmas parse_eval =
  ParseIP_def parseIPv4_def parseIPv6_def parse4_simp parse6_loop.simps atoi_def digit_val_def
  xdigit_val_def big_def IPv4_def Let_def

end
