(* ===== verification/Netlink.thy ===== *)
theory Netlink
  imports Go_Net "HOL-Library.Multiset"
begin

text \<open>
  The interface through which the program changes the network state of a pod: the calls of
  \<^verbatim>\<open>vishvananda/netlink\<close>, \<^verbatim>\<open>go-iptables\<close>, the CNI plugins' \<^verbatim>\<open>sysctl\<close> and \<^verbatim>\<open>ip\<close> packages
  and \<^verbatim>\<open>os/exec\<close>.  None of that code is part of the repository, so the calls are the fields
  of a record that every definition using them takes as an argument, over a state type
  \<open>'s\<close> nothing is known of.  The locale \<open>netlink_laws\<close> states what the program relies on,
  in terms of a view of that state; \<open>netlink_reliable\<close> adds which calls succeed.
\<close>

section \<open>Values that cross the interface\<close>

datatype family = FAMILY_V4 | FAMILY_V6

record LinkAttrs =
  la_Name :: string
  la_Index :: int
  la_Up :: bool

datatype encap = ENCAP_NONE | FOU_ENCAP_DIRECT

record tunnel =
  Ttl :: byte
  EncapType :: encap
  EncapDport :: "16 word"
  EncapSport :: "16 word"
  Remote :: ip
  Local :: ip
  FlowBased :: bool

text \<open>The link types the program makes; any other link is \<open>OtherLink\<close>.\<close>

datatype link =
    Dummy LinkAttrs
  | Iptun LinkAttrs tunnel
  | Ip6tnl LinkAttrs tunnel
  | OtherLink LinkAttrs

primrec Attrs :: "link \<Rightarrow> LinkAttrs" where
  "Attrs (Dummy a) = a"
| "Attrs (Iptun a t) = a"
| "Attrs (Ip6tnl a t) = a"
| "Attrs (OtherLink a) = a"

primrec map_Attrs :: "(LinkAttrs \<Rightarrow> LinkAttrs) \<Rightarrow> link \<Rightarrow> link" where
  "map_Attrs f (Dummy a) = Dummy (f a)"
| "map_Attrs f (Iptun a t) = Iptun (f a) t"
| "map_Attrs f (Ip6tnl a t) = Ip6tnl (f a) t"
| "map_Attrs f (OtherLink a) = OtherLink (f a)"

lemma Attrs_map_Attrs [simp]: "Attrs (map_Attrs f l) = f (Attrs l)"
  by (cases l) auto

abbreviation link_name :: "link \<Rightarrow> string" where
  "link_name l \<equiv> la_Name (Attrs l)"

abbreviation link_index :: "link \<Rightarrow> int" where
  "link_index l \<equiv> la_Index (Attrs l)"

text \<open>Of rules and routes, the fields the program sets or reads.\<close>

record rule =
  r_Family :: family
  r_Table :: int
  r_Priority :: int
  r_IifName :: string
  r_Dst :: "ipnet option"

record route =
  rt_Table :: int
  rt_Dst :: "ipnet option"
  rt_LinkIndex :: int
  rt_Protocol :: int

record fou =
  fou_Family :: family
  fou_Protocol :: nat
  fou_Port :: int
  fou_EncapType :: encap

text \<open>The family of a route is that of its destination address.\<close>

definition ip_family :: "ip \<Rightarrow> family" where
  "ip_family a = (if To4 a \<noteq> nil_IP then FAMILY_V4 else FAMILY_V6)"

definition route_family :: "route \<Rightarrow> family" where
  "route_family r = (case rt_Dst r of None \<Rightarrow> FAMILY_V4 | Some n \<Rightarrow> ip_family (IP n))"

text \<open>
  A destination as the kernel reports it: an IPv4 address in its 4-byte form, and no destination
  at all for a prefix of length 0 (the ``library issue'' the comments in \<^verbatim>\<open>clear\<close> speak of).
\<close>

definition kernel_dst :: "ipnet option \<Rightarrow> ipnet option" where
  "kernel_dst d = (case d of None \<Rightarrow> None
     | Some n \<Rightarrow> if set (Mask n) \<subseteq> {0} then None
                 else Some (if To4 (IP n) \<noteq> nil_IP then n\<lparr>IP := To4 (IP n)\<rparr> else n))"

definition kernel_route :: "route \<Rightarrow> route" where
  "kernel_route x = x\<lparr>rt_Dst := kernel_dst (rt_Dst x)\<rparr>"

definition kernel_rule :: "rule \<Rightarrow> rule" where
  "kernel_rule x = x\<lparr>r_Dst := kernel_dst (r_Dst x)\<rparr>"

lemma kernel_route_simps [simp]:
  "rt_Table (kernel_route x) = rt_Table x" "rt_LinkIndex (kernel_route x) = rt_LinkIndex x"
  "rt_Protocol (kernel_route x) = rt_Protocol x" "rt_Dst (kernel_route x) = kernel_dst (rt_Dst x)"
  by (simp_all add: kernel_route_def)

lemma kernel_rule_simps [simp]:
  "r_Family (kernel_rule x) = r_Family x" "r_Table (kernel_rule x) = r_Table x"
  "r_Priority (kernel_rule x) = r_Priority x" "r_IifName (kernel_rule x) = r_IifName x"
  "r_Dst (kernel_rule x) = kernel_dst (r_Dst x)"
  by (simp_all add: kernel_rule_def)

text \<open>A route listed for a family has a destination of that family, or none.\<close>

definition dst_family :: "family \<Rightarrow> route \<Rightarrow> bool" where
  "dst_family f x = (case rt_Dst x of None \<Rightarrow> True | Some n \<Rightarrow> ip_family (IP n) = f)"

lemma dst_family_kernel_route [simp]: "dst_family (route_family x) (kernel_route x)"
  by (auto simp: dst_family_def route_family_def kernel_dst_def ip_family_def split: option.split)

section \<open>The calls\<close>

record 's netlink =
  LinkByName :: "string \<Rightarrow> ('s, link) go"
  LinkAdd :: "link \<Rightarrow> ('s, unit) go"
  LinkDel :: "link \<Rightarrow> ('s, unit) go"
  LinkSetUp :: "link \<Rightarrow> ('s, unit) go"
  LinkSetName :: "link \<Rightarrow> string \<Rightarrow> ('s, unit) go"
  RuleList :: "family \<Rightarrow> ('s, rule list) go"
  RuleAdd :: "rule \<Rightarrow> ('s, unit) go"
  RuleDel :: "rule \<Rightarrow> ('s, unit) go"
  RouteListFiltered :: "family \<Rightarrow> int \<Rightarrow> ('s, route list) go"
  RouteAdd :: "route \<Rightarrow> ('s, unit) go"
  RouteDel :: "route \<Rightarrow> ('s, unit) go"
  FouAdd :: "fou \<Rightarrow> ('s, unit) go"
  CombinedOutput :: "string \<Rightarrow> string list \<Rightarrow> ('s, string) go"
  Sysctl :: "string \<Rightarrow> string \<Rightarrow> ('s, unit) go"
  EnableIP4Forward :: "('s, unit) go"
  EnableIP6Forward :: "('s, unit) go"
  NewWithProtocol :: "family \<Rightarrow> ('s, family) go"
  ipt_Insert :: "family \<Rightarrow> string \<Rightarrow> string \<Rightarrow> nat \<Rightarrow> string list \<Rightarrow> ('s, unit) go"
  ipt_Append :: "family \<Rightarrow> string \<Rightarrow> string \<Rightarrow> string list \<Rightarrow> ('s, unit) go"
  NewIPNet :: "ip \<Rightarrow> ipnet"

section \<open>What the calls do to the view\<close>

record kview =
  v_links :: "string \<Rightarrow> link option"
  v_rules :: "rule multiset"
  v_routes :: "(family \<times> route) multiset"
  v_fou :: "fou multiset"
  v_sysctl :: "string \<Rightarrow> string option"
  v_ipt :: "family \<Rightarrow> string \<Rightarrow> string \<Rightarrow> string list list"

text \<open>
  Creating a tunnel loads kernel modules, which may create the fallback devices \<^verbatim>\<open>tunl0\<close>
  and \<^verbatim>\<open>ip6tnl0\<close> (the comment at \<^verbatim>\<open>setupIPIPDevices\<close> says so).  \<open>autoload v v'\<close> allows
  for that and for nothing else.
\<close>

definition fallback_devices :: "string set" where
  "fallback_devices = {''tunl0'', ''ip6tnl0''}"

definition autoload :: "kview \<Rightarrow> kview \<Rightarrow> bool" where
  "autoload v v' \<longleftrightarrow>
    v' = v\<lparr>v_links := v_links v'\<rparr> \<and>
    (\<forall>n. n \<notin> fallback_devices \<or> v_links v n \<noteq> None \<longrightarrow> v_links v' n = v_links v n)"

definition LinkByName_post :: "string \<Rightarrow> kview \<Rightarrow> err + link \<Rightarrow> kview \<Rightarrow> bool" where
  "LinkByName_post n v r v' \<longleftrightarrow> v' = v \<and>
    (case r of Inl e \<Rightarrow> is_LinkNotFoundError e \<longrightarrow> v_links v n = None
     | Inr l \<Rightarrow> v_links v n = Some l \<and> link_name l = n)"

text \<open>A new link reads back as it was added, with the index the kernel gave it.\<close>

definition with_index :: "int \<Rightarrow> link \<Rightarrow> link" where
  "with_index i = map_Attrs (la_Index_update (\<lambda>_. i))"

definition LinkAdd_post :: "link \<Rightarrow> kview \<Rightarrow> err + unit \<Rightarrow> kview \<Rightarrow> bool" where
  "LinkAdd_post l v r v' \<longleftrightarrow>
    (case r of Inl _ \<Rightarrow> autoload v v'
     | Inr _ \<Rightarrow> v_links v (link_name l) = None \<and>
        (\<exists>i w. autoload v w \<and>
          v' = w\<lparr>v_links := (v_links w)(link_name l \<mapsto> with_index i l)\<rparr>))"

text \<open>Deleting a link drops the routes through it.\<close>

definition LinkDel_post :: "link \<Rightarrow> kview \<Rightarrow> err + unit \<Rightarrow> kview \<Rightarrow> bool" where
  "LinkDel_post l v r v' \<longleftrightarrow>
    (case r of Inl _ \<Rightarrow> v' = v
     | Inr _ \<Rightarrow> v' = v\<lparr>v_links := (v_links v)(link_name l := None),
         v_routes := filter_mset (\<lambda>(f, r). rt_LinkIndex r \<noteq> link_index l) (v_routes v)\<rparr>)"

definition LinkSetUp_post :: "link \<Rightarrow> kview \<Rightarrow> err + unit \<Rightarrow> kview \<Rightarrow> bool" where
  "LinkSetUp_post l v r v' \<longleftrightarrow>
    (case r of Inl _ \<Rightarrow> v' = v
     | Inr _ \<Rightarrow> (\<exists>l'. v_links v (link_name l) = Some l' \<and>
         v' = v\<lparr>v_links := (v_links v)(link_name l \<mapsto> map_Attrs (la_Up_update (\<lambda>_. True)) l')\<rparr>))"

definition LinkSetName_post :: "link \<Rightarrow> string \<Rightarrow> kview \<Rightarrow> err + unit \<Rightarrow> kview \<Rightarrow> bool" where
  "LinkSetName_post l to v r v' \<longleftrightarrow>
    (case r of Inl _ \<Rightarrow> v' = v
     | Inr _ \<Rightarrow> (\<exists>l'. v_links v (link_name l) = Some l' \<and> v_links v to = None \<and>
         v' = v\<lparr>v_links := (v_links v)(link_name l := None,
                   to \<mapsto> map_Attrs (la_Name_update (\<lambda>_. to)) l')\<rparr>))"

definition RuleList_post :: "family \<Rightarrow> kview \<Rightarrow> err + rule list \<Rightarrow> kview \<Rightarrow> bool" where
  "RuleList_post f v r v' \<longleftrightarrow> v' = v \<and>
    (case r of Inl _ \<Rightarrow> True
     | Inr rs \<Rightarrow> mset rs = filter_mset (\<lambda>x. r_Family x = f) (v_rules v))"

definition RuleAdd_post :: "rule \<Rightarrow> kview \<Rightarrow> err + unit \<Rightarrow> kview \<Rightarrow> bool" where
  "RuleAdd_post x v r v' \<longleftrightarrow>
    (case r of Inl _ \<Rightarrow> v' = v | Inr _ \<Rightarrow> v' = v\<lparr>v_rules := add_mset (kernel_rule x) (v_rules v)\<rparr>)"

text \<open>Deletion removes one rule that agrees in family, table and priority.\<close>

definition RuleDel_post :: "rule \<Rightarrow> kview \<Rightarrow> err + unit \<Rightarrow> kview \<Rightarrow> bool" where
  "RuleDel_post x v r v' \<longleftrightarrow>
    (case r of Inl _ \<Rightarrow> v' = v
     | Inr _ \<Rightarrow> (\<exists>y. y \<in># v_rules v \<and> r_Family y = r_Family x \<and> r_Table y = r_Table x \<and>
         r_Priority y = r_Priority x \<and> v' = v\<lparr>v_rules := v_rules v - {#y#}\<rparr>))"

definition RouteListFiltered_post ::
  "family \<Rightarrow> int \<Rightarrow> kview \<Rightarrow> err + route list \<Rightarrow> kview \<Rightarrow> bool" where
  "RouteListFiltered_post f t v r v' \<longleftrightarrow> v' = v \<and>
    (case r of Inl _ \<Rightarrow> True
     | Inr rs \<Rightarrow> mset (map (Pair f) rs) =
         filter_mset (\<lambda>(g, x). g = f \<and> rt_Table x = t) (v_routes v) \<and>
         (\<forall>x \<in> set rs. dst_family f x))"

definition RouteAdd_post :: "route \<Rightarrow> kview \<Rightarrow> err + unit \<Rightarrow> kview \<Rightarrow> bool" where
  "RouteAdd_post x v r v' \<longleftrightarrow>
    (case r of Inl _ \<Rightarrow> v' = v
     | Inr _ \<Rightarrow> v' = v\<lparr>v_routes := add_mset (route_family x, kernel_route x) (v_routes v)\<rparr>)"

text \<open>Deletion removes one route of the same family and table.\<close>

definition RouteDel_post :: "route \<Rightarrow> kview \<Rightarrow> err + unit \<Rightarrow> kview \<Rightarrow> bool" where
  "RouteDel_post x v r v' \<longleftrightarrow>
    (case r of Inl _ \<Rightarrow> v' = v
     | Inr _ \<Rightarrow> (\<exists>y. (route_family x, y) \<in># v_routes v \<and> rt_Table y = rt_Table x \<and>
         v' = v\<lparr>v_routes := v_routes v - {#(route_family x, y)#}\<rparr>))"

definition FouAdd_post :: "fou \<Rightarrow> kview \<Rightarrow> err + unit \<Rightarrow> kview \<Rightarrow> bool" where
  "FouAdd_post x v r v' \<longleftrightarrow>
    (case r of Inl _ \<Rightarrow> v' = v | Inr _ \<Rightarrow> v' = v\<lparr>v_fou := add_mset x (v_fou v)\<rparr>)"

definition Sysctl_post :: "string \<Rightarrow> string \<Rightarrow> kview \<Rightarrow> err + unit \<Rightarrow> kview \<Rightarrow> bool" where
  "Sysctl_post k x v r v' \<longleftrightarrow>
    (case r of Inl _ \<Rightarrow> v' = v | Inr _ \<Rightarrow> v' = v\<lparr>v_sysctl := (v_sysctl v)(k \<mapsto> x)\<rparr>)"

definition upd_chain ::
  "family \<Rightarrow> string \<Rightarrow> string \<Rightarrow> (string list list \<Rightarrow> string list list) \<Rightarrow> kview \<Rightarrow> kview" where
  "upd_chain f t c g v =
    v\<lparr>v_ipt := (v_ipt v)(f := (v_ipt v f)(t := (v_ipt v f t)(c := g (v_ipt v f t c))))\<rparr>"

definition ipt_Insert_post ::
  "family \<Rightarrow> string \<Rightarrow> string \<Rightarrow> nat \<Rightarrow> string list \<Rightarrow> kview \<Rightarrow> err + unit \<Rightarrow> kview \<Rightarrow> bool" where
  "ipt_Insert_post f t c pos x v r v' \<longleftrightarrow>
    (case r of Inl _ \<Rightarrow> v' = v
     | Inr _ \<Rightarrow> v' = upd_chain f t c (\<lambda>xs. take (pos - 1) xs @ x # drop (pos - 1) xs) v)"

definition ipt_Append_post ::
  "family \<Rightarrow> string \<Rightarrow> string \<Rightarrow> string list \<Rightarrow> kview \<Rightarrow> err + unit \<Rightarrow> kview \<Rightarrow> bool" where
  "ipt_Append_post f t c x v r v' \<longleftrightarrow>
    (case r of Inl _ \<Rightarrow> v' = v | Inr _ \<Rightarrow> v' = upd_chain f t c (\<lambda>xs. xs @ [x]) v)"

lemmas netlink_posts =
  LinkByName_post_def LinkAdd_post_def LinkDel_post_def LinkSetUp_post_def LinkSetName_post_def
  RuleList_post_def RuleAdd_post_def RuleDel_post_def RouteListFiltered_post_def
  RouteAdd_post_def RouteDel_post_def FouAdd_post_def Sysctl_post_def ipt_Insert_post_def
  ipt_Append_post_def

lemma with_index_simps [simp]:
  "link_name (with_index i l) = link_name l"
  "link_index (with_index i l) = i"
  "with_index i (Dummy a) = Dummy (a\<lparr>la_Index := i\<rparr>)"
  "with_index i (Iptun a t) = Iptun (a\<lparr>la_Index := i\<rparr>) t"
  "with_index i (Ip6tnl a t) = Ip6tnl (a\<lparr>la_Index := i\<rparr>) t"
  by (simp_all add: with_index_def)

lemma autoload_refl [simp]: "autoload v v"
  by (simp add: autoload_def)

lemma autoload_links:
  "autoload v v' \<Longrightarrow> n \<notin> fallback_devices \<Longrightarrow> v_links v' n = v_links v n"
  by (simp add: autoload_def)

lemma autoload_same:
  assumes "autoload v v'"
  shows "v_rules v' = v_rules v" "v_routes v' = v_routes v" "v_fou v' = v_fou v"
    "v_sysctl v' = v_sysctl v" "v_ipt v' = v_ipt v"
proof -
  have eq: "v' = v\<lparr>v_links := v_links v'\<rparr>"
    using assms by (simp add: autoload_def)
  show "v_rules v' = v_rules v" "v_routes v' = v_routes v" "v_fou v' = v_fou v"
    "v_sysctl v' = v_sysctl v" "v_ipt v' = v_ipt v"
    by (subst eq, simp)+
qed

lemma autoload_update:
  assumes "autoload v w"
  shows "w\<lparr>v_links := f\<rparr> = v\<lparr>v_links := f\<rparr>"
proof -
  have "w = v\<lparr>v_links := v_links w\<rparr>" using assms by (simp add: autoload_def)
  then have "w\<lparr>v_links := f\<rparr> = v\<lparr>v_links := v_links w\<rparr>\<lparr>v_links := f\<rparr>" by (rule arg_cong)
  then show ?thesis by simp
qed

section \<open>The contract\<close>

text \<open>
  \<open>ErrIPFamilyMismatch\<close> is a sentinel of package \<^verbatim>\<open>founat\<close>: no call of the environment
  returns it.  No call of the environment panics.
\<close>

definition env_err :: "err + 'a \<Rightarrow> bool" where
  "env_err r \<longleftrightarrow> (case r of Inl e \<Rightarrow> \<not> Is_ErrIPFamilyMismatch e \<and> \<not> is_panic e | Inr _ \<Rightarrow> True)"

lemma env_err_simps [simp]:
  "env_err (Inl e) \<longleftrightarrow> \<not> Is_ErrIPFamilyMismatch e \<and> \<not> is_panic e" "env_err (Inr x)"
  by (simp_all add: env_err_def)

locale netlink_laws =
  fixes nl :: "'s netlink" and view :: "'s \<Rightarrow> kview"
  assumes law_LinkByName:
      "wp (LinkByName nl n) (\<lambda>r s'. env_err r \<and> LinkByName_post n (view s) r (view s')) s"
    and law_LinkAdd: "wp (LinkAdd nl l) (\<lambda>r s'. env_err r \<and> LinkAdd_post l (view s) r (view s')) s"
    and law_LinkDel: "wp (LinkDel nl l) (\<lambda>r s'. env_err r \<and> LinkDel_post l (view s) r (view s')) s"
    and law_LinkSetUp: "wp (LinkSetUp nl l) (\<lambda>r s'. env_err r \<and> LinkSetUp_post l (view s) r (view s')) s"
    and law_LinkSetName:
      "wp (LinkSetName nl l to) (\<lambda>r s'. env_err r \<and> LinkSetName_post l to (view s) r (view s')) s"
    and law_RuleList: "wp (RuleList nl f) (\<lambda>r s'. env_err r \<and> RuleList_post f (view s) r (view s')) s"
    and law_RuleAdd: "wp (RuleAdd nl x) (\<lambda>r s'. env_err r \<and> RuleAdd_post x (view s) r (view s')) s"
    and law_RuleDel: "wp (RuleDel nl x) (\<lambda>r s'. env_err r \<and> RuleDel_post x (view s) r (view s')) s"
    and law_RouteListFiltered:
      "wp (RouteListFiltered nl f t) (\<lambda>r s'. env_err r \<and> RouteListFiltered_post f t (view s) r (view s')) s"
    and law_RouteAdd: "wp (RouteAdd nl y) (\<lambda>r s'. env_err r \<and> RouteAdd_post y (view s) r (view s')) s"
    and law_RouteDel: "wp (RouteDel nl y) (\<lambda>r s'. env_err r \<and> RouteDel_post y (view s) r (view s')) s"
    and law_FouAdd: "wp (FouAdd nl z) (\<lambda>r s'. env_err r \<and> FouAdd_post z (view s) r (view s')) s"
    and law_CombinedOutput: "wp (CombinedOutput nl c args) (\<lambda>r s'. env_err r \<and> autoload (view s) (view s')) s"
    and law_Sysctl: "wp (Sysctl nl k x') (\<lambda>r s'. env_err r \<and> Sysctl_post k x' (view s) r (view s')) s"
    and law_EnableIP4Forward: "wp (EnableIP4Forward nl)
      (\<lambda>r s'. env_err r \<and> Sysctl_post ''net.ipv4.ip_forward'' ''1'' (view s) r (view s')) s"
    and law_EnableIP6Forward: "wp (EnableIP6Forward nl)
      (\<lambda>r s'. env_err r \<and> Sysctl_post ''net.ipv6.conf.all.forwarding'' ''1'' (view s) r (view s')) s"
    and law_NewWithProtocol: "wp (NewWithProtocol nl f)
      (\<lambda>r s'. env_err r \<and> view s' = view s \<and> (case r of Inl _ \<Rightarrow> True | Inr h \<Rightarrow> h = f)) s"
    and law_ipt_Insert: "wp (ipt_Insert nl f tb ch pos sp)
      (\<lambda>r s'. env_err r \<and> ipt_Insert_post f tb ch pos sp (view s) r (view s')) s"
    and law_ipt_Append: "wp (ipt_Append nl f tb ch sp)
      (\<lambda>r s'. env_err r \<and> ipt_Append_post f tb ch sp (view s) r (view s')) s"
    and law_NewIPNet: "NewIPNet nl a =
      \<lparr>IP = a, Mask = (if To4 a \<noteq> nil_IP then CIDRMask 32 32 else CIDRMask 128 128)\<rparr>"
begin

lemmas op_wp [wp_ops] =
  law_LinkByName [THEN wp_conseq] law_LinkAdd [THEN wp_conseq] law_LinkDel [THEN wp_conseq]
  law_LinkSetUp [THEN wp_conseq] law_LinkSetName [THEN wp_conseq] law_RuleList [THEN wp_conseq]
  law_RuleAdd [THEN wp_conseq] law_RuleDel [THEN wp_conseq]
  law_RouteListFiltered [THEN wp_conseq] law_RouteAdd [THEN wp_conseq]
  law_RouteDel [THEN wp_conseq] law_FouAdd [THEN wp_conseq]
  law_CombinedOutput [THEN wp_conseq] law_Sysctl [THEN wp_conseq]
  law_EnableIP4Forward [THEN wp_conseq] law_EnableIP6Forward [THEN wp_conseq]
  law_NewWithProtocol [THEN wp_conseq] law_ipt_Insert [THEN wp_conseq]
  law_ipt_Append [THEN wp_conseq]

end

text \<open>
  Which calls succeed: \<open>ok\<close> marks the states in which the kernel refuses nothing but what it
  must (a name that is taken, an object that does not exist or is already there).  A network
  namespace has one fallback device of each family: while it goes by the name the program gives
  it, no other device has its first name (\<open>ok_fallback\<close>).
\<close>

definition same_dst_route :: "route \<Rightarrow> kview \<Rightarrow> bool" where
  "same_dst_route y v \<longleftrightarrow> (\<exists>z. (route_family y, z) \<in># v_routes v \<and>
     rt_Table z = rt_Table y \<and> rt_Dst z = kernel_dst (rt_Dst y))"

definition renamed_fallbacks :: "(string \<times> string) set" where
  "renamed_fallbacks = {(''tunl0'', ''egress_tunl''), (''ip6tnl0'', ''egress_ip6tnl'')}"

locale netlink_reliable = netlink_laws nl view
  for nl :: "'s netlink" and view :: "'s \<Rightarrow> kview" +
  fixes ok :: "'s \<Rightarrow> bool"
  assumes ok_fallback: "ok s \<Longrightarrow> (n, m) \<in> renamed_fallbacks \<Longrightarrow>
      v_links (view s) n = None \<or> v_links (view s) m = None"
    and ok_LinkByName: "ok s \<Longrightarrow> wp (LinkByName nl n) (\<lambda>r s'. ok s' \<and>
      (case v_links (view s) n of None \<Rightarrow> (\<exists>e. r = Inl e \<and> is_LinkNotFoundError e)
       | Some l \<Rightarrow> r = Inr l)) s"
    and ok_LinkAdd: "ok s \<Longrightarrow> link_name l \<notin> fst ` renamed_fallbacks \<union> snd ` renamed_fallbacks \<Longrightarrow>
      v_links (view s) (link_name l) = None \<Longrightarrow> wp (LinkAdd nl l) (\<lambda>r s'. ok s' \<and> r = Inr ()) s"
    and ok_LinkDel: "ok s \<Longrightarrow> v_links (view s) (link_name l) \<noteq> None \<Longrightarrow>
      wp (LinkDel nl l) (\<lambda>r s'. ok s' \<and> r = Inr ()) s"
    and ok_LinkSetUp: "ok s \<Longrightarrow> v_links (view s) (link_name l) \<noteq> None \<Longrightarrow>
      wp (LinkSetUp nl l) (\<lambda>r s'. ok s' \<and> r = Inr ()) s"
    and ok_LinkSetName: "ok s \<Longrightarrow> (link_name l, to) \<in> renamed_fallbacks \<Longrightarrow>
      v_links (view s) (link_name l) \<noteq> None \<Longrightarrow> v_links (view s) to = None \<Longrightarrow>
      wp (LinkSetName nl l to) (\<lambda>r s'. ok s' \<and> r = Inr ()) s"
    and ok_RuleList: "ok s \<Longrightarrow> wp (RuleList nl f) (\<lambda>r s'. ok s' \<and> (\<exists>xs. r = Inr xs)) s"
    and ok_RuleAdd: "ok s \<Longrightarrow> kernel_rule x \<notin># v_rules (view s) \<Longrightarrow>
      wp (RuleAdd nl x) (\<lambda>r s'. ok s' \<and> r = Inr ()) s"
    and ok_RuleDel: "ok s \<Longrightarrow> x' \<in># v_rules (view s) \<Longrightarrow> r_Family x' = r_Family x \<Longrightarrow>
      r_Table x' = r_Table x \<Longrightarrow> r_Priority x' = r_Priority x \<Longrightarrow>
      wp (RuleDel nl x) (\<lambda>r s'. ok s' \<and> r = Inr ()) s"
    and ok_RouteListFiltered: "ok s \<Longrightarrow>
      wp (RouteListFiltered nl f t) (\<lambda>r s'. ok s' \<and> (\<exists>xs. r = Inr xs)) s"
    and ok_RouteAdd: "ok s \<Longrightarrow> \<not> same_dst_route y (view s) \<Longrightarrow>
      wp (RouteAdd nl y) (\<lambda>r s'. ok s' \<and> r = Inr ()) s"
    and ok_RouteDel: "ok s \<Longrightarrow> (route_family y, y') \<in># v_routes (view s) \<Longrightarrow>
      rt_Table y' = rt_Table y \<Longrightarrow> wp (RouteDel nl y) (\<lambda>r s'. ok s' \<and> r = Inr ()) s"
    and ok_FouAdd: "ok s \<Longrightarrow> \<forall>z' \<in># v_fou (view s). fou_Family z' \<noteq> fou_Family z \<or> fou_Port z' \<noteq> fou_Port z \<Longrightarrow>
      wp (FouAdd nl z) (\<lambda>r s'. ok s' \<and> r = Inr ()) s"
    and ok_CombinedOutput: "ok s \<Longrightarrow> wp (CombinedOutput nl c args) (\<lambda>r s'. ok s' \<and> (\<exists>x. r = Inr x)) s"
    and ok_Sysctl: "ok s \<Longrightarrow> wp (Sysctl nl k v) (\<lambda>r s'. ok s' \<and> r = Inr ()) s"
    and ok_EnableIP4Forward: "ok s \<Longrightarrow> wp (EnableIP4Forward nl) (\<lambda>r s'. ok s' \<and> r = Inr ()) s"
    and ok_EnableIP6Forward: "ok s \<Longrightarrow> wp (EnableIP6Forward nl) (\<lambda>r s'. ok s' \<and> r = Inr ()) s"
    and ok_NewWithProtocol: "ok s \<Longrightarrow> wp (NewWithProtocol nl f) (\<lambda>r s'. ok s' \<and> r = Inr f) s"
    and ok_ipt_Insert: "ok s \<Longrightarrow> wp (ipt_Insert nl f tb ch pos sp) (\<lambda>r s'. ok s' \<and> r = Inr ()) s"
    and ok_ipt_Append: "ok s \<Longrightarrow> wp (ipt_Append nl f tb ch sp) (\<lambda>r s'. ok s' \<and> r = Inr ()) s"
begin

text \<open>The two contracts of each call together.\<close>

lemmas ok_wp [wp_ops] =
  wp_conj [OF ok_LinkByName law_LinkByName, THEN wp_conseq]
  wp_conj [OF ok_LinkAdd law_LinkAdd, THEN wp_conseq]
  wp_conj [OF ok_LinkDel law_LinkDel, THEN wp_conseq]
  wp_conj [OF ok_LinkSetUp law_LinkSetUp, THEN wp_conseq]
  wp_conj [OF ok_LinkSetName law_LinkSetName, THEN wp_conseq]
  wp_conj [OF ok_RuleList law_RuleList, THEN wp_conseq]
  wp_conj [OF ok_RuleAdd law_RuleAdd, THEN wp_conseq]
  wp_conj [OF ok_RuleDel law_RuleDel, THEN wp_conseq]
  wp_conj [OF ok_RouteListFiltered law_RouteListFiltered, THEN wp_conseq]
  wp_conj [OF ok_RouteAdd law_RouteAdd, THEN wp_conseq]
  wp_conj [OF ok_RouteDel law_RouteDel, THEN wp_conseq]
  wp_conj [OF ok_FouAdd law_FouAdd, THEN wp_conseq]
  wp_conj [OF ok_CombinedOutput law_CombinedOutput, THEN wp_conseq]
  wp_conj [OF ok_Sysctl law_Sysctl, THEN wp_conseq]
  wp_conj [OF ok_EnableIP4Forward law_EnableIP4Forward, THEN wp_conseq]
  wp_conj [OF ok_EnableIP6Forward law_EnableIP6Forward, THEN wp_conseq]
  wp_conj [OF ok_NewWithProtocol law_NewWithProtocol, THEN wp_conseq]
  wp_conj [OF ok_ipt_Insert law_ipt_Insert, THEN wp_conseq]
  wp_conj [OF ok_ipt_Append law_ipt_Append, THEN wp_conseq]

end

end
