(* ===== verification/Mem_Kernel.thy ===== *)
theory Mem_Kernel
  imports Netlink
begin

text \<open>
  An in-memory kernel: an instance of the record \<^typ>\<open>'s netlink\<close> whose calls can be evaluated.
  It meets the contracts \<open>netlink_laws\<close> and \<open>netlink_reliable\<close>, so the theorems
  about the program apply to runs on it.  It refuses what Linux refuses (taken names, duplicate
  rules, routes and listeners, absent objects), creates the fallback tunnel devices when a tunnel
  module is first loaded, and fails calls on demand: each call takes the next entry of
  \<open>m_fault\<close> and fails without effect if that is \<open>True\<close>.
\<close>

record mem =
  m_links :: "link list"
  m_rules :: "rule list"
  m_routes :: "(family \<times> route) list"
  m_fou :: "fou list"
  m_sysctl :: "string \<Rightarrow> string option"
  m_ipt :: "family \<Rightarrow> string \<Rightarrow> string \<Rightarrow> string list list"
  m_next :: int
  m_mod4 :: bool
  m_mod6 :: bool
  m_fault :: "bool list"

definition mem_init :: mem where
  "mem_init = \<lparr>m_links = [], m_rules = [], m_routes = [], m_fou = [], m_sysctl = Map.empty,
     m_ipt = (\<lambda>_ _ _. []), m_next = 2, m_mod4 = False, m_mod6 = False, m_fault = []\<rparr>"

definition mem_op :: "(mem \<Rightarrow> (err + 'a) \<times> mem) \<Rightarrow> (mem, 'a) go" where
  "mem_op f = State (\<lambda>s. case m_fault s of
      True # fs \<Rightarrow> (Inl (OtherError ''injected fault''), s\<lparr>m_fault := fs\<rparr>)
    | False # fs \<Rightarrow> f (s\<lparr>m_fault := fs\<rparr>)
    | [] \<Rightarrow> f s)"

definition find_link :: "link list \<Rightarrow> string \<Rightarrow> link option" where
  "find_link ls n = find (\<lambda>l. link_name l = n) ls"

definition eexist :: err where "eexist = OtherError ''file exists''"
definition enoent :: err where "enoent = OtherError ''no such file or directory''"

definition fallback :: "string \<Rightarrow> int \<Rightarrow> link" where
  "fallback n i = OtherLink \<lparr>la_Name = n, la_Index = i, la_Up = False\<rparr>"

text \<open>Loading a tunnel module for the first time makes its fallback device.\<close>

definition load_module :: "link \<Rightarrow> mem \<Rightarrow> mem" where
  "load_module l s = (case l of
     Iptun _ _ \<Rightarrow>
       if m_mod4 s \<or> find_link (m_links s) ''tunl0'' \<noteq> None \<or> link_name l = ''tunl0'' then s
       else s\<lparr>m_mod4 := True, m_links := m_links s @ [fallback ''tunl0'' (m_next s)],
              m_next := m_next s + 1\<rparr>
   | Ip6tnl _ _ \<Rightarrow>
       if m_mod6 s \<or> find_link (m_links s) ''ip6tnl0'' \<noteq> None \<or> link_name l = ''ip6tnl0'' then s
       else s\<lparr>m_mod6 := True, m_links := m_links s @ [fallback ''ip6tnl0'' (m_next s)],
              m_next := m_next s + 1\<rparr>
   | _ \<Rightarrow> s)"

definition mem_LinkByName :: "string \<Rightarrow> mem \<Rightarrow> (err + link) \<times> mem" where
  "mem_LinkByName n s =
    (case find_link (m_links s) n of None \<Rightarrow> (Inl (LinkNotFoundError n), s) | Some l \<Rightarrow> (Inr l, s))"

definition mem_LinkAdd :: "link \<Rightarrow> mem \<Rightarrow> (err + unit) \<times> mem" where
  "mem_LinkAdd l s =
    (if find_link (m_links s) (link_name l) \<noteq> None then (Inl eexist, s)
     else let s1 = load_module l s in
       (Inr (), s1\<lparr>m_links := m_links s1 @ [with_index (m_next s1) l], m_next := m_next s1 + 1\<rparr>))"

definition mem_LinkDel :: "link \<Rightarrow> mem \<Rightarrow> (err + unit) \<times> mem" where
  "mem_LinkDel l s =
    (if find_link (m_links s) (link_name l) = None then (Inl enoent, s)
     else (Inr (), s\<lparr>m_links := filter (\<lambda>x. link_name x \<noteq> link_name l) (m_links s),
       m_routes := filter (\<lambda>(f, r). rt_LinkIndex r \<noteq> link_index l) (m_routes s)\<rparr>))"

definition map_link :: "string \<Rightarrow> (LinkAttrs \<Rightarrow> LinkAttrs) \<Rightarrow> link list \<Rightarrow> link list" where
  "map_link n f ls = map (\<lambda>x. if link_name x = n then map_Attrs f x else x) ls"

definition mem_LinkSetUp :: "link \<Rightarrow> mem \<Rightarrow> (err + unit) \<times> mem" where
  "mem_LinkSetUp l s =
    (if find_link (m_links s) (link_name l) = None then (Inl enoent, s)
     else (Inr (), s\<lparr>m_links := map_link (link_name l) (la_Up_update (\<lambda>_. True)) (m_links s)\<rparr>))"

definition mem_LinkSetName :: "link \<Rightarrow> string \<Rightarrow> mem \<Rightarrow> (err + unit) \<times> mem" where
  "mem_LinkSetName l to s =
    (if find_link (m_links s) (link_name l) = None then (Inl enoent, s)
     else if find_link (m_links s) to \<noteq> None then (Inl eexist, s)
     else (Inr (), s\<lparr>m_links := map_link (link_name l) (la_Name_update (\<lambda>_. to)) (m_links s)\<rparr>))"

definition mem_RuleAdd :: "rule \<Rightarrow> mem \<Rightarrow> (err + unit) \<times> mem" where
  "mem_RuleAdd x s =
    (if kernel_rule x \<in> set (m_rules s) then (Inl eexist, s)
     else (Inr (), s\<lparr>m_rules := m_rules s @ [kernel_rule x]\<rparr>))"

definition same_rule :: "rule \<Rightarrow> rule \<Rightarrow> bool" where
  "same_rule x y \<longleftrightarrow>
    r_Family y = r_Family x \<and> r_Table y = r_Table x \<and> r_Priority y = r_Priority x"

definition mem_RuleDel :: "rule \<Rightarrow> mem \<Rightarrow> (err + unit) \<times> mem" where
  "mem_RuleDel x s =
    (case find (same_rule x) (m_rules s) of None \<Rightarrow> (Inl enoent, s)
     | Some y \<Rightarrow> (Inr (), s\<lparr>m_rules := remove1 y (m_rules s)\<rparr>))"

text \<open>The routes that are reported: those whose destination is of their family.\<close>

definition wf_routes :: "mem \<Rightarrow> (family \<times> route) list" where
  "wf_routes s = filter (\<lambda>(g, x). dst_family g x) (m_routes s)"

definition mem_RouteList :: "family \<Rightarrow> int \<Rightarrow> mem \<Rightarrow> (err + route list) \<times> mem" where
  "mem_RouteList f t s =
    (Inr (map snd (filter (\<lambda>(g, x). g = f \<and> rt_Table x = t) (wf_routes s))), s)"

definition mem_RouteAdd :: "route \<Rightarrow> mem \<Rightarrow> (err + unit) \<times> mem" where
  "mem_RouteAdd x s =
    (if \<exists>(g, z) \<in> set (wf_routes s).
          g = route_family x \<and> rt_Table z = rt_Table x \<and> rt_Dst z = kernel_dst (rt_Dst x)
     then (Inl eexist, s)
     else (Inr (), s\<lparr>m_routes := m_routes s @ [(route_family x, kernel_route x)]\<rparr>))"

definition mem_RouteDel :: "route \<Rightarrow> mem \<Rightarrow> (err + unit) \<times> mem" where
  "mem_RouteDel x s =
    (case find (\<lambda>(g, y). g = route_family x \<and> rt_Table y = rt_Table x) (wf_routes s) of
       None \<Rightarrow> (Inl enoent, s)
     | Some p \<Rightarrow> (Inr (), s\<lparr>m_routes := remove1 p (m_routes s)\<rparr>))"

definition mem_FouAdd :: "fou \<Rightarrow> mem \<Rightarrow> (err + unit) \<times> mem" where
  "mem_FouAdd x s =
    (if \<exists>y \<in> set (m_fou s). fou_Family y = fou_Family x \<and> fou_Port y = fou_Port x
     then (Inl eexist, s) else (Inr (), s\<lparr>m_fou := m_fou s @ [x]\<rparr>))"

definition mem_Sysctl :: "string \<Rightarrow> string \<Rightarrow> mem \<Rightarrow> (err + unit) \<times> mem" where
  "mem_Sysctl k x s = (Inr (), s\<lparr>m_sysctl := (m_sysctl s)(k \<mapsto> x)\<rparr>)"

definition mem_chain ::
  "family \<Rightarrow> string \<Rightarrow> string \<Rightarrow> (string list list \<Rightarrow> string list list) \<Rightarrow> mem \<Rightarrow>
    (err + unit) \<times> mem" where
  "mem_chain f t c g s =
    (Inr (), s\<lparr>m_ipt := (m_ipt s)(f := (m_ipt s f)(t := (m_ipt s f t)(c := g (m_ipt s f t c))))\<rparr>)"

definition mem_ops :: "mem netlink" where
  "mem_ops =
    \<lparr>LinkByName = (\<lambda>n. mem_op (mem_LinkByName n)),
     LinkAdd = (\<lambda>l. mem_op (mem_LinkAdd l)),
     LinkDel = (\<lambda>l. mem_op (mem_LinkDel l)),
     LinkSetUp = (\<lambda>l. mem_op (mem_LinkSetUp l)),
     LinkSetName = (\<lambda>l to. mem_op (mem_LinkSetName l to)),
     RuleList = (\<lambda>f. mem_op (\<lambda>s. (Inr (filter (\<lambda>x. r_Family x = f) (m_rules s)), s))),
     RuleAdd = (\<lambda>x. mem_op (mem_RuleAdd x)),
     RuleDel = (\<lambda>x. mem_op (mem_RuleDel x)),
     RouteListFiltered = (\<lambda>f t. mem_op (mem_RouteList f t)),
     RouteAdd = (\<lambda>x. mem_op (mem_RouteAdd x)),
     RouteDel = (\<lambda>x. mem_op (mem_RouteDel x)),
     FouAdd = (\<lambda>x. mem_op (mem_FouAdd x)),
     CombinedOutput = (\<lambda>c args. mem_op (\<lambda>s. (Inr '''', s))),
     Sysctl = (\<lambda>k x. mem_op (mem_Sysctl k x)),
     EnableIP4Forward = mem_op (mem_Sysctl ''net.ipv4.ip_forward'' ''1''),
     EnableIP6Forward = mem_op (mem_Sysctl ''net.ipv6.conf.all.forwarding'' ''1''),
     NewWithProtocol = (\<lambda>f. mem_op (\<lambda>s. (Inr f, s))),
     ipt_Insert = (\<lambda>f t c pos x.
       mem_op (mem_chain f t c (\<lambda>xs. take (pos - 1) xs @ x # drop (pos - 1) xs))),
     ipt_Append = (\<lambda>f t c x. mem_op (mem_chain f t c (\<lambda>xs. xs @ [x]))),
     NewIPNet = (\<lambda>a. \<lparr>IP = a,
       Mask = (if To4 a \<noteq> nil_IP then CIDRMask 32 32 else CIDRMask 128 128)\<rparr>)\<rparr>"

definition mem_view :: "mem \<Rightarrow> kview" where
  "mem_view s = \<lparr>v_links = find_link (m_links s), v_rules = mset (m_rules s),
     v_routes = mset (wf_routes s), v_fou = mset (m_fou s), v_sysctl = m_sysctl s,
     v_ipt = m_ipt s\<rparr>"

definition has_link :: "mem \<Rightarrow> string \<Rightarrow> bool" where
  "has_link s n \<longleftrightarrow> find_link (m_links s) n \<noteq> None"

definition mem_ok :: "mem \<Rightarrow> bool" where
  "mem_ok s \<longleftrightarrow> m_fault s = [] \<and>
    (has_link s ''tunl0'' \<longrightarrow> m_mod4 s) \<and>
    (has_link s ''egress_tunl'' \<longrightarrow> m_mod4 s \<and> \<not> has_link s ''tunl0'') \<and>
    (has_link s ''ip6tnl0'' \<longrightarrow> m_mod6 s) \<and>
    (has_link s ''egress_ip6tnl'' \<longrightarrow> m_mod6 s \<and> \<not> has_link s ''ip6tnl0'')"

section \<open>The in-memory kernel meets the contract\<close>

lemma mem_view_fault [simp]: "mem_view (s\<lparr>m_fault := fs\<rparr>) = mem_view s"
  by (simp add: mem_view_def wf_routes_def)

text \<open>A call meets its contract if it does when the fault schedule lets it run.\<close>

lemma mem_law:
  assumes "\<And>e. P (mem_view s) (Inl (OtherError e)) (mem_view s)"
    and "\<And>s'. case f s' of (r, s'') \<Rightarrow> env_err r \<and> P (mem_view s') r (mem_view s'')"
  shows "wp (mem_op f) (\<lambda>r s'. env_err r \<and> P (mem_view s) r (mem_view s')) s"
  using assms(1) assms(2) [of s] assms(2) [of "s\<lparr>m_fault := tl (m_fault s)\<rparr>"]
  by (auto simp: mem_op_def wp_def split: list.splits bool.splits)

lemma wp_mem_op_ok: "mem_ok s \<Longrightarrow> wp (mem_op f) Q s = (case f s of (r, s') \<Rightarrow> Q r s')"
  by (simp add: mem_op_def wp_def mem_ok_def)

lemma find_link_Some: "find_link ls n = Some l \<Longrightarrow> link_name l = n"
  by (auto simp: find_link_def find_Some_iff)

lemma find_link_append [simp]:
  "find_link (xs @ ys) n = (case find_link xs n of None \<Rightarrow> find_link ys n | Some l \<Rightarrow> Some l)"
  by (induction xs) (auto simp: find_link_def)

lemma find_link_simps [simp]:
  "find_link [] n = None"
  "find_link (l # ls) n = (if link_name l = n then Some l else find_link ls n)"
  by (auto simp: find_link_def)

lemma find_link_snoc:
  "find_link ls (link_name l) = None \<Longrightarrow> find_link (ls @ [l]) = (find_link ls)(link_name l \<mapsto> l)"
  by (auto simp: fun_eq_iff split: option.splits)

lemma find_link_filter:
  "find_link (filter (\<lambda>x. link_name x \<noteq> n) ls) = (find_link ls)(n := None)"
  by (induction ls) (auto simp: fun_eq_iff)

lemma find_link_map_other:
  "(\<And>a. la_Name (f a) = la_Name a) \<Longrightarrow> m \<noteq> n \<Longrightarrow> find_link (map_link n f ls) m = find_link ls m"
  by (induction ls) (auto simp: map_link_def)

lemma find_link_map_at:
  "(\<And>a. la_Name (f a) = la_Name a) \<Longrightarrow> find_link ls n = Some l \<Longrightarrow>
    find_link (map_link n f ls) n = Some (map_Attrs f l)"
  by (induction ls) (auto simp: map_link_def split: if_splits)

lemma find_link_map_same:
  "(\<And>a. la_Name (f a) = la_Name a) \<Longrightarrow> find_link ls n = Some l \<Longrightarrow>
    find_link (map_link n f ls) = (find_link ls)(n \<mapsto> map_Attrs f l)"
  by (rule ext) (simp add: find_link_map_other find_link_map_at)

lemma find_link_rename_at:
  "find_link ls n = Some l \<Longrightarrow> find_link ls to = None \<Longrightarrow>
    find_link (map_link n (la_Name_update (\<lambda>_. to)) ls) to =
      Some (map_Attrs (la_Name_update (\<lambda>_. to)) l)"
  by (induction ls) (auto simp: map_link_def split: if_splits)

lemma find_link_rename_other:
  "find_link ls to = None \<Longrightarrow> m \<noteq> to \<Longrightarrow>
    find_link (map_link n (la_Name_update (\<lambda>_. to)) ls) m = (if m = n then None else find_link ls m)"
  by (induction ls) (auto simp: map_link_def split: if_splits)

lemma find_link_rename:
  "find_link ls n = Some l \<Longrightarrow> find_link ls to = None \<Longrightarrow>
    find_link (map_link n (la_Name_update (\<lambda>_. to)) ls) =
      (find_link ls)(n := None, to \<mapsto> map_Attrs (la_Name_update (\<lambda>_. to)) l)"
  by (rule ext) (auto simp: find_link_rename_at find_link_rename_other)

lemma find_link_name: "find_link ls n = Some l \<Longrightarrow> link_name l = n"
  by (rule find_link_Some)

lemma autoload_load_module: "autoload (mem_view s) (mem_view (load_module l s))"
  by (auto simp: load_module_def autoload_def mem_view_def wf_routes_def fallback_def
      fallback_devices_def split: link.splits option.splits)

lemma load_module_absent:
  "find_link (m_links s) (link_name l) = None \<Longrightarrow>
    find_link (m_links (load_module l s)) (link_name l) = None"
  by (auto simp: load_module_def fallback_def split: link.splits option.splits)

lemma mem_LinkAdd_ok:
  "case mem_LinkAdd l s of (r, s') \<Rightarrow> env_err r \<and> LinkAdd_post l (mem_view s) r (mem_view s')"
proof (cases "find_link (m_links s) (link_name l)")
  case None
  let ?s1 = "load_module l s"
  have "find_link (m_links ?s1 @ [with_index (m_next ?s1) l]) =
      (find_link (m_links ?s1))(link_name l \<mapsto> with_index (m_next ?s1) l)"
    using find_link_snoc [of "m_links ?s1" "with_index (m_next ?s1) l"] load_module_absent [OF None]
    by simp
  then show ?thesis
    using None autoload_load_module [of s l]
    by (auto simp: mem_LinkAdd_def Let_def LinkAdd_post_def mem_view_def wf_routes_def
        intro!: exI [of _ "m_next ?s1"] exI [of _ "mem_view ?s1"])
qed (simp add: mem_LinkAdd_def LinkAdd_post_def eexist_def)

lemma find_SomeD: "find P xs = Some x \<Longrightarrow> x \<in> set xs \<and> P x"
  by (auto simp: find_Some_iff)

lemma mem_RouteDel_ok:
  "case mem_RouteDel y s of (r, s') \<Rightarrow> env_err r \<and> RouteDel_post y (mem_view s) r (mem_view s')"
proof (cases "find (\<lambda>(g, z). g = route_family y \<and> rt_Table z = rt_Table y) (wf_routes s)")
  case (Some p)
  then obtain z where p: "p = (route_family y, z)" "rt_Table z = rt_Table y"
      "p \<in> set (wf_routes s)"
    by (auto dest!: find_SomeD)
  then have "wf_routes (s\<lparr>m_routes := remove1 p (m_routes s)\<rparr>) = remove1 p (wf_routes s)"
    by (simp add: wf_routes_def filter_remove1)
  with Some p show ?thesis
    by (auto simp: mem_RouteDel_def RouteDel_post_def mem_view_def)
qed (simp add: mem_RouteDel_def RouteDel_post_def enoent_def)

interpretation mem: netlink_laws mem_ops mem_view
proof (unfold_locales, goal_cases)
  case (1 n s)
  show ?case unfolding mem_ops_def netlink.simps
    by (rule mem_law) (auto simp: LinkByName_post_def mem_LinkByName_def mem_view_def
        dest: find_link_Some split: option.splits)
next
  case (2 l s)
  show ?case unfolding mem_ops_def netlink.simps
    by (rule mem_law) (use mem_LinkAdd_ok in \<open>auto simp: LinkAdd_post_def\<close>)
next
  case (3 l s)
  show ?case unfolding mem_ops_def netlink.simps
    by (rule mem_law) (auto simp: LinkDel_post_def mem_LinkDel_def mem_view_def enoent_def
        wf_routes_def find_link_filter mset_filter [symmetric] conj_commute simp del: mset_filter
        intro!: arg_cong [where f = mset] filter_cong)
next
  case (4 l s)
  show ?case unfolding mem_ops_def netlink.simps
    by (rule mem_law) (auto simp: LinkSetUp_post_def mem_LinkSetUp_def mem_view_def enoent_def
        wf_routes_def find_link_map_same)
next
  case (5 l to s)
  show ?case unfolding mem_ops_def netlink.simps
    by (rule mem_law) (auto simp: LinkSetName_post_def mem_LinkSetName_def mem_view_def enoent_def
        eexist_def wf_routes_def find_link_rename)
next
  case (6 f s)
  show ?case unfolding mem_ops_def netlink.simps
    by (rule mem_law) (auto simp: RuleList_post_def mem_view_def)
next
  case (7 x s)
  show ?case unfolding mem_ops_def netlink.simps
    by (rule mem_law) (auto simp: RuleAdd_post_def mem_RuleAdd_def mem_view_def eexist_def
        wf_routes_def)
next
  case (8 x s)
  show ?case unfolding mem_ops_def netlink.simps
    by (rule mem_law) (auto simp: RuleDel_post_def mem_RuleDel_def mem_view_def enoent_def
        same_rule_def find_Some_iff wf_routes_def split: option.splits intro!: exI nth_mem)
next
  case (9 f t s)
  show ?case unfolding mem_ops_def netlink.simps
    by (rule mem_law) (auto simp: RouteListFiltered_post_def mem_RouteList_def mem_view_def
        wf_routes_def mset_filter [symmetric] simp del: mset_filter mset_map
        intro!: arg_cong [where f = mset] map_idI)
next
  case (10 y s)
  show ?case unfolding mem_ops_def netlink.simps
    by (rule mem_law) (auto simp: RouteAdd_post_def mem_RouteAdd_def mem_view_def eexist_def
        wf_routes_def)
next
  case (11 y s)
  show ?case unfolding mem_ops_def netlink.simps
    by (rule mem_law) (use mem_RouteDel_ok in \<open>auto simp: RouteDel_post_def\<close>)
next
  case (12 z s)
  show ?case unfolding mem_ops_def netlink.simps
    by (rule mem_law) (auto simp: FouAdd_post_def mem_FouAdd_def mem_view_def eexist_def
        wf_routes_def)
next
  case (13 c args s)
  show ?case unfolding mem_ops_def netlink.simps
    by (rule mem_law [where P = "\<lambda>v r v'. autoload v v'"]) auto
next
  case (17 f s)
  show ?case unfolding mem_ops_def netlink.simps
    by (rule mem_law [where P = "\<lambda>v r v'. v' = v \<and> (case r of Inl _ \<Rightarrow> True | Inr h \<Rightarrow> h = f)"]) auto
next
  case (20 a)
  show ?case by (simp add: mem_ops_def)
qed (unfold mem_ops_def netlink.simps; rule mem_law;
     auto simp: Sysctl_post_def mem_Sysctl_def ipt_Insert_post_def ipt_Append_post_def
       mem_chain_def upd_chain_def mem_view_def wf_routes_def)+

lemma mem_okD: "mem_ok s \<Longrightarrow> m_fault s = []"
  by (simp add: mem_ok_def)

lemma mem_ok_frame:
  "mem_ok s \<Longrightarrow> m_fault s' = m_fault s \<Longrightarrow> m_links s' = m_links s \<Longrightarrow>
    m_mod4 s' = m_mod4 s \<Longrightarrow> m_mod6 s' = m_mod6 s \<Longrightarrow> mem_ok s'"
  by (simp add: mem_ok_def has_link_def)

lemma mem_ok_load: "mem_ok s \<Longrightarrow> mem_ok (load_module l s)"
  by (auto simp: mem_ok_def has_link_def load_module_def fallback_def
      split: link.splits option.splits)

lemma mem_ok_snoc:
  "mem_ok s \<Longrightarrow> link_name l \<notin> fst ` renamed_fallbacks \<union> snd ` renamed_fallbacks \<Longrightarrow>
    mem_ok (s\<lparr>m_links := m_links s @ [l], m_next := n\<rparr>)"
  by (auto simp: mem_ok_def has_link_def renamed_fallbacks_def split: option.splits)

lemma mem_ok_filter:
  "mem_ok s \<Longrightarrow> mem_ok (s\<lparr>m_links := filter (\<lambda>x. link_name x \<noteq> n) (m_links s), m_routes := rs\<rparr>)"
  by (auto simp: mem_ok_def has_link_def find_link_filter)

lemma find_link_up_None:
  "find_link (map_link n (la_Up_update f) ls) m = None \<longleftrightarrow> find_link ls m = None"
  by (induction ls) (auto simp: map_link_def)

lemma mem_ok_up:
  "mem_ok s \<Longrightarrow> mem_ok (s\<lparr>m_links := map_link n (la_Up_update (\<lambda>_. True)) (m_links s)\<rparr>)"
  by (simp add: mem_ok_def has_link_def find_link_up_None del: not_None_eq)

lemma has_link_rename:
  "find_link (m_links s) n = Some l \<Longrightarrow> find_link (m_links s) m = None \<Longrightarrow>
    has_link (s\<lparr>m_links := map_link n (la_Name_update (\<lambda>_. m)) (m_links s)\<rparr>) k \<longleftrightarrow>
      k = m \<or> k \<noteq> n \<and> has_link s k"
  by (simp add: has_link_def find_link_rename)

lemma mem_ok_rename:
  assumes "mem_ok s" "(n, m) \<in> renamed_fallbacks" "find_link (m_links s) n = Some l"
    "find_link (m_links s) m = None"
  shows "mem_ok (s\<lparr>m_links := map_link n (la_Name_update (\<lambda>_. m)) (m_links s)\<rparr>)"
proof -
  have "has_link s n"
    using assms(3) by (simp add: has_link_def)
  then show ?thesis
    using assms(1,2) unfolding mem_ok_def has_link_rename [OF assms(3,4)]
    by (auto simp: renamed_fallbacks_def)
qed

lemma mem_ok_fallback:
  "mem_ok s \<Longrightarrow> (n, m) \<in> renamed_fallbacks \<Longrightarrow>
    find_link (m_links s) n = None \<or> find_link (m_links s) m = None"
  by (auto simp: mem_ok_def has_link_def renamed_fallbacks_def)

interpretation memr: netlink_reliable mem_ops mem_view mem_ok
proof (unfold_locales, goal_cases)
  case (1 s n m)
  then show ?case using mem_ok_fallback by (simp add: mem_view_def)
next
  case (9 s x' x)
  then have "find (same_rule x) (m_rules s) \<noteq> None"
    by (auto simp: find_None_iff same_rule_def mem_view_def)
  then show ?case
    using 9 by (auto simp: mem_ops_def wp_mem_op_ok mem_RuleDel_def mem_ok_frame)
next
  case (12 s y y')
  then have "find (\<lambda>(g, z). g = route_family y \<and> rt_Table z = rt_Table y) (wf_routes s) \<noteq> None"
    by (auto simp: find_None_iff mem_view_def)
  then show ?case
    using 12 by (auto simp: mem_ops_def wp_mem_op_ok mem_RouteDel_def mem_ok_frame)
qed (auto simp: mem_ops_def wp_mem_op_ok mem_LinkByName_def mem_LinkAdd_def mem_LinkDel_def
      mem_LinkSetUp_def mem_LinkSetName_def mem_RuleAdd_def mem_RouteList_def mem_RouteAdd_def
      mem_FouAdd_def mem_Sysctl_def mem_chain_def same_dst_route_def Let_def mem_view_def
      mem_ok_load mem_ok_snoc mem_ok_filter mem_ok_up mem_ok_rename mem_ok_frame
      split: option.splits)

end
