(* ===== verification/Nat_Client.thy ===== *)
theory Nat_Client
  imports Mem_Kernel
begin

text \<open>
  \<^verbatim>\<open>pkg/founat/client.go\<close>: the policy routing of a client pod.  \<^verbatim>\<open>Init\<close> replaces the rules
  with priorities 1800 to 2100 and empties two routing tables; \<^verbatim>\<open>AddEgress\<close> sends the given
  networks to a tunnel, through the narrow table if they lie inside a local network and through
  the wide table otherwise.
\<close>

section \<open>Constants\<close>

definition ncProtocolID :: int where "ncProtocolID = 30"
definition ncNarrowTableID :: int where "ncNarrowTableID = 117"
definition ncWideTableID :: int where "ncWideTableID = 118"
definition mainTableID :: int where "mainTableID = 254"

definition ncLinkLocalPrio :: int where "ncLinkLocalPrio = 1800"
definition ncNarrowPrio :: int where "ncNarrowPrio = 1900"
definition ncLocalPrioBase :: int where "ncLocalPrioBase = 2000"
definition ncWidePrio :: int where "ncWidePrio = 2100"

lemmas nc_consts = ncProtocolID_def ncNarrowTableID_def ncWideTableID_def mainTableID_def
  ncLinkLocalPrio_def ncNarrowPrio_def ncLocalPrioBase_def ncWidePrio_def

definition v4PrivateList :: "ipnet list" where
  "v4PrivateList =
    [\<lparr>IP = To4 (ParseIP ''10.0.0.0''), Mask = CIDRMask 8 32\<rparr>,
     \<lparr>IP = To4 (ParseIP ''172.16.0.0''), Mask = CIDRMask 12 32\<rparr>,
     \<lparr>IP = To4 (ParseIP ''192.168.0.0''), Mask = CIDRMask 16 32\<rparr>]"

definition v6PrivateList :: "ipnet list" where
  "v6PrivateList = [\<lparr>IP = ParseIP ''fc00::'', Mask = CIDRMask 7 128\<rparr>]"

definition v4LinkLocal :: ipnet where
  "v4LinkLocal = \<lparr>IP = ParseIP ''169.254.0.0'', Mask = CIDRMask 16 32\<rparr>"

definition v6LinkLocal :: ipnet where
  "v6LinkLocal = \<lparr>IP = ParseIP ''fe80::'', Mask = CIDRMask 10 128\<rparr>"

section \<open>The client object\<close>

record 's NatClient =
  nat_Init :: "('s, unit) go"
  nat_AddEgress :: "link \<Rightarrow> ipnet list \<Rightarrow> ('s, unit) go"

record natClient =
  nc_ipv4 :: bool
  nc_ipv6 :: bool
  v4priv :: "ipnet list"
  v6priv :: "ipnet list"

text \<open>The loop that sorts \<^verbatim>\<open>podNodeNet\<close> by the number of bits of the mask.\<close>

fun split_nets :: "ipnet list \<Rightarrow> ipnet list \<Rightarrow> ipnet list \<Rightarrow> ipnet list \<times> ipnet list" where
  "split_nets [] v4 v6 = (v4, v6)"
| "split_nets (n # ns) v4 v6 =
    (let (_, bits) = Mask_Size (Mask n) in
     if bits = 32 then split_nets ns (v4 @ [n]) v6 else split_nets ns v4 (v6 @ [n]))"

definition NewNatClient :: "ip \<Rightarrow> ip \<Rightarrow> ipnet list \<Rightarrow> err + natClient" where
  "NewNatClient ipv4 ipv6 podNodeNet =
    (if ipv4 \<noteq> nil_IP \<and> To4 ipv4 = nil_IP then Inl (Panic ''invalid IPv4 address'')
     else if ipv6 \<noteq> nil_IP \<and> To4 ipv6 \<noteq> nil_IP then Inl (Panic ''invalid IPv6 address'')
     else let (p4, p6) = (if 0 < length podNodeNet then split_nets podNodeNet [] []
                          else (v4PrivateList, v6PrivateList))
          in Inr \<lparr>nc_ipv4 = (ipv4 \<noteq> nil_IP), nc_ipv6 = (ipv6 \<noteq> nil_IP), v4priv = p4, v6priv = p6\<rparr>)"

definition newRuleForClient :: "family \<Rightarrow> int \<Rightarrow> int \<Rightarrow> rule" where
  "newRuleForClient f table prio =
    \<lparr>r_Family = f, r_Table = table, r_Priority = prio, r_IifName = '''', r_Dst = None\<rparr>"

section \<open>Clearing\<close>

definition defaultGW :: "family \<Rightarrow> ipnet" where
  "defaultGW f =
    (if f = FAMILY_V4 then \<lparr>IP = ParseIP ''0.0.0.0'', Mask = CIDRMask 0 32\<rparr>
     else \<lparr>IP = ParseIP ''::'', Mask = CIDRMask 0 128\<rparr>)"

definition clear_rule :: "'s netlink \<Rightarrow> family \<Rightarrow> rule \<Rightarrow> ('s, unit) go" where
  "clear_rule nl f r =
    (if r_Priority r < 1800 \<or> r_Priority r > 2100 then ret ()
     else errorf ''netlink: failed to delete a rule''
       (RuleDel nl (if r_Dst r = None then r\<lparr>r_Dst := Some (defaultGW f)\<rparr> else r)))"

definition clear_route :: "'s netlink \<Rightarrow> family \<Rightarrow> int \<Rightarrow> route \<Rightarrow> ('s, unit) go" where
  "clear_route nl f table r =
    errorf (''netlink: failed to delete a route in table '' @ dec_string (nat table))
      (RouteDel nl (if rt_Dst r = None then r\<lparr>rt_Dst := Some (defaultGW f)\<rparr> else r))"

definition clear_table :: "'s netlink \<Rightarrow> family \<Rightarrow> int \<Rightarrow> ('s, unit) go" where
  "clear_table nl f table =
    bindE (errorf ''netlink: route list failed'' (RouteListFiltered nl f table))
      (for_each (clear_route nl f table))"

definition clear :: "'s netlink \<Rightarrow> family \<Rightarrow> ('s, unit) go" where
  "clear nl f =
    bindE (errorf ''netlink: rule list failed'' (RuleList nl f)) (\<lambda>rules.
    bindE (for_each (clear_rule nl f) rules) (\<lambda>_.
    bindE (clear_table nl f ncNarrowTableID) (\<lambda>_.
    clear_table nl f ncWideTableID)))"

section \<open>Init\<close>

definition privRule :: "family \<Rightarrow> nat \<times> ipnet \<Rightarrow> rule" where
  "privRule f = (\<lambda>(i, n). (newRuleForClient f mainTableID (ncLocalPrioBase + int i))\<lparr>r_Dst := Some n\<rparr>)"

text \<open>One half of \<^verbatim>\<open>Init\<close>; the two differ in the family, the link-local net and the local nets.\<close>

definition natClient_Init_family ::
  "'s netlink \<Rightarrow> family \<Rightarrow> ipnet \<Rightarrow> ipnet list \<Rightarrow> ('s, unit) go" where
  "natClient_Init_family nl f linkLocal priv =
    bindE (clear nl f) (\<lambda>_.
    bindE (errorf ''netlink: failed to add link local rule'' (RuleAdd nl
      ((newRuleForClient f mainTableID ncLinkLocalPrio)\<lparr>r_Dst := Some linkLocal\<rparr>))) (\<lambda>_.
    bindE (errorf ''netlink: failed to add narrow rule'' (RuleAdd nl
      (newRuleForClient f ncNarrowTableID ncNarrowPrio))) (\<lambda>_.
    bindE (for_each (\<lambda>(i, n). errorf (''netlink: failed to add '' @ IPNet_String n @ '' to rule'')
        (RuleAdd nl (privRule f (i, n)))) (enumerate 0 priv)) (\<lambda>_.
    errorf ''netlink: failed to add wide rule'' (RuleAdd nl
      (newRuleForClient f ncWideTableID ncWidePrio))))))"

definition natClient_Init :: "'s netlink \<Rightarrow> natClient \<Rightarrow> ('s, unit) go" where
  "natClient_Init nl c =
    bindE (if nc_ipv4 c then natClient_Init_family nl FAMILY_V4 v4LinkLocal (v4priv c) else ret ())
      (\<lambda>_. if nc_ipv6 c then natClient_Init_family nl FAMILY_V6 v6LinkLocal (v6priv c) else ret ())"

section \<open>AddEgress\<close>

definition egressRoute :: "int \<Rightarrow> link \<Rightarrow> ipnet \<Rightarrow> route" where
  "egressRoute table l n =
    \<lparr>rt_Table = table, rt_Dst = Some n, rt_LinkIndex = link_index l, rt_Protocol = ncProtocolID\<rparr>"

text \<open>The loop over the local networks, and what follows it.\<close>

fun addEgress_loop :: "'s netlink \<Rightarrow> link \<Rightarrow> ipnet \<Rightarrow> ipnet list \<Rightarrow> ('s, unit) go" where
  "addEgress_loop nl l n [] =
    errorf (''netlink: failed to add route to '' @ IPNet_String n)
      (RouteAdd nl (egressRoute ncWideTableID l n))"
| "addEgress_loop nl l n (p # ps) =
    (if \<not> Contains p (IP n) then addEgress_loop nl l n ps
     else errorf (''netlink: failed to add route to '' @ IPNet_String n)
       (RouteAdd nl (egressRoute ncNarrowTableID l n)))"

definition addEgress1 :: "'s netlink \<Rightarrow> natClient \<Rightarrow> link \<Rightarrow> ipnet \<Rightarrow> ('s, unit) go" where
  "addEgress1 nl c l n =
    (if To4 (IP n) \<noteq> nil_IP then
       (if \<not> nc_ipv4 c then ret () else addEgress_loop nl l n (v4priv c))
     else
       (if \<not> nc_ipv6 c then ret () else addEgress_loop nl l n (v6priv c)))"

definition AddEgress :: "'s netlink \<Rightarrow> natClient \<Rightarrow> link \<Rightarrow> ipnet list \<Rightarrow> ('s, unit) go" where
  "AddEgress nl c l subnets = for_each (addEgress1 nl c l) subnets"

definition as_NatClient :: "'s netlink \<Rightarrow> natClient \<Rightarrow> 's NatClient" where
  "as_NatClient nl c = \<lparr>nat_Init = natClient_Init nl c, nat_AddEgress = AddEgress nl c\<rparr>"

section \<open>What clearing does\<close>

definition client_rule :: "family \<Rightarrow> rule \<Rightarrow> bool" where
  "client_rule f r \<longleftrightarrow> r_Family r = f \<and> 1800 \<le> r_Priority r \<and> r_Priority r \<le> 2100"

definition table_route :: "family \<Rightarrow> int \<Rightarrow> family \<times> route \<Rightarrow> bool" where
  "table_route f t = (\<lambda>(g, x). g = f \<and> rt_Table x = t)"

definition nat_route :: "family \<Rightarrow> family \<times> route \<Rightarrow> bool" where
  "nat_route f x \<longleftrightarrow> table_route f ncNarrowTableID x \<or> table_route f ncWideTableID x"

text \<open>Removing elements of a class one by one: how many are left, and that no other goes.\<close>

lemma drain_step:
  assumes "y \<in># M" "D y"
  shows "filter_mset (\<lambda>x. \<not> D x) (M - {#y#}) = filter_mset (\<lambda>x. \<not> D x) M"
    and "Suc (size (filter_mset D M - {#y#})) = size (filter_mset D M)"
proof -
  show "filter_mset (\<lambda>x. \<not> D x) (M - {#y#}) = filter_mset (\<lambda>x. \<not> D x) M"
    using assms by (simp add: filter_diff_mset)
  have "y \<in># filter_mset D M" using assms by simp
  then show "Suc (size (filter_mset D M - {#y#})) = size (filter_mset D M)"
    by (rule size_Suc_Diff1)
qed

lemma drained: "size (filter_mset D M) = 0 \<Longrightarrow> M = filter_mset (\<lambda>x. \<not> D x) M"
  by (metis add.left_neutral multiset_partition size_eq_0_iff_empty)

lemma route_family_defaultGW:
  "dst_family f r \<Longrightarrow> route_family (if rt_Dst r = None then r\<lparr>rt_Dst := Some (defaultGW f)\<rparr> else r) = f"
  by (cases f) (auto simp: dst_family_def route_family_def ip_family_def defaultGW_def parse_eval
      To4_def v4InV6Prefix_def)

text \<open>
  Only rules of the class \<open>D\<close> and routes of the class \<open>E\<close> can differ; links, listeners, sysctls
  and chains are the same.
\<close>

definition nat_frame :: "(rule \<Rightarrow> bool) \<Rightarrow> (family \<times> route \<Rightarrow> bool) \<Rightarrow> kview \<Rightarrow> kview \<Rightarrow> bool" where
  "nat_frame D E v v' \<longleftrightarrow> v_links v' = v_links v \<and> v_fou v' = v_fou v \<and>
    v_sysctl v' = v_sysctl v \<and> v_ipt v' = v_ipt v \<and>
    filter_mset (\<lambda>x. \<not> D x) (v_rules v') = filter_mset (\<lambda>x. \<not> D x) (v_rules v) \<and>
    filter_mset (\<lambda>x. \<not> E x) (v_routes v') = filter_mset (\<lambda>x. \<not> E x) (v_routes v)"

abbreviation none :: "'a \<Rightarrow> bool" where
  "none \<equiv> \<lambda>_. False"

lemma nat_frame_refl [simp]: "nat_frame D E v v"
  by (simp add: nat_frame_def)

lemma nat_frame_trans: "nat_frame D E u v \<Longrightarrow> nat_frame D E v w \<Longrightarrow> nat_frame D E u w"
  by (simp add: nat_frame_def)

lemma filter_mset_mono_eq:
  assumes "filter_mset (\<lambda>x. \<not> D x) M = filter_mset (\<lambda>x. \<not> D x) N" "\<And>x. D x \<Longrightarrow> D' x"
  shows "filter_mset (\<lambda>x. \<not> D' x) M = filter_mset (\<lambda>x. \<not> D' x) N"
proof -
  have "filter_mset (\<lambda>x. \<not> D' x) K = filter_mset (\<lambda>x. \<not> D' x) (filter_mset (\<lambda>x. \<not> D x) K)" for K
    unfolding filter_filter_mset by (rule filter_mset_cong) (use assms(2) in auto)
  then show ?thesis using assms(1) by metis
qed

lemma nat_frame_mono:
  "nat_frame D E u v \<Longrightarrow> (\<And>x. D x \<Longrightarrow> D' x) \<Longrightarrow> (\<And>x. E x \<Longrightarrow> E' x) \<Longrightarrow> nat_frame D' E' u v"
  unfolding nat_frame_def using filter_mset_mono_eq by metis

context netlink_laws
begin

lemma wp_clear_rule:
  assumes "r_Family x = f"
  shows "wp (clear_rule nl f x) (\<lambda>r s'. nat_frame (client_rule f) none (view s) (view s') \<and>
    (\<forall>u. r = Inr u \<longrightarrow>
      size (filter_mset (client_rule f) (v_rules (view s'))) + (if client_rule f x then 1 else 0) =
      size (filter_mset (client_rule f) (v_rules (view s))))) s"
  unfolding clear_rule_def using assms
  by (auto intro!: law_RuleDel [THEN wp_conseq]
      simp: wp_simps RuleDel_post_def client_rule_def nat_frame_def drain_step split: sum.splits)

lemma wp_clear_rules:
  assumes "mset rs = filter_mset (\<lambda>x. r_Family x = f) (v_rules (view s))"
  shows "wp (for_each (clear_rule nl f) rs) (\<lambda>r s'.
    nat_frame (client_rule f) none (view s) (view s') \<and>
    (\<forall>u. r = Inr u \<longrightarrow>
      v_rules (view s') = filter_mset (\<lambda>x. \<not> client_rule f x) (v_rules (view s)))) s"
proof -
  let ?n = "\<lambda>s. size (filter_mset (client_rule f) (v_rules (view s)))"
  let ?I = "\<lambda>ys t. nat_frame (client_rule f) none (view s) (view t) \<and>
    ?n t + length (filter (client_rule f) ys) = ?n s"
  have fam: "r_Family x = f" if "x \<in> set rs" for x
    using that arg_cong [OF assms, of set_mset] by auto
  have "?n s = size (filter_mset (client_rule f) (mset rs))"
    unfolding assms filter_filter_mset
    by (rule arg_cong [where f = size], rule filter_mset_cong) (auto simp: client_rule_def)
  then have len: "length (filter (client_rule f) rs) = ?n s"
    by (metis mset_filter size_mset)
  have "wp (for_each (clear_rule nl f) rs) (\<lambda>r t. case r of
      Inl e \<Rightarrow> nat_frame (client_rule f) none (view s) (view t) | Inr _ \<Rightarrow> ?I rs t) s"
  proof (rule wp_for_each, goal_cases)
    case (2 ys x zs t)
    then show ?case
      using fam [of x]
      by (intro wp_clear_rule [THEN wp_conseq])
        (auto split: sum.splits intro: nat_frame_trans)
  qed simp
  then show ?thesis
    by (rule wp_conseq) (use len drained [of "client_rule f"] in
      \<open>auto simp: nat_frame_def split: sum.splits\<close>)
qed

lemma wp_clear_route:
  assumes "dst_family f x" "rt_Table x = t"
  shows "wp (clear_route nl f t x) (\<lambda>r s'. nat_frame none (table_route f t) (view s) (view s') \<and>
    (\<forall>u. r = Inr u \<longrightarrow>
      Suc (size (filter_mset (table_route f t) (v_routes (view s')))) =
      size (filter_mset (table_route f t) (v_routes (view s))))) s"
proof -
  let ?y = "if rt_Dst x = None then x\<lparr>rt_Dst := Some (defaultGW f)\<rparr> else x"
  have y: "route_family ?y = f" "rt_Table ?y = t"
    using assms(2) route_family_defaultGW [OF assms(1)] by simp_all
  show ?thesis
    unfolding clear_route_def wp_errorf
    by (rule law_RouteDel [where y = ?y, unfolded RouteDel_post_def y, THEN wp_conseq])
      (auto simp: nat_frame_def table_route_def drain_step split: sum.splits)
qed

lemma wp_clear_table:
  "wp (clear_table nl f t) (\<lambda>r s'.
    nat_frame none (table_route f t) (view s) (view s') \<and>
    (\<forall>u. r = Inr u \<longrightarrow>
      v_routes (view s') = filter_mset (\<lambda>x. \<not> table_route f t x) (v_routes (view s)))) s"
proof -
  let ?n = "\<lambda>s. size (filter_mset (table_route f t) (v_routes (view s)))"
  have loop: "wp (for_each (clear_route nl f t) rs) (\<lambda>r s'.
      nat_frame none (table_route f t) (view s) (view s') \<and>
      (\<forall>u. r = Inr u \<longrightarrow> v_routes (view s') = filter_mset (\<lambda>x. \<not> table_route f t x) (v_routes (view s)))) s"
    if rs: "mset (map (Pair f) rs) = filter_mset (table_route f t) (v_routes (view s))"
      "\<forall>x \<in> set rs. dst_family f x" for rs s
  proof -
    have tab: "rt_Table x = t" if "x \<in> set rs" for x
      using that arg_cong [OF rs(1), of set_mset] by (auto simp: table_route_def)
    have len: "length rs = ?n s"
      using arg_cong [OF rs(1), of size] by simp
    have "wp (for_each (clear_route nl f t) rs) (\<lambda>r s'. case r of
        Inl e \<Rightarrow> nat_frame none (table_route f t) (view s) (view s')
      | Inr _ \<Rightarrow> nat_frame none (table_route f t) (view s) (view s') \<and> ?n s' + length rs = ?n s) s"
    proof (rule wp_for_each, goal_cases)
      case (2 ys x zs s1)
      then show ?case
        using rs(2) tab [of x]
        by (intro wp_clear_route [THEN wp_conseq]) (auto split: sum.splits intro: nat_frame_trans)
    qed simp
    then show ?thesis
      by (rule wp_conseq) (use len drained [of "table_route f t"] in
        \<open>auto simp: nat_frame_def split: sum.splits\<close>)
  qed
  show ?thesis
    unfolding clear_table_def
    by (auto intro!: law_RouteListFiltered [THEN wp_conseq] loop [THEN wp_conseq]
        simp: wp_simps RouteListFiltered_post_def table_route_def split: sum.splits)
qed

lemma wp_clear:
  "wp (clear nl f) (\<lambda>r s'. nat_frame (client_rule f) (nat_route f) (view s) (view s') \<and>
    (\<forall>u. r = Inr u \<longrightarrow>
      v_rules (view s') = filter_mset (\<lambda>x. \<not> client_rule f x) (v_rules (view s)) \<and>
      v_routes (view s') = filter_mset (\<lambda>x. \<not> nat_route f x) (v_routes (view s)))) s"
proof -
  have weaken: "nat_frame (client_rule f) none u v \<Longrightarrow> nat_frame (client_rule f) (nat_route f) u v"
    "nat_frame none (table_route f ncNarrowTableID) u v \<Longrightarrow> nat_frame (client_rule f) (nat_route f) u v"
    "nat_frame none (table_route f ncWideTableID) u v \<Longrightarrow> nat_frame (client_rule f) (nat_route f) u v"
    for u v by (auto simp: nat_route_def elim!: nat_frame_mono)
  have chain: "nat_frame (client_rule f) none u v \<Longrightarrow>
      nat_frame none (table_route f ncNarrowTableID) v w \<Longrightarrow>
      nat_frame none (table_route f ncWideTableID) w x \<Longrightarrow>
      nat_frame (client_rule f) (nat_route f) u x" for u v w x
    by (rule nat_frame_trans [OF weaken(1) nat_frame_trans [OF weaken(2) weaken(3)]])
  have rest: "v_routes v = v_routes u" if "nat_frame (client_rule f) none u v" for u v
    using that by (simp add: nat_frame_def)
  have rest': "v_rules v = v_rules u" if "nat_frame none E u v" for E u v
    using that by (simp add: nat_frame_def)
  have both: "filter_mset (\<lambda>x. \<not> table_route f ncWideTableID x)
      (filter_mset (\<lambda>x. \<not> table_route f ncNarrowTableID x) M) = filter_mset (\<lambda>x. \<not> nat_route f x) M" for M
    unfolding filter_filter_mset by (rule filter_mset_cong) (auto simp: nat_route_def)
  note table = wp_clear_table [THEN wp_conseq]
  show ?thesis
    unfolding clear_def
  proof (rule wp_seq [where R = "\<lambda>rs s1. view s1 = view s \<and>
        mset rs = filter_mset (\<lambda>x. r_Family x = f) (v_rules (view s))"], goal_cases)
    case 1
    show ?case
      by (auto intro!: law_RuleList [THEN wp_conseq] simp: wp_simps RuleList_post_def split: sum.splits)
  next
    case (2 rs s1)
    then have rs: "mset rs = filter_mset (\<lambda>x. r_Family x = f) (v_rules (view s1))" by simp
    show ?case
      unfolding wp_bindE
      by (rule wp_clear_rules [OF rs, THEN wp_conseq])
        (use 2 in \<open>auto intro!: table simp: rest rest' both split: sum.splits
          intro: weaken nat_frame_trans chain\<close>)
  qed
qed

end

section \<open>What Init does\<close>

text \<open>The rules of one family in the order they are added.\<close>

definition init_rules :: "family \<Rightarrow> ipnet \<Rightarrow> ipnet list \<Rightarrow> rule list" where
  "init_rules f ll priv =
    [(newRuleForClient f mainTableID ncLinkLocalPrio)\<lparr>r_Dst := Some ll\<rparr>] @
    [newRuleForClient f ncNarrowTableID ncNarrowPrio] @
    map (privRule f) (enumerate 0 priv) @
    [newRuleForClient f ncWideTableID ncWidePrio]"

definition added :: "rule list \<Rightarrow> kview \<Rightarrow> kview" where
  "added xs v = v\<lparr>v_rules := v_rules v + mset (map kernel_rule xs)\<rparr>"

lemma added_append: "added ys (added xs v) = added (xs @ ys) v"
  by (simp add: added_def)

lemma added_Nil [simp]: "added [] v = v"
  by (simp add: added_def)

text \<open>A program that adds the rules \<open>xs\<close>, or some of them if it returns an error.\<close>

definition adds :: "rule list \<Rightarrow> kview \<Rightarrow> err + 'a \<Rightarrow> kview \<Rightarrow> bool" where
  "adds xs v r v' \<longleftrightarrow>
    (\<exists>ys. set ys \<subseteq> set xs \<and> v' = added ys v \<and> (\<forall>u. r = Inr u \<longrightarrow> ys = xs))"

lemma adds_Nil [simp]: "adds [] v (Inr u) v"
  by (simp add: adds_def)

lemma adds_append:
  assumes "adds xs u (Inr a) v" "adds ys v r w"
  shows "adds (xs @ ys) u r w"
proof -
  from assms obtain zs where "set zs \<subseteq> set ys" "w = added zs (added xs u)" "\<forall>u. r = Inr u \<longrightarrow> zs = ys"
    by (auto simp: adds_def)
  then show ?thesis
    unfolding adds_def added_append by (intro exI [of _ "xs @ zs"]) auto
qed

lemma adds_nothing: "adds xs v (Inl e) v"
  unfolding adds_def by (rule exI [of _ "[]"]) simp

lemma adds_error: "adds xs u (Inl e) v \<Longrightarrow> adds (xs @ ys) u (Inl e') v"
  by (auto simp: adds_def)

lemma priv_loop_eq:
  "(\<lambda>(i, n). errorf (''netlink: failed to add '' @ IPNet_String n @ '' to rule'')
      (RuleAdd nl (privRule f (i, n)))) =
    (\<lambda>x. errorf (''netlink: failed to add '' @ IPNet_String (snd x) @ '' to rule'')
      (RuleAdd nl (privRule f x)))"
  by (simp add: fun_eq_iff)

context netlink_laws
begin

lemma adds_bindE:
  assumes "wp m (\<lambda>r s'. adds xs (view s) r (view s')) s"
    and "\<And>x s1. wp (g x) (\<lambda>r s'. adds ys (view s1) r (view s')) s1"
  shows "wp (bindE m g) (\<lambda>r s'. adds (xs @ ys) (view s) r (view s')) s"
  unfolding wp_bindE
  by (rule wp_conseq [OF assms(1)])
    (auto split: sum.splits intro: adds_error adds_append intro!: wp_conseq [OF assms(2)])

lemma adds_RuleAdd:
  "wp (errorf m (RuleAdd nl x)) (\<lambda>r s'. adds [x] (view s) r (view s')) s"
  unfolding wp_errorf
proof (rule law_RuleAdd [THEN wp_conseq], goal_cases)
  case (1 r s')
  then show ?case
    by (cases r) (auto simp: RuleAdd_post_def adds_nothing, auto simp: adds_def added_def)
qed

lemma adds_for_each:
  "wp (for_each (\<lambda>x. errorf (m x) (RuleAdd nl (g x))) xs)
    (\<lambda>r s'. adds (map g xs) (view s) r (view s')) s"
proof (induction xs arbitrary: s)
  case Nil
  show ?case by (simp add: wp_return)
next
  case (Cons x xs)
  show ?case
    using adds_bindE [OF adds_RuleAdd Cons.IH, of "m x" "g x"] by simp
qed

lemma wp_Init_family:
  "wp (natClient_Init_family nl f ll priv) (\<lambda>r s'.
    \<exists>v. nat_frame (client_rule f) (nat_route f) (view s) v \<and>
      adds (init_rules f ll priv) v r (view s') \<and>
      (\<forall>u. r = Inr u \<longrightarrow>
        v_rules v = filter_mset (\<lambda>x. \<not> client_rule f x) (v_rules (view s)) \<and>
        v_routes v = filter_mset (\<lambda>x. \<not> nat_route f x) (v_routes (view s)))) s"
proof -
  show ?thesis
    unfolding natClient_Init_family_def init_rules_def priv_loop_eq
  proof (rule wp_seq [where R = "\<lambda>_ s1. nat_frame (client_rule f) (nat_route f) (view s) (view s1) \<and>
        v_rules (view s1) = filter_mset (\<lambda>x. \<not> client_rule f x) (v_rules (view s)) \<and>
        v_routes (view s1) = filter_mset (\<lambda>x. \<not> nat_route f x) (v_routes (view s))"], goal_cases)
    case 1
    show ?case
      by (rule wp_clear [THEN wp_conseq]) (auto intro: adds_nothing split: sum.splits)
  next
    case (2 u s1)
    show ?case
      by (rule wp_conseq [OF adds_bindE [OF adds_RuleAdd adds_bindE [OF adds_RuleAdd
              adds_bindE [OF adds_for_each adds_RuleAdd]]]])
        (use 2 in \<open>auto intro!: exI [of _ "view s1"]\<close>)
  qed
qed

end

text \<open>The abstract operation: what \<^verbatim>\<open>Init\<close> makes of the kernel's view, one family at a time.\<close>

definition nat_serves :: "natClient \<Rightarrow> family \<Rightarrow> bool" where
  "nat_serves c f = (case f of FAMILY_V4 \<Rightarrow> nc_ipv4 c | FAMILY_V6 \<Rightarrow> nc_ipv6 c)"

definition local_nets :: "natClient \<Rightarrow> family \<Rightarrow> ipnet list" where
  "local_nets c f = (case f of FAMILY_V4 \<Rightarrow> v4priv c | FAMILY_V6 \<Rightarrow> v6priv c)"

definition linkLocal :: "family \<Rightarrow> ipnet" where
  "linkLocal f = (case f of FAMILY_V4 \<Rightarrow> v4LinkLocal | FAMILY_V6 \<Rightarrow> v6LinkLocal)"

definition client_rules :: "natClient \<Rightarrow> family \<Rightarrow> rule multiset" where
  "client_rules c f = mset (map kernel_rule (init_rules f (linkLocal f) (local_nets c f)))"

definition init_step :: "natClient \<Rightarrow> family \<Rightarrow> kview \<Rightarrow> kview" where
  "init_step c f v = (if nat_serves c f
     then v\<lparr>v_rules := filter_mset (\<lambda>x. \<not> client_rule f x) (v_rules v) + client_rules c f,
            v_routes := filter_mset (\<lambda>x. \<not> nat_route f x) (v_routes v)\<rparr>
     else v)"

definition init_view :: "natClient \<Rightarrow> kview \<Rightarrow> kview" where
  "init_view c v = init_step c FAMILY_V6 (init_step c FAMILY_V4 v)"

text \<open>What no outcome of \<^verbatim>\<open>Init\<close> changes: rules of a lower priority number, routes of other tables.\<close>

definition init_frame :: "kview \<Rightarrow> kview \<Rightarrow> bool" where
  "init_frame = nat_frame (\<lambda>r. 1800 \<le> r_Priority r)
     (\<lambda>(g, x). rt_Table x = ncNarrowTableID \<or> rt_Table x = ncWideTableID)"

lemma natClient_Init_eq:
  "natClient_Init nl c =
    bindE (if nat_serves c FAMILY_V4
           then natClient_Init_family nl FAMILY_V4 (linkLocal FAMILY_V4) (local_nets c FAMILY_V4)
           else ret ())
      (\<lambda>_. if nat_serves c FAMILY_V6
            then natClient_Init_family nl FAMILY_V6 (linkLocal FAMILY_V6) (local_nets c FAMILY_V6)
            else ret ())"
  by (simp add: natClient_Init_def nat_serves_def linkLocal_def local_nets_def)

lemma init_rules_prio:
  "x \<in> set (init_rules f ll priv) \<Longrightarrow> r_Family x = f \<and> 1800 \<le> r_Priority x \<and>
    (length priv \<le> 101 \<longrightarrow> r_Priority x \<le> 2100)"
  by (auto simp: init_rules_def newRuleForClient_def privRule_def nc_consts in_set_enumerate_eq)

lemma adds_frame:
  "adds (init_rules f ll priv) v r v' \<Longrightarrow> init_frame v v'"
proof -
  assume "adds (init_rules f ll priv) v r v'"
  then obtain ys where ys: "set ys \<subseteq> set (init_rules f ll priv)" "v' = added ys v"
    by (auto simp: adds_def)
  then have "filter (\<lambda>x. \<not> 1800 \<le> r_Priority x) (map kernel_rule ys) = []"
    using init_rules_prio by (fastforce simp: filter_empty_conv)
  then have "filter_mset (\<lambda>x. \<not> 1800 \<le> r_Priority x) (mset (map kernel_rule ys)) = {#}"
    by (metis mset_filter mset.simps(1))
  with ys(2) show ?thesis
    by (simp add: init_frame_def nat_frame_def added_def)
qed

lemma clear_frame: "nat_frame (client_rule f) (nat_route f) u v \<Longrightarrow> init_frame u v"
  unfolding init_frame_def
  by (erule nat_frame_mono) (auto simp: client_rule_def nat_route_def table_route_def)

lemma init_frame_trans: "init_frame u v \<Longrightarrow> init_frame v w \<Longrightarrow> init_frame u w"
  unfolding init_frame_def by (rule nat_frame_trans)

lemma adds_init_step:
  assumes "nat_frame (client_rule f) (nat_route f) u v" "adds (init_rules f (linkLocal f) (local_nets c f)) v (Inr a) w"
    "v_rules v = filter_mset (\<lambda>x. \<not> client_rule f x) (v_rules u)"
    "v_routes v = filter_mset (\<lambda>x. \<not> nat_route f x) (v_routes u)" "nat_serves c f"
  shows "w = init_step c f u"
  using assms by (simp add: adds_def added_def init_step_def client_rules_def nat_frame_def)

context netlink_laws
begin

lemma wp_Init_half:
  "wp (if nat_serves c f then natClient_Init_family nl f (linkLocal f) (local_nets c f) else ret ())
    (\<lambda>r s'. init_frame (view s) (view s') \<and> (\<forall>u. r = Inr u \<longrightarrow> view s' = init_step c f (view s))) s"
proof (cases "nat_serves c f")
  case True
  then show ?thesis
    by (simp, intro wp_Init_family [THEN wp_conseq])
      (auto intro: adds_init_step init_frame_trans [OF clear_frame adds_frame])
next
  case False
  then show ?thesis by (simp add: wp_return init_step_def init_frame_def)
qed

lemma wp_natClient_Init:
  "wp (natClient_Init nl c) (\<lambda>r s'. init_frame (view s) (view s') \<and>
    (\<forall>u. r = Inr u \<longrightarrow> view s' = init_view c (view s))) s"
  unfolding natClient_Init_eq init_view_def
proof (rule wp_seq [where R = "\<lambda>_ s1. init_frame (view s) (view s1) \<and>
    view s1 = init_step c FAMILY_V4 (view s)"], goal_cases)
  case 1
  show ?case by (rule wp_Init_half [THEN wp_conseq]) (auto split: sum.splits)
next
  case (2 u s1)
  then show ?case
    by (intro wp_Init_half [THEN wp_conseq]) (auto intro: init_frame_trans)
qed

end

section \<open>What AddEgress does\<close>

definition egress_table :: "natClient \<Rightarrow> ipnet \<Rightarrow> int" where
  "egress_table c n =
    (if \<exists>p \<in> set (local_nets c (ip_family (IP n))). Contains p (IP n)
     then ncNarrowTableID else ncWideTableID)"

definition egress_routes :: "natClient \<Rightarrow> link \<Rightarrow> ipnet list \<Rightarrow> (family \<times> route) multiset" where
  "egress_routes c l nets =
    mset (map (\<lambda>n. (ip_family (IP n), kernel_route (egressRoute (egress_table c n) l n)))
      (filter (\<lambda>n. nat_serves c (ip_family (IP n))) nets))"

definition egress_view :: "natClient \<Rightarrow> link \<Rightarrow> ipnet list \<Rightarrow> kview \<Rightarrow> kview" where
  "egress_view c l nets v = v\<lparr>v_routes := v_routes v + egress_routes c l nets\<rparr>"

lemma addEgress_loop_eq:
  "addEgress_loop nl l n ps = errorf (''netlink: failed to add route to '' @ IPNet_String n)
    (RouteAdd nl (egressRoute
      (if \<exists>p \<in> set ps. Contains p (IP n) then ncNarrowTableID else ncWideTableID) l n))"
  by (induction ps) auto

lemma addEgress1_eq:
  "addEgress1 nl c l n =
    (if nat_serves c (ip_family (IP n))
     then errorf (''netlink: failed to add route to '' @ IPNet_String n)
       (RouteAdd nl (egressRoute (egress_table c n) l n))
     else ret ())"
  by (simp add: addEgress1_def addEgress_loop_eq nat_serves_def local_nets_def ip_family_def
      egress_table_def)

context netlink_laws
begin

lemma wp_addEgress1:
  "wp (addEgress1 nl c l n) (\<lambda>r s'. view s' = (case r of Inl _ \<Rightarrow> view s
      | Inr _ \<Rightarrow> egress_view c l [n] (view s))) s"
  unfolding addEgress1_eq
  by (auto intro!: law_RouteAdd [THEN wp_conseq] simp: wp_simps RouteAdd_post_def egress_view_def
      egress_routes_def egressRoute_def route_family_def split: sum.splits)

lemma wp_AddEgress:
  "wp (AddEgress nl c l nets) (\<lambda>r s'. case r of
      Inl _ \<Rightarrow> (\<exists>k < length nets. view s' = egress_view c l (take k nets) (view s))
    | Inr _ \<Rightarrow> view s' = egress_view c l nets (view s)) s"
  unfolding AddEgress_def
proof (rule wp_for_each, goal_cases)
  case 1
  show ?case by (simp add: egress_view_def egress_routes_def)
next
  case (2 ys x zs t)
  show ?case
  proof (rule wp_addEgress1 [THEN wp_conseq], goal_cases)
    case (1 r s')
    with 2 show ?case
      by (cases r) (auto simp: egress_view_def egress_routes_def ac_simps intro!: exI [of _ "length ys"])
  qed
qed

end

section \<open>Policy routing\<close>

text \<open>
  Which of the tables the rules of a client pod select for a destination, by the kernel's rule
  lookup: the rule of the lowest priority number that matches and whose table has a route.
  The main table is taken to have one (the pod's default route).
\<close>

definition dst_matches :: "ipnet option \<Rightarrow> ip \<Rightarrow> bool" where
  "dst_matches d a = (case d of None \<Rightarrow> True | Some n \<Rightarrow> Contains n a)"

definition table_has :: "kview \<Rightarrow> family \<Rightarrow> int \<Rightarrow> ip \<Rightarrow> bool" where
  "table_has v f t a \<longleftrightarrow>
    t = mainTableID \<or> (\<exists>x. (f, x) \<in># v_routes v \<and> rt_Table x = t \<and> dst_matches (rt_Dst x) a)"

definition rule_hits :: "kview \<Rightarrow> family \<Rightarrow> ip \<Rightarrow> rule \<Rightarrow> bool" where
  "rule_hits v f a r \<longleftrightarrow> r \<in># v_rules v \<and> client_rule f r \<and> dst_matches (r_Dst r) a \<and>
    table_has v f (r_Table r) a"

definition selects :: "kview \<Rightarrow> family \<Rightarrow> ip \<Rightarrow> int \<Rightarrow> bool" where
  "selects v f a t \<longleftrightarrow> (\<exists>r. rule_hits v f a r \<and> r_Table r = t \<and>
    (\<forall>r'. rule_hits v f a r' \<longrightarrow> r_Priority r \<le> r_Priority r'))"

text \<open>
  The intended policy: link-local destinations stay in the pod's main table; a network given to
  \<^verbatim>\<open>AddEgress\<close> inside a local network goes to the tunnel; other local destinations stay;
  of the rest, the other networks given go to the tunnel.
\<close>

definition egress_policy :: "natClient \<Rightarrow> ipnet list \<Rightarrow> ip \<Rightarrow> int option" where
  "egress_policy c nets a =
    (let f = ip_family a;
         given = (\<lambda>t. \<exists>n \<in> set nets. ip_family (IP n) = f \<and> egress_table c n = t \<and> Contains n a)
     in if Contains (linkLocal f) a then Some mainTableID
        else if given ncNarrowTableID then Some ncNarrowTableID
        else if \<exists>p \<in> set (local_nets c f). Contains p a then Some mainTableID
        else if given ncWideTableID then Some ncWideTableID
        else None)"

definition net_ok :: "family \<Rightarrow> ipnet \<Rightarrow> bool" where
  "net_ok f n \<longleftrightarrow> ip_family (IP n) = f \<and> (length (IP n) = 4 \<or> length (IP n) = 16) \<and>
    length (Mask n) = (case f of FAMILY_V4 \<Rightarrow> 4 | FAMILY_V6 \<Rightarrow> 16)"

lemma kernel_dst_matches:
  assumes n: "net_ok (ip_family a) n" and a: "length a = 4 \<or> length a = 16"
  shows "dst_matches (kernel_dst (Some n)) a = Contains n a"
proof -
  have len: "length (To4 x) = 4" if "To4 x \<noteq> nil_IP" for x using that by (rule length_To4)
  have "Contains n a" if z: "set (Mask n) \<subseteq> {0}"
  proof (cases "To4 a = nil_IP")
    case True
    with a have "length a = 16" by auto
    moreover from n True have "To4 (IP n) = nil_IP" "length (IP n) = 16" "length (Mask n) = 16"
      by (auto simp: net_ok_def ip_family_def split: if_splits)
    ultimately show ?thesis
      using True z by (simp add: Contains_def networkNumberAndMask_def and_bytes_zero)
  next
    case False
    with n have "To4 (IP n) \<noteq> nil_IP" "length (Mask n) = 4"
      by (auto simp: net_ok_def ip_family_def split: if_splits)
    then show ?thesis
      using False z len by (simp add: Contains_def networkNumberAndMask_def and_bytes_zero)
  qed
  moreover have "Contains (n\<lparr>IP := To4 (IP n)\<rparr>) a = Contains n a" if "To4 (IP n) \<noteq> nil_IP"
    using that by (simp add: Contains_def networkNumberAndMask_def Let_def)
  ultimately show ?thesis
    by (auto simp: dst_matches_def kernel_dst_def)
qed

lemma net_ok_linkLocal: "net_ok f (linkLocal f)"
  by (cases f) (simp_all add: net_ok_def linkLocal_def v4LinkLocal_def v6LinkLocal_def ip_family_def
      parse_eval To4_def v4InV6Prefix_def CIDRMask_def)

text \<open>The rules that hit after \<^verbatim>\<open>Init\<close> and \<^verbatim>\<open>AddEgress\<close>.\<close>

definition served_view :: "natClient \<Rightarrow> link \<Rightarrow> ipnet list \<Rightarrow> kview \<Rightarrow> kview" where
  "served_view c l nets v = egress_view c l nets (init_view c v)"

lemma other_family: "f \<noteq> g \<Longrightarrow> r \<in># client_rules c g \<Longrightarrow> \<not> client_rule f r"
  using init_rules_prio by (fastforce simp: client_rules_def client_rule_def)

lemma client_rules_after:
  assumes "nat_serves c f" "length (local_nets c f) \<le> 100"
  shows "r \<in># v_rules (served_view c l nets v) \<and> client_rule f r \<longleftrightarrow> r \<in># client_rules c f"
proof -
  have "client_rule f r" if "r \<in># client_rules c f"
    using that assms init_rules_prio by (fastforce simp: client_rules_def client_rule_def)
  then show ?thesis
    using assms other_family [of f FAMILY_V4 r c] other_family [of f FAMILY_V6 r c]
      other_family [of FAMILY_V4 f r c] other_family [of FAMILY_V6 f r c]
    by (cases f) (auto simp: served_view_def egress_view_def init_view_def init_step_def)
qed

lemma egress_routes_mem:
  "(f, x) \<in># egress_routes c l nets \<longleftrightarrow> (\<exists>n \<in> set nets. ip_family (IP n) = f \<and> nat_serves c f \<and>
    x = kernel_route (egressRoute (egress_table c n) l n))"
  by (auto simp: egress_routes_def)

lemma routes_after:
  assumes "nat_serves c f" "t = ncNarrowTableID \<or> t = ncWideTableID"
  shows "(f, x) \<in># v_routes (served_view c l nets v) \<and> rt_Table x = t \<longleftrightarrow>
    (f, x) \<in># egress_routes c l nets \<and> rt_Table x = t"
  using assms
  by (cases f) (auto simp: served_view_def egress_view_def init_view_def init_step_def
      nat_route_def table_route_def)

lemma table_has_after:
  assumes "nat_serves c f" "t = ncNarrowTableID \<or> t = ncWideTableID"
    "ip_family a = f" "length a = 4 \<or> length a = 16" "\<forall>n \<in> set nets. net_ok (ip_family (IP n)) n"
  shows "table_has (served_view c l nets v) f t a \<longleftrightarrow>
    (\<exists>n \<in> set nets. ip_family (IP n) = f \<and> egress_table c n = t \<and> Contains n a)"
proof -
  have "t \<noteq> mainTableID" using assms(2) by (auto simp: nc_consts)
  then have "table_has (served_view c l nets v) f t a \<longleftrightarrow>
      (\<exists>x. ((f, x) \<in># egress_routes c l nets \<and> rt_Table x = t) \<and> dst_matches (rt_Dst x) a)"
    using routes_after [OF assms(1,2), of _ l nets v] unfolding table_has_def by blast
  also have "\<dots> \<longleftrightarrow> (\<exists>n \<in> set nets. ip_family (IP n) = f \<and> egress_table c n = t \<and>
      dst_matches (kernel_dst (Some n)) a)"
    using assms(1) by (auto simp: egress_routes_mem egressRoute_def)
  also have "\<dots> \<longleftrightarrow> (\<exists>n \<in> set nets. ip_family (IP n) = f \<and> egress_table c n = t \<and> Contains n a)"
    using assms(3-5) kernel_dst_matches by (intro bex_cong refl conj_cong) auto
  finally show ?thesis .
qed

text \<open>If the hits below a bound exist and agree on the table, that table is the one selected.\<close>

lemma selects_below:
  assumes "rule_hits v f a r" "r_Priority r < B"
    and same: "\<And>r'. rule_hits v f a r' \<Longrightarrow> r_Priority r' < B \<Longrightarrow> r_Table r' = t0"
  shows "selects v f a t \<longleftrightarrow> t = t0"
proof -
  let ?H = "{r. rule_hits v f a r}"
  have "finite ?H"
    by (rule finite_subset [of _ "set_mset (v_rules v)"]) (auto simp: rule_hits_def)
  then obtain m where m: "rule_hits v f a m" "\<And>r'. rule_hits v f a r' \<Longrightarrow> r_Priority m \<le> r_Priority r'"
    using assms(1) arg_min_least [of ?H _ r_Priority] arg_min_if_finite(1) [of ?H r_Priority] by blast
  then have "r_Table m = t0" using same [of m] assms by force
  with m have "selects v f a t0" unfolding selects_def by blast
  moreover have "t = t0" if "selects v f a t"
    using that assms unfolding selects_def by (metis le_less_trans)
  ultimately show ?thesis by blast
qed

lemma client_rules_cases:
  "r \<in># client_rules c f \<longleftrightarrow>
    r = kernel_rule ((newRuleForClient f mainTableID ncLinkLocalPrio)\<lparr>r_Dst := Some (linkLocal f)\<rparr>) \<or>
    r = kernel_rule (newRuleForClient f ncNarrowTableID ncNarrowPrio) \<or>
    (\<exists>i < length (local_nets c f). r = kernel_rule (privRule f (i, local_nets c f ! i))) \<or>
    r = kernel_rule (newRuleForClient f ncWideTableID ncWidePrio)"
  by (auto simp: client_rules_def init_rules_def in_set_enumerate_eq image_iff)

text \<open>The rules that hit, by kind.\<close>

lemma hits_after:
  assumes srv: "nat_serves c f" and len: "length (local_nets c f) \<le> 100"
    and a: "ip_family a = f" "length a = 4 \<or> length a = 16"
    and nets: "\<forall>n \<in> set nets. net_ok (ip_family (IP n)) n"
    and priv: "\<forall>p \<in> set (local_nets c f). net_ok f p"
  shows "rule_hits (served_view c l nets v) f a r \<longleftrightarrow> r \<in># client_rules c f \<and>
    (r_Priority r = 1800 \<and> r_Table r = mainTableID \<and> Contains (linkLocal f) a \<or>
     r_Priority r = 1900 \<and> r_Table r = ncNarrowTableID \<and>
       (\<exists>n \<in> set nets. ip_family (IP n) = f \<and> egress_table c n = ncNarrowTableID \<and> Contains n a) \<or>
     (\<exists>i < length (local_nets c f). r_Priority r = 2000 + int i \<and> r_Table r = mainTableID \<and>
       Contains (local_nets c f ! i) a) \<or>
     r_Priority r = 2100 \<and> r_Table r = ncWideTableID \<and>
       (\<exists>n \<in> set nets. ip_family (IP n) = f \<and> egress_table c n = ncWideTableID \<and> Contains n a))"
proof -
  let ?V = "served_view c l nets v"
  define given where "given t \<longleftrightarrow>
    (\<exists>n \<in> set nets. ip_family (IP n) = f \<and> egress_table c n = t \<and> Contains n a)" for t
  have th: "table_has ?V f 117 a = given 117" "table_has ?V f 118 a = given 118"
    using table_has_after [OF srv _ a nets, of _ l v] by (auto simp: nc_consts given_def)
  have ll: "dst_matches (kernel_dst (Some (linkLocal f))) a = Contains (linkLocal f) a"
    using a net_ok_linkLocal by (intro kernel_dst_matches) auto
  have pr: "dst_matches (kernel_dst (Some (local_nets c f ! i))) a = Contains (local_nets c f ! i) a"
    if "i < length (local_nets c f)" for i
    using a priv that by (intro kernel_dst_matches) auto
  have main: "table_has ?V f mainTableID a" by (simp add: table_has_def)
  have none: "dst_matches (kernel_dst None) a" by (simp add: dst_matches_def kernel_dst_def)
  have hit: "rule_hits ?V f a r \<longleftrightarrow> r \<in># client_rules c f \<and> dst_matches (r_Dst r) a \<and>
      table_has ?V f (r_Table r) a"
    using client_rules_after [OF srv len, of r l nets v] by (auto simp: rule_hits_def)
  show ?thesis
    unfolding hit client_rules_cases given_def [symmetric] using len
    by (auto simp: newRuleForClient_def privRule_def ll pr main [unfolded nc_consts] none
        th nc_consts)
qed

lemma client_rules_kinds:
  "\<exists>r \<in># client_rules c f. r_Priority r = 1800 \<and> r_Table r = mainTableID"
  "\<exists>r \<in># client_rules c f. r_Priority r = 1900 \<and> r_Table r = ncNarrowTableID"
  "\<exists>r \<in># client_rules c f. r_Priority r = 2100 \<and> r_Table r = ncWideTableID"
  "i < length (local_nets c f) \<Longrightarrow>
    \<exists>r \<in># client_rules c f. r_Priority r = 2000 + int i \<and> r_Table r = mainTableID"
     apply (force simp: client_rules_cases newRuleForClient_def privRule_def nc_consts)
    apply (force simp: client_rules_cases newRuleForClient_def privRule_def nc_consts)
   apply (force simp: client_rules_cases newRuleForClient_def privRule_def nc_consts)
  apply (rule bexI [of _ "kernel_rule (privRule f (i, local_nets c f ! i))"])
   apply (auto simp: client_rules_cases newRuleForClient_def privRule_def nc_consts)
  done

lemma selects_policy:
  assumes "nat_serves c f" "length (local_nets c f) \<le> 100"
    "ip_family a = f" "length a = 4 \<or> length a = 16"
    "\<forall>n \<in> set nets. net_ok (ip_family (IP n)) n" "\<forall>p \<in> set (local_nets c f). net_ok f p"
  shows "selects (served_view c l nets v) f a t \<longleftrightarrow> egress_policy c nets a = Some t"
proof -
  let ?V = "served_view c l nets v"
  define given where "given t \<longleftrightarrow>
    (\<exists>n \<in> set nets. ip_family (IP n) = f \<and> egress_table c n = t \<and> Contains n a)" for t
  note hits = hits_after [OF assms, of l v, folded given_def]
  have pol: "egress_policy c nets a =
    (if Contains (linkLocal f) a then Some mainTableID
     else if given ncNarrowTableID then Some ncNarrowTableID
     else if \<exists>p \<in> set (local_nets c f). Contains p a then Some mainTableID
     else if given ncWideTableID then Some ncWideTableID else None)"
    unfolding egress_policy_def given_def Let_def assms(3) by (rule refl)
  note rules = client_rules_kinds [where c = c and f = f]
  consider (ll) "Contains (linkLocal f) a"
    | (narrow) "\<not> Contains (linkLocal f) a" "given ncNarrowTableID"
    | (loc) i where "\<not> Contains (linkLocal f) a" "\<not> given ncNarrowTableID"
        "i < length (local_nets c f)" "Contains (local_nets c f ! i) a"
    | (wide) "\<not> Contains (linkLocal f) a" "\<not> given ncNarrowTableID"
        "\<forall>i < length (local_nets c f). \<not> Contains (local_nets c f ! i) a" "given ncWideTableID"
    | (no_hit) "\<not> Contains (linkLocal f) a" "\<not> given ncNarrowTableID"
        "\<forall>i < length (local_nets c f). \<not> Contains (local_nets c f ! i) a" "\<not> given ncWideTableID"
    by blast
  then show ?thesis
  proof cases
    case ll
    obtain r where "rule_hits ?V f a r" "r_Priority r = 1800"
      using ll rules(1) hits by metis
    then have "selects ?V f a t \<longleftrightarrow> t = mainTableID"
      by (intro selects_below [where B = 1801 and r = r]) (auto simp: hits)
    with ll pol show ?thesis by auto
  next
    case narrow
    obtain r where "rule_hits ?V f a r" "r_Priority r = 1900"
      using narrow rules(2) hits by metis
    then have "selects ?V f a t \<longleftrightarrow> t = ncNarrowTableID"
      using narrow by (intro selects_below [where B = 1901 and r = r]) (auto simp: hits)
    with narrow pol show ?thesis by auto
  next
    case loc
    obtain r where "rule_hits ?V f a r" "r_Priority r = 2000 + int i"
      using loc rules(4) hits by metis
    then have "selects ?V f a t \<longleftrightarrow> t = mainTableID"
      using loc assms(2) by (intro selects_below [where B = 2100 and r = r]) (auto simp: hits)
    with loc pol show ?thesis using nth_mem by auto
  next
    case wide
    obtain r where "rule_hits ?V f a r" "r_Priority r = 2100"
      using wide rules(3) hits by metis
    then have "selects ?V f a t \<longleftrightarrow> t = ncWideTableID"
      using wide by (intro selects_below [where B = 2101 and r = r]) (auto simp: hits)
    with wide pol show ?thesis by (auto simp: in_set_conv_nth)
  next
    case no_hit
    then have "\<not> rule_hits ?V f a r" for r by (auto simp: hits)
    then have "\<not> selects ?V f a t" by (simp add: selects_def)
    with no_hit pol show ?thesis by (auto simp: in_set_conv_nth)
  qed
qed

section \<open>Init succeeds\<close>

text \<open>Rules are deleted by family, table and priority: no key is asked for more often than it occurs.\<close>

definition rule_key :: "rule \<Rightarrow> family \<times> int \<times> int" where
  "rule_key x = (r_Family x, r_Table x, r_Priority x)"

abbreviation keyed :: "family \<times> int \<times> int \<Rightarrow> rule multiset \<Rightarrow> nat" where
  "keyed k M \<equiv> size (filter_mset (\<lambda>x. rule_key x = k) M)"

lemma keyed_delete:
  "y \<in># M \<Longrightarrow> keyed k (M - {#y#}) + (if rule_key y = k then 1 else 0) = keyed k M"
  using drain_step(2) [of y M "\<lambda>x. rule_key x = k"] by (simp add: filter_diff_mset)

definition can_add :: "rule list \<Rightarrow> kview \<Rightarrow> bool" where
  "can_add xs v \<longleftrightarrow> (\<forall>x \<in> set xs. kernel_rule x \<notin># v_rules v) \<and> distinct (map kernel_rule xs)"

lemma can_add_append:
  "can_add (xs @ ys) v \<longleftrightarrow> can_add xs v \<and> can_add ys (added xs v)"
  unfolding can_add_def added_def by auto (metis image_eqI)

lemma can_add_init_rules:
  assumes "length priv \<le> 100" "\<forall>x \<in># v_rules v. \<not> client_rule f x"
  shows "can_add (init_rules f ll priv) v"
proof -
  have "distinct (map r_Priority (init_rules f ll priv))"
    using assms(1)
    by (auto simp: init_rules_def newRuleForClient_def privRule_def nc_consts distinct_map
        in_set_enumerate_eq inj_on_def) (metis nth_mem)?
  then have "distinct (map r_Priority (map kernel_rule (init_rules f ll priv)))"
    by (simp add: comp_def)
  then have "distinct (map kernel_rule (init_rules f ll priv))"
    by (simp only: distinct_map [of r_Priority])
  moreover have "kernel_rule x \<notin># v_rules v" if "x \<in> set (init_rules f ll priv)" for x
    using init_rules_prio [OF that] assms by (auto simp: client_rule_def)
  ultimately show ?thesis by (simp add: can_add_def)
qed

context netlink_reliable
begin

lemma ok_RuleDel_key:
  assumes "ok t" "x' \<in># v_rules (view t)" "rule_key x' = rule_key x"
  shows "wp (RuleDel nl x) (\<lambda>r s'. r = Inr () \<and> ok s' \<and>
    (\<forall>k. keyed k (v_rules (view s')) + (if rule_key x = k then 1 else 0) = keyed k (v_rules (view t)))) t"
proof (rule wp_conj [OF ok_RuleDel [where x' = x'] law_RuleDel, THEN wp_conseq], goal_cases)
  case (6 r s')
  then obtain y where "y \<in># v_rules (view t)" "rule_key y = rule_key x"
      "v_rules (view s') = v_rules (view t) - {#y#}"
    by (auto simp: RuleDel_post_def rule_key_def)
  with 6 keyed_delete show ?case by metis
qed (use assms in \<open>auto simp: rule_key_def\<close>)

lemma clear_rules_ok:
  assumes "ok s" "mset rs = filter_mset (\<lambda>x. r_Family x = f) (v_rules (view s))"
  shows "wp (for_each (clear_rule nl f) rs) (\<lambda>r s'. r = Inr () \<and> ok s') s"
proof -
  let ?c = "\<lambda>k ys. length (filter (\<lambda>y. client_rule f y \<and> rule_key y = k) ys)"
  have bound: "?c k rs \<le> keyed k (v_rules (view s))" for k
  proof -
    have "?c k rs \<le> size (filter_mset (\<lambda>x. rule_key x = k) (mset rs))"
      by (metis (mono_tags, lifting) filter_cong length_filter_le mset_filter size_mset filter_filter)
    also have "\<dots> \<le> keyed k (v_rules (view s))"
      unfolding assms(2) by (rule size_mset_mono) (simp add: multiset_filter_mono)
    finally show ?thesis .
  qed
  have "wp (for_each (clear_rule nl f) rs) (\<lambda>r t. case r of Inl e \<Rightarrow> False
      | Inr _ \<Rightarrow> ok t \<and> (\<forall>k. keyed k (v_rules (view t)) + ?c k rs = keyed k (v_rules (view s)))) s"
  proof (rule wp_for_each, goal_cases)
    case (2 ys x zs t)
    show ?case
    proof (cases "client_rule f x")
      case True
      have "?c (rule_key x) ys < keyed (rule_key x) (v_rules (view s))"
        using bound [of "rule_key x"] 2(1) True by simp
      moreover have "keyed (rule_key x) (v_rules (view t)) + ?c (rule_key x) ys =
          keyed (rule_key x) (v_rules (view s))"
        using 2(2) by blast
      ultimately have "keyed (rule_key x) (v_rules (view t)) \<noteq> 0" by linarith
      then obtain x' where x': "x' \<in># v_rules (view t)" "rule_key x' = rule_key x"
        by (auto simp: size_eq_0_iff_empty dest!: multiset_nonemptyE)
      have del: "clear_rule nl f x = errorf ''netlink: failed to delete a rule''
          (RuleDel nl (if r_Dst x = None then x\<lparr>r_Dst := Some (defaultGW f)\<rparr> else x))"
        using True by (simp add: clear_rule_def client_rule_def)
      show ?thesis
        unfolding del wp_errorf
      proof (rule ok_RuleDel_key [where x' = x', THEN wp_conseq], goal_cases)
        case (4 r s')
        have key: "rule_key (if r_Dst x = None then x\<lparr>r_Dst := Some (defaultGW f)\<rparr> else x) = rule_key x"
          by (simp add: rule_key_def)
        have "keyed k (v_rules (view s')) + ?c k (ys @ [x]) = keyed k (v_rules (view s))" for k
        proof -
          have "keyed k (v_rules (view s')) + (if rule_key x = k then 1 else 0) = keyed k (v_rules (view t))"
            using 4 [unfolded key] by blast
          moreover have "keyed k (v_rules (view t)) + ?c k ys = keyed k (v_rules (view s))"
            using 2(2) by blast
          ultimately show ?thesis using True by (simp split: if_splits)
        qed
        with 4 show ?case by simp
      qed (use x' 2 in \<open>auto simp: rule_key_def\<close>)
    next
      case False
      moreover have "r_Family x = f"
        using 2(1) arg_cong [OF assms(2), of set_mset] by auto
      ultimately show ?thesis
        using 2 by (auto simp: clear_rule_def client_rule_def wp_simps)
    qed
  qed (use assms in simp)
  then show ?thesis by (rule wp_conseq) (auto split: sum.splits)
qed

lemma clear_table_ok:
  assumes "ok s"
  shows "wp (clear_table nl f t) (\<lambda>r s'. r = Inr () \<and> ok s') s"
proof -
  let ?n = "\<lambda>s. size (filter_mset (table_route f t) (v_routes (view s)))"
  have body: "wp (clear_route nl f t x) (\<lambda>r s'. r = Inr () \<and> ok s' \<and> Suc (?n s') = ?n s) s"
    if x: "dst_family f x" "rt_Table x = t" and "ok s" and n: "?n s \<noteq> 0" for x s
  proof -
    let ?y = "if rt_Dst x = None then x\<lparr>rt_Dst := Some (defaultGW f)\<rparr> else x"
    have y: "route_family ?y = f" "rt_Table ?y = t"
      using x(2) route_family_defaultGW [OF x(1)] by simp_all
    obtain z where z: "(f, z) \<in># v_routes (view s)" "rt_Table z = t"
      using n by (auto simp: table_route_def dest!: multiset_nonemptyE)
    have "wp (RouteDel nl ?y) (\<lambda>r s'. ok s' \<and> r = Inr ()) s"
      using ok_RouteDel [of s ?y z, unfolded y] z \<open>ok s\<close> by blast
    then have "wp (clear_route nl f t x) (\<lambda>r s'. ok s' \<and> r = Inr ()) s"
      unfolding clear_route_def wp_errorf by (rule wp_conseq) simp
    from wp_conj [OF this wp_clear_route [OF x]] show ?thesis
      by (rule wp_conseq) auto
  qed
  have loop: "wp (for_each (clear_route nl f t) rs) (\<lambda>r s'. r = Inr () \<and> ok s') s"
    if "ok s" "length rs \<le> ?n s" "\<forall>x \<in> set rs. dst_family f x \<and> rt_Table x = t" for rs s
    using that
  proof (induction rs arbitrary: s)
    case (Cons x rs)
    have "?n s \<noteq> 0" using Cons.prems(2) unfolding length_Cons by linarith
    with Cons.prems have "wp (clear_route nl f t x) (\<lambda>r s'. r = Inr () \<and> ok s' \<and> Suc (?n s') = ?n s) s"
      by (intro body) (blast intro: list.set_intros)+
    then show ?case
      unfolding for_each.simps wp_bindE
      by (rule wp_conseq) (use Cons in auto)
  qed (simp add: wp_return)
  show ?thesis
    unfolding clear_table_def wp_bindE wp_errorf
  proof (rule wp_conj [OF ok_RouteListFiltered law_RouteListFiltered, THEN wp_conseq], goal_cases)
    case (2 r s')
    then obtain rs where rs: "r = Inr rs" "view s' = view s" "\<forall>x \<in> set rs. dst_family f x"
        "mset (map (Pair f) rs) = filter_mset (table_route f t) (v_routes (view s))"
      by (auto simp: RouteListFiltered_post_def table_route_def)
    have "rt_Table x = t" if "x \<in> set rs" for x
      using that arg_cong [OF rs(4), of set_mset] by (auto simp: table_route_def)
    moreover have "length rs = ?n s'"
      using arg_cong [OF rs(4), of size] rs(2) by simp
    ultimately show ?case
      using 2 rs by (auto intro!: loop)
  qed (rule assms)
qed

lemma clear_ok: "ok s \<Longrightarrow> wp (clear nl f) (\<lambda>r s'. r = Inr () \<and> ok s') s"
  unfolding clear_def
  by (auto intro!: wp_conj [OF ok_RuleList law_RuleList, THEN wp_conseq]
      clear_rules_ok [THEN wp_conseq] clear_table_ok [THEN wp_conseq]
      simp: wp_simps RuleList_post_def split: sum.splits)

lemma can_add_bindE:
  assumes "\<And>s. ok s \<Longrightarrow> can_add xs (view s) \<Longrightarrow> wp m (\<lambda>r s'. r = Inr () \<and> ok s') s"
    and "\<And>s. wp m (\<lambda>r s'. adds xs (view s) r (view s')) s"
    and "\<And>x s. ok s \<Longrightarrow> can_add ys (view s) \<Longrightarrow> wp (g x) (\<lambda>r s'. r = Inr () \<and> ok s') s"
    and "ok s" "can_add (xs @ ys) (view s)"
  shows "wp (bindE m g) (\<lambda>r s'. r = Inr () \<and> ok s') s"
  unfolding wp_bindE
  by (rule wp_conj [OF assms(1) assms(2), THEN wp_conseq])
    (use assms(3-5) in \<open>auto simp: can_add_append adds_def\<close>)

lemma RuleAdd_ok:
  "ok s \<Longrightarrow> can_add [x] (view s) \<Longrightarrow> wp (errorf m (RuleAdd nl x)) (\<lambda>r s'. r = Inr () \<and> ok s') s"
  unfolding wp_errorf by (rule ok_RuleAdd [THEN wp_conseq]) (auto simp: can_add_def)

lemma RuleAdds_ok:
  "ok s \<Longrightarrow> can_add (map g xs) (view s) \<Longrightarrow>
    wp (for_each (\<lambda>x. errorf (m x) (RuleAdd nl (g x))) xs) (\<lambda>r s'. r = Inr () \<and> ok s') s"
proof (induction xs arbitrary: s)
  case (Cons x xs)
  show ?case
    unfolding for_each.simps
    by (rule can_add_bindE [OF RuleAdd_ok adds_RuleAdd Cons.IH]) (use Cons.prems in auto)
qed (simp add: wp_return)

lemma Init_half_ok:
  assumes "ok s" "length (local_nets c f) \<le> 100"
  shows "wp (if nat_serves c f then natClient_Init_family nl f (linkLocal f) (local_nets c f) else ret ())
    (\<lambda>r s'. r = Inr () \<and> ok s') s"
proof (cases "nat_serves c f")
  case True
  note adds = adds_bindE [OF adds_for_each adds_RuleAdd]
  note tail = can_add_bindE [OF RuleAdds_ok adds_for_each RuleAdd_ok]
  note narrow = can_add_bindE [OF RuleAdd_ok adds_RuleAdd tail]
  note all = can_add_bindE [OF RuleAdd_ok adds_RuleAdd narrow]
  have "wp (natClient_Init_family nl f (linkLocal f) (local_nets c f)) (\<lambda>r s'. r = Inr () \<and> ok s') s"
    unfolding natClient_Init_family_def priv_loop_eq wp_bindE [of "clear nl f"]
  proof (rule wp_conj [OF clear_ok [OF assms(1)] wp_clear [of f s], THEN wp_conseq], goal_cases)
    case (1 r s1)
    then have "can_add (init_rules f (linkLocal f) (local_nets c f)) (view s1)"
      using assms(2) by (intro can_add_init_rules) auto
    with 1 show ?case
      by (simp add: init_rules_def) (rule all, auto)
  qed
  with True show ?thesis by simp
qed (simp add: wp_return assms)

lemma natClient_Init_ok:
  assumes "ok s" "\<And>f. length (local_nets c f) \<le> 100"
  shows "wp (natClient_Init nl c) (\<lambda>r s'. r = Inr () \<and> ok s') s"
  unfolding natClient_Init_eq
proof (rule wp_seq [where R = "\<lambda>_. ok"], goal_cases)
  case 1
  show ?case by (rule Init_half_ok [OF assms, THEN wp_conseq]) auto
next
  case (2 u s1)
  show ?case by (rule Init_half_ok [OF 2 assms(2)])
qed

end

section \<open>Properties\<close>

lemma split_nets_eq:
  "split_nets ns v4 v6 = (v4 @ filter (\<lambda>n. snd (Mask_Size (Mask n)) = 32) ns,
    v6 @ filter (\<lambda>n. snd (Mask_Size (Mask n)) \<noteq> 32) ns)"
  by (induction ns arbitrary: v4 v6) (auto simp: Let_def split: prod.splits)

lemma client_rules_are_client:
  "length (local_nets c f) \<le> 101 \<Longrightarrow> r \<in># client_rules c f \<Longrightarrow> client_rule f r"
  using init_rules_prio by (fastforce simp: client_rules_def client_rule_def)

lemma filter_client_rules:
  assumes "length (local_nets c g) \<le> 101"
  shows "filter_mset (\<lambda>x. \<not> client_rule f x) (client_rules c g) = (if f = g then {#} else client_rules c g)"
  using client_rules_are_client [OF assms] other_family [of f g _ c]
  by (auto simp: filter_mset_eq_conv)

text \<open>The client's own routes are gone after \<^const>\<open>init_view\<close>, whatever they were.\<close>

lemma egress_routes_own:
  "x \<in># egress_routes c l nets \<Longrightarrow> nat_serves c (fst x) \<and> nat_route (fst x) x"
  by (auto simp: egress_routes_def nat_route_def table_route_def egressRoute_def egress_table_def)

lemma init_drops_egress:
  "filter_mset (\<lambda>x. nat_serves c FAMILY_V6 \<longrightarrow> \<not> nat_route FAMILY_V6 x)
    (filter_mset (\<lambda>x. nat_serves c FAMILY_V4 \<longrightarrow> \<not> nat_route FAMILY_V4 x) (egress_routes c l nets)) = {#}"
proof -
  have "\<not> (nat_serves c FAMILY_V4 \<longrightarrow> \<not> nat_route FAMILY_V4 x) \<or>
      \<not> (nat_serves c FAMILY_V6 \<longrightarrow> \<not> nat_route FAMILY_V6 x)" if "x \<in># egress_routes c l nets" for x
    using egress_routes_own [OF that] by (cases "fst x") auto
  then show ?thesis by auto
qed

lemma init_view_again:
  assumes "\<And>f. length (local_nets c f) \<le> 101"
  shows "init_view c (egress_view c l nets (init_view c v)) = init_view c v"
  using filter_client_rules [OF assms] init_drops_egress [of c l nets]
  by (cases "nat_serves c FAMILY_V4"; cases "nat_serves c FAMILY_V6")
    (simp_all add: init_view_def init_step_def egress_view_def filter_filter_mset conj_ac)

text \<open>Networks that can be routed: none twice, none routed already.\<close>

definition fresh_nets :: "natClient \<Rightarrow> link \<Rightarrow> ipnet list \<Rightarrow> kview \<Rightarrow> bool" where
  "fresh_nets c l nets v \<longleftrightarrow> distinct (map (\<lambda>n. (ip_family (IP n), kernel_dst (Some n))) nets) \<and>
    (\<forall>n \<in> set nets. \<not> same_dst_route (egressRoute (egress_table c n) l n) v)"

lemma fresh_nets_Cons:
  assumes "fresh_nets c l (n # nets) v"
  shows "fresh_nets c l nets (egress_view c l [n] v)" "fresh_nets c l nets v"
    "\<not> same_dst_route (egressRoute (egress_table c n) l n) v"
proof -
  show "fresh_nets c l nets v" "\<not> same_dst_route (egressRoute (egress_table c n) l n) v"
    using assms by (simp_all add: fresh_nets_def)
  let ?F = "\<lambda>n. (ip_family (IP n), kernel_dst (Some n))"
  have "?F n \<notin> ?F ` set nets"
    using assms by (simp only: fresh_nets_def list.map distinct.simps set_map) blast
  then have "?F m \<noteq> ?F n" if "m \<in> set nets" for m
    using imageI [OF that, of ?F] by metis
  with assms show "fresh_nets c l nets (egress_view c l [n] v)"
    by (auto simp: fresh_nets_def same_dst_route_def egress_view_def egress_routes_def
        egressRoute_def route_family_def split: if_splits) blast
qed

context netlink_reliable
begin

lemma addEgress1_ok:
  "ok s \<Longrightarrow> \<not> same_dst_route (egressRoute (egress_table c n) l n) (view s) \<Longrightarrow>
    wp (addEgress1 nl c l n) (\<lambda>r s'. r = Inr () \<and> ok s') s"
  unfolding addEgress1_eq by (auto intro!: ok_RouteAdd [THEN wp_conseq] simp: wp_simps)

lemma AddEgress_ok:
  "ok s \<Longrightarrow> fresh_nets c l nets (view s) \<Longrightarrow>
    wp (AddEgress nl c l nets) (\<lambda>r s'. r = Inr () \<and> ok s') s"
  unfolding AddEgress_def
proof (induction nets arbitrary: s)
  case (Cons n nets)
  note fresh = fresh_nets_Cons [OF Cons.prems(2)]
  show ?case
    unfolding for_each.simps wp_bindE
    by (rule wp_conj [OF addEgress1_ok [OF Cons.prems(1) fresh(3)] wp_addEgress1, THEN wp_conseq])
      (use fresh(1) Cons.IH in auto)
qed (simp add: wp_return)

lemma natClient_Init_run:
  "ok s \<Longrightarrow> (\<And>f. length (local_nets c f) \<le> 100) \<Longrightarrow>
    \<exists>s'. run_state (natClient_Init nl c) s = (Inr (), s') \<and> ok s'"
  using wp_ex [OF natClient_Init_ok] by fastforce

lemma AddEgress_run:
  "ok s \<Longrightarrow> fresh_nets c l nets (view s) \<Longrightarrow>
    \<exists>s'. run_state (AddEgress nl c l nets) s = (Inr (), s') \<and> ok s'"
  using wp_ex [OF AddEgress_ok] by fastforce

end

text \<open>A client pod with an IPv4 address, a link and networks for the examples.\<close>

definition client4 :: natClient where
  "client4 = \<lparr>nc_ipv4 = True, nc_ipv6 = False, v4priv = v4PrivateList, v6priv = v6PrivateList\<rparr>"

definition link7 :: link where
  "link7 = OtherLink \<lparr>la_Name = ''fou4_0a010203'', la_Index = 7, la_Up = True\<rparr>"

definition nets2 :: "ipnet list" where
  "nets2 = [\<lparr>IP = [10, 2, 0, 0], Mask = [255, 255, 0, 0]\<rparr>, \<lparr>IP = [8, 8, 8, 0], Mask = [255, 255, 255, 0]\<rparr>]"

lemma length_local_nets_client4 [simp]: "length (local_nets client4 f) \<le> 100"
  by (cases f) (simp_all add: local_nets_def client4_def v4PrivateList_def v6PrivateList_def)

lemma mem_init_view [simp]: "v_routes (mem_view mem_init) = {#}" "v_rules (mem_view mem_init) = {#}"
  by (simp_all add: mem_view_def mem_init_def wf_routes_def)

lemma mem_init_ok4: "mem_ok mem_init"
  by (simp add: mem_ok_def has_link_def mem_init_def)

lemma fresh_nets2: "v_routes v = {#} \<Longrightarrow> fresh_nets client4 link7 nets2 v"
  by (simp add: fresh_nets_def nets2_def same_dst_route_def kernel_dst_def)

text \<open>The state after a first \<^verbatim>\<open>Init\<close> and \<^verbatim>\<open>AddEgress\<close> on the in-memory kernel.\<close>

lemma example_run:
  "\<exists>s1 s2. run_state (natClient_Init mem_ops client4) mem_init = (Inr (), s1) \<and> mem_ok s1 \<and>
    run_state (AddEgress mem_ops client4 link7 nets2) s1 = (Inr (), s2) \<and> mem_ok s2"
proof -
  obtain s1 where 1: "run_state (natClient_Init mem_ops client4) mem_init = (Inr (), s1)" "mem_ok s1"
    using memr.natClient_Init_run [OF mem_init_ok4, of client4] by auto
  have "v_routes (mem_view s1) = {#}"
    using wp_runD [OF mem.wp_natClient_Init 1(1)] by (simp add: init_view_def init_step_def)
  with 1 memr.AddEgress_run [OF 1(2) fresh_nets2] show ?thesis by blast
qed

text \<open>
  C14. A successful \<^verbatim>\<open>natClient.Init\<close> brings the kernel from any state to the one described by
  \<^const>\<open>init_view\<close>: for each family of the pod, the rules with priorities 1800 to 2100 are replaced
  by the link-local, narrow, local-network and wide rules, and the narrow and wide tables are empty.
  Whatever the outcome, nothing changes but rules of priority 1800 and above and routes in those
  two tables.
\<close>

theorem natClient_Init_refines:
  assumes "netlink_laws nl view" "run_state (natClient_Init nl c) s = (r, s')"
  shows "(r = Inr () \<longrightarrow> view s' = init_view c (view s)) \<and> init_frame (view s) (view s')"
  using wp_runD [OF netlink_laws.wp_natClient_Init [OF assms(1)] assms(2)] by simp

theorem natClient_Init_refines_witness:
  "\<exists>s'. run_state (natClient_Init mem_ops client4) mem_init = (Inr (), s') \<and>
     mem_view s' = init_view client4 (mem_view mem_init)"
  using natClient_Init_refines [OF mem.netlink_laws_axioms, of client4 mem_init] example_run by blast



text \<open>
  C20. ``This can be re-initialized by calling Init again'': for up to 101 local networks of each
  family, an \<^verbatim>\<open>Init\<close> after an \<^verbatim>\<open>Init\<close> and any \<^verbatim>\<open>AddEgress\<close> brings the kernel back to where the
  first \<^verbatim>\<open>Init\<close> left it.
\<close>

theorem natClient_reinit:
  assumes "netlink_laws nl view" "length (v4priv c) \<le> 101" "length (v6priv c) \<le> 101"
    "run_state (natClient_Init nl c) s = (Inr (), s1)"
    "run_state (AddEgress nl c l nets) s1 = (r, s2)"
    "run_state (natClient_Init nl c) s2 = (Inr (), s3)"
  shows "view s3 = view s1"
proof -
  have len: "length (local_nets c f) \<le> 101" for f
    using assms(2,3) by (cases f) (simp_all add: local_nets_def)
  have 1: "view s1 = init_view c (view s)" and 3: "view s3 = init_view c (view s2)"
    using wp_runD [OF netlink_laws.wp_natClient_Init [OF assms(1)] assms(4)]
      wp_runD [OF netlink_laws.wp_natClient_Init [OF assms(1)] assms(6)] by simp_all
  obtain ms where "view s2 = egress_view c l ms (view s1)"
    using wp_runD [OF netlink_laws.wp_AddEgress [OF assms(1)] assms(5)] by (auto split: sum.splits)
  with 1 3 show ?thesis by (simp add: init_view_again [OF len])
qed

theorem natClient_reinit_witness:
  "\<exists>s1 s2 s3. run_state (natClient_Init mem_ops client4) mem_init = (Inr (), s1) \<and>
     run_state (AddEgress mem_ops client4 link7 nets2) s1 = (Inr (), s2) \<and>
     run_state (natClient_Init mem_ops client4) s2 = (Inr (), s3) \<and> mem_view s3 = mem_view s1"
proof -
  obtain s1 s2 where 12: "run_state (natClient_Init mem_ops client4) mem_init = (Inr (), s1)"
      "run_state (AddEgress mem_ops client4 link7 nets2) s1 = (Inr (), s2)" "mem_ok s2"
    using example_run by blast
  obtain s3 where 3: "run_state (natClient_Init mem_ops client4) s2 = (Inr (), s3)"
    using memr.natClient_Init_run [OF 12(3), of client4] by auto
  have "mem_view s3 = mem_view s1"
    by (rule natClient_reinit [OF mem.netlink_laws_axioms _ _ 12(1,2) 3])
      (simp_all add: client4_def v4PrivateList_def v6PrivateList_def)
  with 12 3 show ?thesis by blast
qed

text \<open>
  C21. \<^verbatim>\<open>AddEgress\<close> adds exactly one route for each network whose family the pod has, in the narrow
  table if the network's address lies in one of the local networks and in the wide table otherwise,
  and skips the other networks; if it returns an error, the routes of a proper prefix of the list
  have been added.
\<close>

theorem AddEgress_refines:
  assumes "netlink_laws nl view" "run_state (AddEgress nl c l nets) s = (r, s')"
  shows "case r of
      Inl _ \<Rightarrow> (\<exists>k < length nets. view s' = egress_view c l (take k nets) (view s))
    | Inr _ \<Rightarrow> view s' = egress_view c l nets (view s)"
  by (rule wp_runD [OF netlink_laws.wp_AddEgress [OF assms(1)] assms(2)])

theorem AddEgress_refines_witness:
  "\<exists>s1 s2. run_state (AddEgress mem_ops client4 link7 nets2) s1 = (Inr (), s2) \<and>
     mem_view s2 = egress_view client4 link7 nets2 (mem_view s1) \<and>
     map (egress_table client4) nets2 = [117, 118]"
proof -
  obtain s1 s2 where run: "run_state (AddEgress mem_ops client4 link7 nets2) s1 = (Inr (), s2)"
    using example_run by blast
  have "map (egress_table client4) nets2 = [117, 118]"
    by (simp add: nets2_def egress_table_def local_nets_def ip_family_def client4_def
        v4PrivateList_def parse_eval v4InV6Prefix_def CIDRMask_def mask_byte_def upt_rec
        Contains_def networkNumberAndMask_def and_bytes_def To4_def nc_consts)
  with AddEgress_refines [OF mem.netlink_laws_axioms run] run show ?thesis by auto
qed

text \<open>
  C7. The policy routing of a client pod: after \<^verbatim>\<open>Init\<close> and \<^verbatim>\<open>AddEgress\<close> the kernel's rule lookup
  selects, for every destination of a family the pod has, the table that the intended policy
  names: link-local destinations stay in the main table, networks given inside a local network go
  to the tunnel through the narrow table, other local destinations stay in the main table, and other
  networks given go to the tunnel through the wide table.
\<close>

theorem client_routing_policy:
  assumes "netlink_laws nl view" "run_state (natClient_Init nl c) s = (Inr (), s1)"
    "run_state (AddEgress nl c l nets) s1 = (Inr (), s2)"
    "length a = 4 \<or> length a = 16" "nat_serves c (ip_family a)"
    "length (local_nets c (ip_family a)) \<le> 100"
    "\<forall>p \<in> set (local_nets c (ip_family a)). net_ok (ip_family a) p"
    "\<forall>n \<in> set nets. net_ok (ip_family (IP n)) n"
  shows "selects (view s2) (ip_family a) a t \<longleftrightarrow> egress_policy c nets a = Some t"
proof -
  have "view s2 = served_view c l nets (view s)"
    using wp_runD [OF netlink_laws.wp_natClient_Init [OF assms(1)] assms(2)]
      wp_runD [OF netlink_laws.wp_AddEgress [OF assms(1)] assms(3)] by (simp add: served_view_def)
  with selects_policy [OF assms(5,6) refl assms(4,8,7)] show ?thesis by simp
qed

theorem client_routing_policy_witness:
  "\<exists>s1 s2. run_state (natClient_Init mem_ops client4) mem_init = (Inr (), s1) \<and>
     run_state (AddEgress mem_ops client4 link7 nets2) s1 = (Inr (), s2) \<and>
     (\<forall>t. selects (mem_view s2) FAMILY_V4 [10, 2, 3, 4] t \<longleftrightarrow> t = 117) \<and>
     (\<forall>t. selects (mem_view s2) FAMILY_V4 [10, 3, 3, 4] t \<longleftrightarrow> t = 254)"
proof -
  obtain s1 s2 where run: "run_state (natClient_Init mem_ops client4) mem_init = (Inr (), s1)"
      "run_state (AddEgress mem_ops client4 link7 nets2) s1 = (Inr (), s2)"
    using example_run by blast
  note ev = egress_policy_def nets2_def egress_table_def local_nets_def ip_family_def client4_def
    v4PrivateList_def parse_eval v4InV6Prefix_def CIDRMask_def mask_byte_def upt_rec Contains_def
    networkNumberAndMask_def and_bytes_def To4_def nc_consts linkLocal_def v4LinkLocal_def
  have fam: "ip_family [10, 2, 3, 4] = FAMILY_V4" "ip_family [10, 3, 3, 4] = FAMILY_V4"
    by (simp_all add: ip_family_def To4_def)
  have hyps: "nat_serves client4 FAMILY_V4" "\<forall>p \<in> set (local_nets client4 FAMILY_V4). net_ok FAMILY_V4 p"
    "\<forall>n \<in> set nets2. net_ok (ip_family (IP n)) n"
    by (simp_all add: nat_serves_def net_ok_def ev)
  note sel = client_routing_policy [OF mem.netlink_laws_axioms run]
  have "egress_policy client4 nets2 [10, 2, 3, 4] = Some 117"
    "egress_policy client4 nets2 [10, 3, 3, 4] = Some 254"
    by (simp_all add: ev)
  with sel [of "[10, 2, 3, 4]", unfolded fam] sel [of "[10, 3, 3, 4]", unfolded fam] hyps
  have "\<forall>t. selects (mem_view s2) FAMILY_V4 [10, 2, 3, 4] t \<longleftrightarrow> t = 117"
    "\<forall>t. selects (mem_view s2) FAMILY_V4 [10, 3, 3, 4] t \<longleftrightarrow> t = 254"
    by auto
  with run show ?thesis by blast
qed

text \<open>
  \<^verbatim>\<open>NewNatClient\<close> panics exactly on an address of the wrong family.  Otherwise the given
  networks are split by the size of their mask, each kept once and in order, and without any the
  private address ranges are used.
\<close>

lemma NewNatClient_eq:
  "NewNatClient ipv4 ipv6 nets =
    (if ipv4 \<noteq> nil_IP \<and> To4 ipv4 = nil_IP then Inl (Panic ''invalid IPv4 address'')
     else if ipv6 \<noteq> nil_IP \<and> To4 ipv6 \<noteq> nil_IP then Inl (Panic ''invalid IPv6 address'')
     else Inr \<lparr>nc_ipv4 = (ipv4 \<noteq> nil_IP), nc_ipv6 = (ipv6 \<noteq> nil_IP),
       v4priv = (if nets = [] then v4PrivateList
                 else filter (\<lambda>n. snd (Mask_Size (Mask n)) = 32) nets),
       v6priv = (if nets = [] then v6PrivateList
                 else filter (\<lambda>n. snd (Mask_Size (Mask n)) \<noteq> 32) nets)\<rparr>)"
  by (simp add: NewNatClient_def split_nets_eq)

end
