(* ===== verification/Go_Sha1.thy ===== *)
theory Go_Sha1
  imports Go_Net
begin

unbundle bit_operations_syntax

text \<open>
  \<^verbatim>\<open>sha1.Sum\<close> of Go's package \<^verbatim>\<open>crypto/sha1\<close> (FIPS 180-4): the tunnel name of an IPv6
  peer is a prefix of this digest.
\<close>

type_synonym word32 = "32 word"

definition be_word :: "byte list \<Rightarrow> word32" where
  "be_word bs = foldl (\<lambda>w b. push_bit 8 w OR ucast b) 0 bs"

definition word_be :: "word32 \<Rightarrow> byte list" where
  "word_be w = [ucast (drop_bit 24 w), ucast (drop_bit 16 w), ucast (drop_bit 8 w), ucast w]"

definition sha1_pad :: "byte list \<Rightarrow> byte list" where
  "sha1_pad m =
    (let z = (119 - length m mod 64) mod 64; bits = 8 * length m
     in m @ [128] @ replicate z 0 @ map (\<lambda>i. of_nat (bits div 256 ^ i)) (rev [0..<8]))"

fun chunks :: "nat \<Rightarrow> nat \<Rightarrow> 'a list \<Rightarrow> 'a list list" where
  "chunks 0 n xs = []"
| "chunks (Suc k) n xs = take n xs # chunks k n (drop n xs)"

text \<open>The message schedule, newest word first.\<close>

fun schedule :: "nat \<Rightarrow> word32 list \<Rightarrow> word32 list" where
  "schedule 0 ws = ws"
| "schedule (Suc k) ws =
    schedule k (word_rotl 1 (ws ! 2 XOR ws ! 7 XOR ws ! 13 XOR ws ! 15) # ws)"

definition sha1_f :: "nat \<Rightarrow> word32 \<Rightarrow> word32 \<Rightarrow> word32 \<Rightarrow> word32" where
  "sha1_f t b c d =
    (if t < 20 then (b AND c) OR (NOT b AND d)
     else if t < 40 then b XOR c XOR d
     else if t < 60 then (b AND c) OR (b AND d) OR (c AND d)
     else b XOR c XOR d)"

definition sha1_k :: "nat \<Rightarrow> word32" where
  "sha1_k t = (if t < 20 then 0x5A827999 else if t < 40 then 0x6ED9EBA1
               else if t < 60 then 0x8F1BBCDC else 0xCA62C1D6)"

type_synonym digest = "word32 \<times> word32 \<times> word32 \<times> word32 \<times> word32"

fun sha1_rounds :: "nat \<Rightarrow> word32 list \<Rightarrow> digest \<Rightarrow> digest" where
  "sha1_rounds t [] h = h"
| "sha1_rounds t (w # ws) (a, b, c, d, e) =
    sha1_rounds (Suc t) ws
      (word_rotl 5 a + sha1_f t b c d + e + sha1_k t + w, a, word_rotl 30 b, c, d)"

definition sha1_block :: "digest \<Rightarrow> byte list \<Rightarrow> digest" where
  "sha1_block h blk =
    (let ws = rev (schedule 64 (rev (map be_word (chunks 16 4 blk))));
         (h0, h1, h2, h3, h4) = h;
         (a, b, c, d, e) = sha1_rounds 0 ws h
     in (h0 + a, h1 + b, h2 + c, h3 + d, h4 + e))"

definition sha1_Sum :: "byte list \<Rightarrow> byte list" where
  "sha1_Sum m =
    (let p = sha1_pad m;
         (h0, h1, h2, h3, h4) =
           foldl sha1_block (0x67452301, 0xEFCDAB89, 0x98BADCFE, 0x10325476, 0xC3D2E1F0)
             (chunks (length p div 64) 64 p)
     in concat (map word_be [h0, h1, h2, h3, h4]))"

lemma length_sha1_Sum [simp]: "length (sha1_Sum m) = 20"
  by (simp add: sha1_Sum_def word_be_def Let_def split: prod.splits)

end
