(* ===== verification/Fou.thy ===== *)
theory Fou
  imports Go_Sha1 Mem_Kernel
begin

text \<open>
  \<^verbatim>\<open>pkg/founat/fou.go\<close>: Foo-over-UDP tunnels.  A \<^verbatim>\<open>fouTunnel\<close> holds the ports and the
  local addresses; everything it changes is in the kernel, reached through the record
  \<^typ>\<open>'s netlink\<close>.  The Go interface \<^verbatim>\<open>FoUTunnel\<close> is a record of its three methods.
\<close>

section \<open>Names\<close>

definition FoU4LinkPrefix :: string where "FoU4LinkPrefix = ''fou4_''"
definition FoU6LinkPrefix :: string where "FoU6LinkPrefix = ''fou6_''"
definition fouDummy :: string where "fouDummy = ''fou-dummy''"

definition fouName :: "ip \<Rightarrow> string" where
  "fouName addr =
    (if To4 addr \<noteq> nil_IP then FoU4LinkPrefix @ hex_bytes (To4 addr)
     else FoU6LinkPrefix @ hex_bytes (take 4 (sha1_Sum addr)))"

definition modProbe :: "'s netlink \<Rightarrow> string \<Rightarrow> ('s, unit) go" where
  "modProbe nl module =
    errorf (''modprobe '' @ module @ '' failed'')
      (bindE (CombinedOutput nl ''/sbin/modprobe'' [module]) (\<lambda>_. ret ()))"

section \<open>The tunnel object\<close>

record 's FoUTunnel =
  ft_Init :: "('s, unit) go"
  ft_AddPeer :: "ip \<Rightarrow> ('s, link) go"
  ft_DelPeer :: "ip \<Rightarrow> ('s, unit) go"

record fouTunnel =
  sport :: int
  dport :: int
  local4 :: ip
  local6 :: ip

definition NewLinkAttrs :: LinkAttrs where
  "NewLinkAttrs = \<lparr>la_Name = '''', la_Index = 0, la_Up = False\<rparr>"

text \<open>\<^verbatim>\<open>strconv.Itoa\<close>.\<close>

definition Itoa :: "int \<Rightarrow> string" where
  "Itoa i = (if i < 0 then ''-'' @ dec_string (nat (- i)) else dec_string (nat i))"

definition checksum_rulespec :: "fouTunnel \<Rightarrow> string list" where
  "checksum_rulespec t =
    [''-p'', ''udp'', ''--dport'', Itoa (dport t), ''-j'', ''CHECKSUM'', ''--checksum-fill'']"

definition fouTunnel_Init4 :: "'s netlink \<Rightarrow> fouTunnel \<Rightarrow> ('s, unit) go" where
  "fouTunnel_Init4 nl t =
    bindE (errorf ''failed to load fou module'' (modProbe nl ''fou'')) (\<lambda>_.
    bindE (errorf ''netlink: fou add failed'' (FouAdd nl
      \<lparr>fou_Family = FAMILY_V4, fou_Protocol = 4, fou_Port = dport t,
       fou_EncapType = FOU_ENCAP_DIRECT\<rparr>)) (\<lambda>_.
    bindE (errorf ''setting net.ipv4.conf.default.rp_filter=0 failed''
      (Sysctl nl ''net.ipv4.conf.default.rp_filter'' ''0'')) (\<lambda>_.
    bindE (errorf ''setting net.ipv4.conf.all.rp_filter=0 failed''
      (Sysctl nl ''net.ipv4.conf.all.rp_filter'' ''0'')) (\<lambda>_.
    bindE (errorf ''failed to enable IPv4 forwarding'' (EnableIP4Forward nl)) (\<lambda>_.
    bindE (NewWithProtocol nl FAMILY_V4) (\<lambda>ipt.
    errorf ''failed to setup mangle table''
      (ipt_Insert nl ipt ''mangle'' ''POSTROUTING'' 1 (checksum_rulespec t))))))))"

definition fouTunnel_Init6 :: "'s netlink \<Rightarrow> fouTunnel \<Rightarrow> ('s, unit) go" where
  "fouTunnel_Init6 nl t =
    bindE (errorf ''failed to load fou6 module'' (modProbe nl ''fou6'')) (\<lambda>_.
    bindE (errorf ''netlink: fou add failed'' (FouAdd nl
      \<lparr>fou_Family = FAMILY_V6, fou_Protocol = 41, fou_Port = dport t,
       fou_EncapType = FOU_ENCAP_DIRECT\<rparr>)) (\<lambda>_.
    bindE (errorf ''failed to enable IPv6 forwarding'' (EnableIP6Forward nl)) (\<lambda>_.
    bindE (NewWithProtocol nl FAMILY_V6) (\<lambda>ipt.
    errorf ''failed to setup mangle table''
      (ipt_Insert nl ipt ''mangle'' ''POSTROUTING'' 1 (checksum_rulespec t))))))"

definition fouTunnel_Init :: "'s netlink \<Rightarrow> fouTunnel \<Rightarrow> ('s, unit) go" where
  "fouTunnel_Init nl t = do {
    r \<leftarrow> LinkByName nl fouDummy;
    case r of
      Inr _ \<Rightarrow> ret ()
    | Inl e \<Rightarrow>
        if \<not> is_LinkNotFoundError e then fail e
        else
          bindE (if local4 t \<noteq> nil_IP then fouTunnel_Init4 nl t else ret ()) (\<lambda>_.
          bindE (if local6 t \<noteq> nil_IP then fouTunnel_Init6 nl t else ret ()) (\<lambda>_.
          LinkAdd nl (Dummy (NewLinkAttrs\<lparr>la_Name := fouDummy\<rparr>))))
  }"

section \<open>The catch-all IPIP devices\<close>

definition ipip4Device :: string where "ipip4Device = ''egress_ipip4''"
definition ipip6Device :: string where "ipip6Device = ''egress_ipip6''"

definition configureDevice :: "'s netlink \<Rightarrow> link \<Rightarrow> ('s, unit) go" where
  "configureDevice nl l =
    errorf (''netlink: failed to set link '' @ link_name l @ '' up'') (LinkSetUp nl l)"

definition setupDevice :: "'s netlink \<Rightarrow> link \<Rightarrow> ('s, unit) go" where
  "setupDevice nl attrs = do {
    r \<leftarrow> LinkByName nl (link_name attrs);
    bindE
      (case r of
         Inr l \<Rightarrow> ret l
       | Inl _ \<Rightarrow>
          bindE (errorf (''netlink: failed to create device '' @ link_name attrs)
            (LinkAdd nl attrs)) (\<lambda>_.
          errorf (''netlink: failed to retrieve created device '' @ link_name attrs)
            (LinkByName nl (link_name attrs))))
      (\<lambda>l. errorf (''failed to set up device '' @ link_name l) (configureDevice nl l))
  }"

definition removeDevice :: "'s netlink \<Rightarrow> string \<Rightarrow> ('s, unit) go" where
  "removeDevice nl name = do {
    r \<leftarrow> LinkByName nl name;
    case r of
      Inl _ \<Rightarrow> ret ()
    | Inr l \<Rightarrow> errorf (''netlink: failed to remove device '' @ name) (LinkDel nl l)
  }"

definition renameDevice :: "'s netlink \<Rightarrow> string \<Rightarrow> string \<Rightarrow> ('s, unit) go" where
  "renameDevice nl from to = do {
    r \<leftarrow> LinkByName nl from;
    case r of
      Inl _ \<Rightarrow> ret ()
    | Inr l \<Rightarrow> errorf (''netlink: failed to rename device '' @ from @ '' to '' @ to)
        (LinkSetName nl l to)
  }"

text \<open>A tunnel device with every field but \<^verbatim>\<open>FlowBased\<close> at Go's zero value.\<close>

definition flowBased :: tunnel where
  "flowBased = \<lparr>Ttl = 0, EncapType = ENCAP_NONE, EncapDport = 0, EncapSport = 0,
     Remote = nil_IP, Local = nil_IP, FlowBased = True\<rparr>"

definition setupIPIPDevices :: "'s netlink \<Rightarrow> bool \<Rightarrow> bool \<Rightarrow> ('s, unit) go" where
  "setupIPIPDevices nl ipv4 ipv6 =
    bindE
      (if ipv4 then
         bindE (errorf (''creating '' @ ipip4Device) (setupDevice nl
           (Iptun \<lparr>la_Name = ipip4Device, la_Index = 0, la_Up = False\<rparr> flowBased))) (\<lambda>_.
         errorf ''renaming fallback device tunl0'' (renameDevice nl ''tunl0'' ''egress_tunl''))
       else errorf (''removing '' @ ipip4Device) (removeDevice nl ipip4Device)) (\<lambda>_.
    if ipv6 then
      bindE (errorf (''creating '' @ ipip6Device) (setupDevice nl
        (Ip6tnl \<lparr>la_Name = ipip6Device, la_Index = 0, la_Up = False\<rparr> flowBased))) (\<lambda>_.
      errorf ''renaming fallback device tunl0'' (renameDevice nl ''ip6tnl0'' ''egress_ip6tnl''))
    else errorf (''removing '' @ ipip6Device) (removeDevice nl ipip6Device))"

section \<open>Peers\<close>

definition fou_tunnel :: "fouTunnel \<Rightarrow> ip \<Rightarrow> ip \<Rightarrow> tunnel" where
  "fou_tunnel t remote loc = \<lparr>Ttl = 225, EncapType = FOU_ENCAP_DIRECT,
     EncapDport = word_of_int (dport t), EncapSport = word_of_int (sport t),
     Remote = remote, Local = loc, FlowBased = False\<rparr>"

definition addPeer4 :: "'s netlink \<Rightarrow> fouTunnel \<Rightarrow> ip \<Rightarrow> ('s, link) go" where
  "addPeer4 nl t addr =
    (if local4 t = nil_IP then fail ErrIPFamilyMismatch
     else do {
       r \<leftarrow> LinkByName nl (fouName addr);
       case r of
         Inr l \<Rightarrow> ret l
       | Inl e \<Rightarrow>
           if \<not> is_LinkNotFoundError e then fail (wrap ''netlink: failed to get link'' e)
           else
             bindE (errorf ''netlink: failed to add fou link'' (LinkAdd nl
               (Iptun (NewLinkAttrs\<lparr>la_Name := fouName addr, la_Up := True\<rparr>)
                 (fou_tunnel t addr (local4 t))))) (\<lambda>_.
             bindE (errorf ''netlink: failed to setup ipip device''
               (setupIPIPDevices nl True False)) (\<lambda>_.
             LinkByName nl (fouName addr)))
     })"

definition addPeer6 :: "'s netlink \<Rightarrow> fouTunnel \<Rightarrow> ip \<Rightarrow> ('s, link) go" where
  "addPeer6 nl t addr =
    (if local6 t = nil_IP then fail ErrIPFamilyMismatch
     else do {
       r \<leftarrow> LinkByName nl (fouName addr);
       case r of
         Inr l \<Rightarrow> ret l
       | Inl e \<Rightarrow>
           if \<not> is_LinkNotFoundError e then fail (wrap ''netlink: failed to get link'' e)
           else
             bindE (errorf ''netlink: failed to add fou6 link'' (LinkAdd nl
               (Ip6tnl (NewLinkAttrs\<lparr>la_Name := fouName addr, la_Up := True\<rparr>)
                 (fou_tunnel t addr (local6 t))))) (\<lambda>_.
             bindE (errorf ''netlink: failed to setup ipip device''
               (setupIPIPDevices nl False True)) (\<lambda>_.
             LinkByName nl (fouName addr)))
     })"

definition AddPeer :: "'s netlink \<Rightarrow> fouTunnel \<Rightarrow> ip \<Rightarrow> ('s, link) go" where
  "AddPeer nl t addr =
    (if To4 addr \<noteq> nil_IP then addPeer4 nl t (To4 addr) else addPeer6 nl t addr)"

definition DelPeer :: "'s netlink \<Rightarrow> fouTunnel \<Rightarrow> ip \<Rightarrow> ('s, unit) go" where
  "DelPeer nl t addr = do {
    r \<leftarrow> LinkByName nl (fouName addr);
    case r of
      Inr l \<Rightarrow> LinkDel nl l
    | Inl e \<Rightarrow> if is_LinkNotFoundError e then ret () else fail e
  }"

definition as_FoUTunnel :: "'s netlink \<Rightarrow> fouTunnel \<Rightarrow> 's FoUTunnel" where
  "as_FoUTunnel nl t =
    \<lparr>ft_Init = fouTunnel_Init nl t, ft_AddPeer = AddPeer nl t, ft_DelPeer = DelPeer nl t\<rparr>"

definition NewFoUTunnel :: "'s netlink \<Rightarrow> int \<Rightarrow> int \<Rightarrow> ip \<Rightarrow> ip \<Rightarrow> err + 's FoUTunnel" where
  "NewFoUTunnel nl sp dp localIPv4 localIPv6 =
    (if localIPv4 \<noteq> nil_IP \<and> To4 localIPv4 = nil_IP then Inl (Panic ''invalid IPv4 address'')
     else if localIPv6 \<noteq> nil_IP \<and> To4 localIPv6 \<noteq> nil_IP then Inl (Panic ''invalid IPv6 address'')
     else Inr (as_FoUTunnel nl
       \<lparr>sport = sp, dport = dp, local4 = localIPv4, local6 = localIPv6\<rparr>))"

section \<open>Lemmas on names\<close>

lemma length_hex_bytes [simp]: "length (hex_bytes bs) = 2 * length bs"
  by (induction bs) (auto simp: hex_bytes_def hex_byte_def)

lemma hex_digit_inj: "m < 16 \<Longrightarrow> n < 16 \<Longrightarrow> hex_digit m = hex_digit n \<Longrightarrow> m = n"
proof -
  assume a: "m < 16" "n < 16" "hex_digit m = hex_digit n"
  then have "of_char (hex_digit m) = (of_char (hex_digit n) :: nat)" by simp
  with a show ?thesis
    by (auto split: if_splits)
qed

lemma hex_byte_inj: "hex_byte a = hex_byte b \<Longrightarrow> a = b"
proof -
  assume h: "hex_byte a = hex_byte b"
  have lt: "unat x div 16 < 16" "unat x mod 16 < 16" for x :: byte
    using unsigned_less [of x, where 'a = nat] by (simp_all add: less_mult_imp_div_less)
  have "unat a div 16 = unat b div 16" "unat a mod 16 = unat b mod 16"
    using h hex_digit_inj lt unfolding hex_byte_def by (metis list.inject)+
  then have "unat a = unat b"
    by (metis div_mult_mod_eq)
  then show ?thesis by (rule unsigned_word_eqI)
qed

lemma hex_bytes_inj: "length xs = length ys \<Longrightarrow> hex_bytes xs = hex_bytes ys \<Longrightarrow> xs = ys"
proof (induction xs ys rule: list_induct2)
  case (Cons x xs y ys)
  have "hex_byte x = hex_byte y \<and> hex_bytes xs = hex_bytes ys"
    using Cons.prems by (simp add: hex_bytes_def hex_byte_def)
  then show ?case using Cons.IH hex_byte_inj by blast
qed simp

lemma fouName_prefix:
  "HasPrefix (fouName a) FoU4LinkPrefix \<longleftrightarrow> To4 a \<noteq> nil_IP"
  "HasPrefix (fouName a) FoU6LinkPrefix \<longleftrightarrow> To4 a = nil_IP"
  by (auto simp: fouName_def HasPrefix_def FoU4LinkPrefix_def FoU6LinkPrefix_def)

lemma fouName_To4 [simp]: "fouName (To4 a) = (if To4 a = nil_IP then fouName nil_IP else fouName a)"
  by (simp add: fouName_def To4_def)

text \<open>Names of IPv4 peers are equal exactly for equal addresses; equal addresses have equal names.\<close>

lemma fouName_v4:
  assumes "To4 a \<noteq> nil_IP"
  shows "fouName a = fouName b \<longleftrightarrow> Equal a b"
proof
  assume eq: "fouName a = fouName b"
  then have b: "To4 b \<noteq> nil_IP"
    using fouName_prefix(1) [of a] fouName_prefix(1) [of b] assms by simp
  with eq assms have "hex_bytes (To4 a) = hex_bytes (To4 b)"
    by (simp add: fouName_def)
  then have "To4 a = To4 b"
    using assms b by (intro hex_bytes_inj) (simp_all add: length_To4)
  then show "Equal a b"
    using assms by (simp add: Equal_iff_To4)
next
  assume "Equal a b"
  then have "To4 b = To4 a" using assms by (simp add: Equal_iff_To4)
  with assms show "fouName a = fouName b" by (simp add: fouName_def)
qed

lemma Equal_fouName: "Equal a b \<Longrightarrow> fouName a = fouName b"
proof (cases "To4 a = nil_IP")
  case True
  moreover assume "Equal a b"
  ultimately have "a = b" by (auto simp: Equal_def To4_def split: if_splits)
  then show ?thesis by simp
qed (simp add: fouName_v4)

section \<open>What the operations do to the kernel\<close>

text \<open>The devices that \<^const>\<open>setupIPIPDevices\<close> may touch, and the fallback devices.\<close>

definition ipip_names :: "string set" where
  "ipip_names = {ipip4Device, ipip6Device, ''egress_tunl'', ''egress_ip6tnl''} \<union> fallback_devices"

text \<open>Only links named in \<open>X\<close> differ; rules, listeners, sysctls and chains are the same.\<close>

definition links_frame :: "string set \<Rightarrow> kview \<Rightarrow> kview \<Rightarrow> bool" where
  "links_frame X v v' \<longleftrightarrow> (\<forall>n. n \<notin> X \<longrightarrow> v_links v' n = v_links v n) \<and>
    v_rules v' = v_rules v \<and> v_fou v' = v_fou v \<and> v_sysctl v' = v_sysctl v \<and> v_ipt v' = v_ipt v"

lemma links_frame_refl [simp]: "links_frame X v v"
  by (simp add: links_frame_def)

lemma links_frame_trans: "links_frame X v w \<Longrightarrow> links_frame X w u \<Longrightarrow> links_frame X v u"
  by (simp add: links_frame_def)

lemma links_frame_mono: "links_frame X v w \<Longrightarrow> X \<subseteq> Y \<Longrightarrow> links_frame Y v w"
  by (auto simp: links_frame_def)

lemma links_frameD: "links_frame X v w \<Longrightarrow> n \<notin> X \<Longrightarrow> v_links w n = v_links v n"
  by (simp add: links_frame_def)

definition link_is_up :: "kview \<Rightarrow> string \<Rightarrow> bool" where
  "link_is_up v n \<longleftrightarrow> (\<exists>l. v_links v n = Some l \<and> la_Up (Attrs l))"

lemma device_names [simp]:
  "ipip4Device \<noteq> ipip6Device" "ipip6Device \<noteq> ipip4Device"
  "ipip4Device \<noteq> ''egress_tunl''" "ipip4Device \<noteq> ''egress_ip6tnl''"
  "ipip6Device \<noteq> ''egress_tunl''" "ipip6Device \<noteq> ''egress_ip6tnl''"
  "ipip4Device \<notin> fallback_devices" "ipip6Device \<notin> fallback_devices"
  by (simp_all add: ipip4Device_def ipip6Device_def fallback_devices_def)

lemma fouName_not_device: "fouName a \<notin> ipip_names" "fouName a \<noteq> fouDummy"
  by (simp_all add: fouName_def ipip_names_def ipip4Device_def ipip6Device_def
      fallback_devices_def FoU4LinkPrefix_def FoU6LinkPrefix_def fouDummy_def)

text \<open>\<open>l\<close> is the link \<open>l0\<close> with an index the kernel chose.\<close>

definition made_from :: "link \<Rightarrow> link \<Rightarrow> bool" where
  "made_from l0 l \<longleftrightarrow> (\<exists>i. l = with_index i l0)"

lemma made_from_with_index [simp]: "made_from l0 (with_index i l0)"
  by (auto simp: made_from_def)

lemma not_ipip_fallback: "n \<notin> ipip_names \<Longrightarrow> n \<notin> fallback_devices"
  by (simp add: ipip_names_def)

lemmas view_frames = links_frame_def link_is_up_def autoload_same autoload_links

text \<open>
  What adding the link \<open>l0\<close> promises: only that link and the IPIP devices can change; on success
  the link is in the kernel and is returned, an existing one with nothing changed, a new one made
  as asked with its family's IPIP device up; on an error the link may have been made already.
\<close>

definition peer_post :: "link \<Rightarrow> bool \<Rightarrow> bool \<Rightarrow> kview \<Rightarrow> err + link \<Rightarrow> kview \<Rightarrow> bool" where
  "peer_post l0 b4 b6 v r v' \<longleftrightarrow>
    links_frame (insert (link_name l0) ipip_names) v v' \<and>
    (case r of
       Inr l \<Rightarrow> v_links v' (link_name l0) = Some l \<and>
         (if v_links v (link_name l0) = None
          then made_from l0 l \<and> (b4 \<longrightarrow> link_is_up v' ipip4Device) \<and> (b6 \<longrightarrow> link_is_up v' ipip6Device)
          else v' = v)
     | Inl e \<Rightarrow> v_links v' (link_name l0) = v_links v (link_name l0) \<or>
         v_links v (link_name l0) = None \<and> (\<exists>l. v_links v' (link_name l0) = Some l \<and> made_from l0 l))"

text \<open>The link of a peer, and whether the tunnel object serves the peer's family.\<close>

definition peer_link :: "fouTunnel \<Rightarrow> ip \<Rightarrow> link" where
  "peer_link t addr =
    (if To4 addr \<noteq> nil_IP
     then Iptun \<lparr>la_Name = fouName addr, la_Index = 0, la_Up = True\<rparr>
       (fou_tunnel t (To4 addr) (local4 t))
     else Ip6tnl \<lparr>la_Name = fouName addr, la_Index = 0, la_Up = True\<rparr>
       (fou_tunnel t addr (local6 t)))"

definition supports :: "fouTunnel \<Rightarrow> ip \<Rightarrow> bool" where
  "supports t addr = (if To4 addr \<noteq> nil_IP then local4 t \<noteq> nil_IP else local6 t \<noteq> nil_IP)"

lemma link_name_peer_link [simp]: "link_name (peer_link t addr) = fouName addr"
  by (simp add: peer_link_def)

text \<open>What the two halves of \<^const>\<open>fouTunnel_Init\<close> set up, and what no part of it changes.\<close>

definition Init4_view :: "fouTunnel \<Rightarrow> kview \<Rightarrow> kview" where
  "Init4_view t w =
    upd_chain FAMILY_V4 ''mangle'' ''POSTROUTING'' ((#) (checksum_rulespec t))
     (w\<lparr>v_fou := add_mset \<lparr>fou_Family = FAMILY_V4, fou_Protocol = 4, fou_Port = dport t,
          fou_EncapType = FOU_ENCAP_DIRECT\<rparr> (v_fou w),
        v_sysctl := (v_sysctl w)(''net.ipv4.conf.default.rp_filter'' \<mapsto> ''0'',
          ''net.ipv4.conf.all.rp_filter'' \<mapsto> ''0'', ''net.ipv4.ip_forward'' \<mapsto> ''1'')\<rparr>)"

definition Init6_view :: "fouTunnel \<Rightarrow> kview \<Rightarrow> kview" where
  "Init6_view t w =
    upd_chain FAMILY_V6 ''mangle'' ''POSTROUTING'' ((#) (checksum_rulespec t))
     (w\<lparr>v_fou := add_mset \<lparr>fou_Family = FAMILY_V6, fou_Protocol = 41, fou_Port = dport t,
          fou_EncapType = FOU_ENCAP_DIRECT\<rparr> (v_fou w),
        v_sysctl := (v_sysctl w)(''net.ipv6.conf.all.forwarding'' \<mapsto> ''1'')\<rparr>)"

text \<open>
  Field by field, what a successful initialisation adds for one family: a listener, the checksum
  rule at the head of the mangle chain and the forwarding sysctls.
\<close>

definition init_fou :: "fouTunnel \<Rightarrow> family \<Rightarrow> fou" where
  "init_fou t f = \<lparr>fou_Family = f, fou_Protocol = (case f of FAMILY_V4 \<Rightarrow> 4 | FAMILY_V6 \<Rightarrow> 41),
     fou_Port = dport t, fou_EncapType = FOU_ENCAP_DIRECT\<rparr>"

definition init_sysctls :: "family \<Rightarrow> string \<Rightarrow> string option" where
  "init_sysctls f = (case f of
     FAMILY_V4 \<Rightarrow> [''net.ipv4.conf.default.rp_filter'' \<mapsto> ''0'',
       ''net.ipv4.conf.all.rp_filter'' \<mapsto> ''0'', ''net.ipv4.ip_forward'' \<mapsto> ''1'']
   | FAMILY_V6 \<Rightarrow> [''net.ipv6.conf.all.forwarding'' \<mapsto> ''1''])"

definition family_done :: "fouTunnel \<Rightarrow> family \<Rightarrow> kview \<Rightarrow> kview \<Rightarrow> bool" where
  "family_done t f v v' \<longleftrightarrow>
    v_fou v' = add_mset (init_fou t f) (v_fou v) \<and>
    v_sysctl v' = v_sysctl v ++ init_sysctls f \<and>
    (\<forall>g tb ch. v_ipt v' g tb ch =
      (if g = f \<and> tb = ''mangle'' \<and> ch = ''POSTROUTING''
       then checksum_rulespec t # v_ipt v g tb ch else v_ipt v g tb ch))"

lemma Init4_view_done: "autoload v w \<Longrightarrow> family_done t FAMILY_V4 v (Init4_view t w)"
  by (simp add: family_done_def Init4_view_def upd_chain_def autoload_same init_fou_def init_sysctls_def)

lemma Init6_view_done: "autoload v w \<Longrightarrow> family_done t FAMILY_V6 v (Init6_view t w)"
  by (simp add: family_done_def Init6_view_def upd_chain_def autoload_same init_fou_def init_sysctls_def)

definition serves :: "fouTunnel \<Rightarrow> family \<Rightarrow> bool" where
  "serves t f = (case f of FAMILY_V4 \<Rightarrow> local4 t \<noteq> nil_IP | FAMILY_V6 \<Rightarrow> local6 t \<noteq> nil_IP)"

text \<open>The same over all families the tunnel object serves.\<close>

definition init_done :: "fouTunnel \<Rightarrow> kview \<Rightarrow> kview \<Rightarrow> bool" where
  "init_done t v v' \<longleftrightarrow>
    v_fou v' = v_fou v + mset (map (init_fou t) (filter (serves t) [FAMILY_V4, FAMILY_V6])) \<and>
    v_sysctl v' = foldl (++) (v_sysctl v) (map init_sysctls (filter (serves t) [FAMILY_V4, FAMILY_V6])) \<and>
    (\<forall>g tb ch. v_ipt v' g tb ch =
      (if serves t g \<and> tb = ''mangle'' \<and> ch = ''POSTROUTING''
       then checksum_rulespec t # v_ipt v g tb ch else v_ipt v g tb ch))"

definition same_config :: "kview \<Rightarrow> kview \<Rightarrow> bool" where
  "same_config v v' \<longleftrightarrow> v_fou v' = v_fou v \<and> v_sysctl v' = v_sysctl v \<and> v_ipt v' = v_ipt v"

lemma init_doneI:
  assumes "if serves t FAMILY_V4 then family_done t FAMILY_V4 v w else same_config v w"
    and "if serves t FAMILY_V6 then family_done t FAMILY_V6 w u else same_config w u"
    and "same_config u v'"
  shows "init_done t v v'"
proof -
  have "v_ipt v' g tb ch =
      (if serves t g \<and> tb = ''mangle'' \<and> ch = ''POSTROUTING''
       then checksum_rulespec t # v_ipt v g tb ch else v_ipt v g tb ch)" for g tb ch
    using assms by (cases g) (simp_all add: family_done_def same_config_def split: if_splits)
  then show ?thesis
    using assms by (simp add: init_done_def family_done_def same_config_def split: if_splits)
qed

definition init_keeps :: "kview \<Rightarrow> kview \<Rightarrow> bool" where
  "init_keeps v v' \<longleftrightarrow> (\<forall>n. n \<notin> fallback_devices \<longrightarrow> v_links v' n = v_links v n) \<and>
    v_rules v' = v_rules v \<and> v_routes v' = v_routes v"

context netlink_laws
begin

lemma wp_setupDevice:
  "wp (setupDevice nl l) (\<lambda>r s'. env_err r \<and>
    links_frame (insert (link_name l) fallback_devices) (view s) (view s') \<and>
    (\<forall>u. r = Inr u \<longrightarrow> link_is_up (view s') (link_name l))) s"
  unfolding setupDevice_def configureDevice_def
  by (auto intro!: wp_ops simp: wp_simps netlink_posts view_frames split: sum.splits)

lemma wp_removeDevice:
  "wp (removeDevice nl n) (\<lambda>r s'. env_err r \<and> links_frame {n} (view s) (view s')) s"
  unfolding removeDevice_def
  by (auto intro!: wp_ops simp: wp_simps netlink_posts view_frames split: sum.splits)

lemma wp_renameDevice:
  "wp (renameDevice nl from to) (\<lambda>r s'. env_err r \<and> links_frame {from, to} (view s) (view s')) s"
  unfolding renameDevice_def
  by (auto intro!: wp_ops simp: wp_simps netlink_posts view_frames split: sum.splits)

lemmas device_wp [wp_ops] =
  wp_setupDevice [THEN wp_conseq] wp_removeDevice [THEN wp_conseq] wp_renameDevice [THEN wp_conseq]

text \<open>One half of \<^const>\<open>setupIPIPDevices\<close>: set up and rename, or remove.\<close>

lemma wp_ipip_half:
  "wp (if b then bindE (errorf m1 (setupDevice nl l)) (\<lambda>_. errorf m2 (renameDevice nl old new))
       else errorf m3 (removeDevice nl (link_name l)))
    (\<lambda>r s'. env_err r \<and>
      links_frame ({link_name l, old, new} \<union> fallback_devices) (view s) (view s') \<and>
      (\<forall>u. r = Inr u \<longrightarrow> b \<longrightarrow> link_name l \<noteq> old \<longrightarrow> link_name l \<noteq> new \<longrightarrow>
        link_is_up (view s') (link_name l))) s"
  by (auto intro!: wp_ops simp: wp_simps links_frame_def link_is_up_def split: sum.splits)

lemma wp_setupIPIPDevices:
  "wp (setupIPIPDevices nl b4 b6) (\<lambda>r s'. env_err r \<and> links_frame ipip_names (view s) (view s') \<and>
    (\<forall>u. r = Inr u \<longrightarrow> (b4 \<longrightarrow> link_is_up (view s') ipip4Device) \<and>
                      (b6 \<longrightarrow> link_is_up (view s') ipip6Device))) s"
proof -
  let ?l4 = "Iptun \<lparr>la_Name = ipip4Device, la_Index = 0, la_Up = False\<rparr> flowBased"
  let ?l6 = "Ip6tnl \<lparr>la_Name = ipip6Device, la_Index = 0, la_Up = False\<rparr> flowBased"
  let ?X4 = "{ipip4Device, ''tunl0'', ''egress_tunl''} \<union> fallback_devices"
  let ?X6 = "{ipip6Device, ''ip6tnl0'', ''egress_ip6tnl''} \<union> fallback_devices"
  have sub: "?X4 \<subseteq> ipip_names" "?X6 \<subseteq> ipip_names"
    by (auto simp: ipip_names_def fallback_devices_def)
  have notin: "ipip4Device \<notin> ?X6" "ipip4Device \<noteq> ''tunl0''" "ipip6Device \<noteq> ''ip6tnl0''"
    by (auto simp: ipip4Device_def ipip6Device_def fallback_devices_def)
  have names: "link_name ?l4 = ipip4Device" "link_name ?l6 = ipip6Device" by simp_all
  have up: "link_is_up w ipip4Device" if "link_is_up v ipip4Device" "links_frame ?X6 v w" for v w
    using that links_frameD [OF that(2) notin(1)] by (simp add: link_is_up_def)
  note h4 = wp_ipip_half [where l = ?l4 and b = b4 and old = "''tunl0''" and new = "''egress_tunl''",
      unfolded names, THEN wp_conseq]
  note h6 = wp_ipip_half [where l = ?l6 and b = b6 and old = "''ip6tnl0''" and new = "''egress_ip6tnl''",
      unfolded names, THEN wp_conseq]
  show ?thesis
    unfolding setupIPIPDevices_def
  proof (rule wp_seq [where R = "\<lambda>_ s1. links_frame ipip_names (view s) (view s1) \<and>
      (b4 \<longrightarrow> link_is_up (view s1) ipip4Device)"])
    fix u s1
    assume "links_frame ipip_names (view s) (view s1) \<and> (b4 \<longrightarrow> link_is_up (view s1) ipip4Device)"
    then show "wp (if b6 then bindE (errorf (''creating '' @ ipip6Device) (setupDevice nl ?l6)) (\<lambda>_.
          errorf ''renaming fallback device tunl0'' (renameDevice nl ''ip6tnl0'' ''egress_ip6tnl''))
        else errorf (''removing '' @ ipip6Device) (removeDevice nl ipip6Device))
      (\<lambda>r s'. env_err r \<and> links_frame ipip_names (view s) (view s') \<and>
        (\<forall>u. r = Inr u \<longrightarrow> (b4 \<longrightarrow> link_is_up (view s') ipip4Device) \<and>
                      (b6 \<longrightarrow> link_is_up (view s') ipip6Device))) s1"
      using up notin links_frame_mono [OF _ sub(2)] by (intro h6) (auto intro: links_frame_trans)
  qed (rule h4, use notin links_frame_mono [OF _ sub(1)] in \<open>auto split: sum.splits\<close>)
qed

lemmas ipip_wp [wp_ops] = wp_setupIPIPDevices [THEN wp_conseq]

lemma wp_LinkAdd_frame:
  assumes "link_name l \<notin> fallback_devices"
  shows "wp (LinkAdd nl l) (\<lambda>r s'. env_err r \<and>
    links_frame (insert (link_name l) fallback_devices) (view s) (view s') \<and>
    v_routes (view s') = v_routes (view s) \<and>
    (case r of Inl e \<Rightarrow> v_links (view s') (link_name l) = v_links (view s) (link_name l)
     | Inr _ \<Rightarrow> v_links (view s) (link_name l) = None \<and>
        (\<exists>l'. v_links (view s') (link_name l) = Some l' \<and> made_from l l'))) s"
  using assms
  by (intro wp_ops) (auto simp: netlink_posts view_frames split: sum.splits)

lemma wp_addPeer_shape:
  assumes n: "link_name l0 = n" "n \<notin> ipip_names"
  shows "wp (do {
       r \<leftarrow> LinkByName nl n;
       case r of
         Inr l \<Rightarrow> ret l
       | Inl e \<Rightarrow>
           if \<not> is_LinkNotFoundError e then fail (wrap m1 e)
           else bindE (errorf m2 (LinkAdd nl l0)) (\<lambda>_.
                bindE (errorf m3 (setupIPIPDevices nl b4 b6)) (\<lambda>_. LinkByName nl n))
     }) (\<lambda>r s'. env_err r \<and> peer_post l0 b4 b6 (view s) r (view s')) s"
proof -
  have fb: "link_name l0 \<notin> fallback_devices"
    using n by (simp add: not_ipip_fallback)
  show ?thesis
    using n fb
    by (auto intro!: law_LinkByName [THEN wp_conseq] ipip_wp wp_LinkAdd_frame [THEN wp_conseq]
        simp: wp_simps LinkByName_post_def links_frame_def not_ipip_fallback peer_post_def
        split: sum.splits)
qed

lemma wp_AddPeer:
  "wp (AddPeer nl t addr) (\<lambda>r s'.
    if supports t addr
    then env_err r \<and> peer_post (peer_link t addr) (To4 addr \<noteq> nil_IP) (To4 addr = nil_IP)
           (view s) r (view s')
    else r = Inl ErrIPFamilyMismatch \<and> s' = s) s"
proof (cases "To4 addr = nil_IP")
  case True
  then have pl: "Ip6tnl (NewLinkAttrs\<lparr>la_Name := fouName addr, la_Up := True\<rparr>)
      (fou_tunnel t addr (local6 t)) = peer_link t addr"
    by (simp add: peer_link_def NewLinkAttrs_def)
  from True show ?thesis
    unfolding AddPeer_def addPeer6_def pl
    by (simp add: supports_def wp_return wp_addPeer_shape fouName_not_device)
next
  case False
  then have pl: "Iptun (NewLinkAttrs\<lparr>la_Name := fouName addr, la_Up := True\<rparr>)
      (fou_tunnel t (To4 addr) (local4 t)) = peer_link t addr"
    by (simp add: peer_link_def NewLinkAttrs_def)
  from False have nm: "fouName (To4 addr) = fouName addr" by simp
  from False show ?thesis
    unfolding AddPeer_def addPeer4_def nm pl
    by (simp add: supports_def wp_return wp_addPeer_shape fouName_not_device)
qed

lemma wp_DelPeer:
  "wp (DelPeer nl t addr) (\<lambda>r s'. env_err r \<and>
    (case r of
       Inl _ \<Rightarrow> view s' = view s
     | Inr _ \<Rightarrow> v_links (view s') (fouName addr) = None \<and>
         links_frame {fouName addr} (view s) (view s') \<and>
         (v_links (view s) (fouName addr) = None \<longrightarrow> view s' = view s))) s"
  unfolding DelPeer_def
  by (auto intro!: wp_ops simp: wp_simps netlink_posts links_frame_def split: sum.splits)

lemma wp_modProbe:
  "wp (modProbe nl m) (\<lambda>r s'. env_err r \<and> autoload (view s) (view s')) s"
  unfolding modProbe_def by (auto intro!: wp_ops simp: wp_simps split: sum.splits)

lemmas modProbe_wp [wp_ops] = wp_modProbe [THEN wp_conseq]

lemma wp_Init4:
  "wp (fouTunnel_Init4 nl t) (\<lambda>r s'. env_err r \<and> init_keeps (view s) (view s') \<and>
    (\<forall>u. r = Inr u \<longrightarrow> (\<exists>w. autoload (view s) w \<and> view s' = Init4_view t w))) s"
  unfolding fouTunnel_Init4_def
  by (auto intro!: wp_ops simp: wp_simps netlink_posts init_keeps_def Init4_view_def
      autoload_same autoload_links upd_chain_def split: sum.splits)

lemma wp_Init6:
  "wp (fouTunnel_Init6 nl t) (\<lambda>r s'. env_err r \<and> init_keeps (view s) (view s') \<and>
    (\<forall>u. r = Inr u \<longrightarrow> (\<exists>w. autoload (view s) w \<and> view s' = Init6_view t w))) s"
  unfolding fouTunnel_Init6_def
  by (auto intro!: wp_ops simp: wp_simps netlink_posts init_keeps_def Init6_view_def
      autoload_same autoload_links upd_chain_def split: sum.splits)

lemma wp_Init_half:
  assumes m: "m = fouTunnel_Init4 nl t \<and> f = FAMILY_V4 \<or> m = fouTunnel_Init6 nl t \<and> f = FAMILY_V6"
  shows "wp (if b then m else ret ()) (\<lambda>r s'. env_err r \<and> init_keeps (view s) (view s') \<and>
    (\<forall>u. r = Inr u \<longrightarrow> (if b then family_done t f (view s) (view s')
                       else same_config (view s) (view s')))) s"
  using m Init4_view_done Init6_view_done
  by (auto intro!: wp_Init4 [THEN wp_conseq] wp_Init6 [THEN wp_conseq]
      simp: wp_simps init_keeps_def same_config_def)

lemma wp_Init_body:
  assumes fb: "fouDummy \<notin> fallback_devices"
  shows "wp (bindE (if local4 t \<noteq> nil_IP then fouTunnel_Init4 nl t else ret ()) (\<lambda>_.
      bindE (if local6 t \<noteq> nil_IP then fouTunnel_Init6 nl t else ret ()) (\<lambda>_.
      LinkAdd nl (Dummy (NewLinkAttrs\<lparr>la_Name := fouDummy\<rparr>)))))
    (\<lambda>r s'. env_err r \<and>
      (\<forall>n. n \<notin> insert fouDummy fallback_devices \<longrightarrow> v_links (view s') n = v_links (view s) n) \<and>
      v_rules (view s') = v_rules (view s) \<and> v_routes (view s') = v_routes (view s) \<and>
      (case r of
         Inl _ \<Rightarrow> v_links (view s') fouDummy = v_links (view s) fouDummy
       | Inr _ \<Rightarrow> v_links (view s') fouDummy \<noteq> None \<and> init_done t (view s) (view s'))) s"
proof (rule wp_seq [where R = "\<lambda>_ s1. init_keeps (view s) (view s1) \<and>
    (if serves t FAMILY_V4 then family_done t FAMILY_V4 (view s) (view s1)
     else same_config (view s) (view s1))"], goal_cases)
  case 1
  show ?case
    using fb by (intro wp_Init_half [where f = FAMILY_V4 and t = t, THEN wp_conseq])
      (auto simp: serves_def init_keeps_def split: sum.splits)
next
  case (2 u s1)
  show ?case
  proof (rule wp_seq [where R = "\<lambda>_ s2. init_keeps (view s) (view s2) \<and>
      (if serves t FAMILY_V6 then family_done t FAMILY_V6 (view s1) (view s2)
       else same_config (view s1) (view s2))"], goal_cases)
    case 1
    show ?case
      using fb 2 by (intro wp_Init_half [where f = FAMILY_V6 and t = t, THEN wp_conseq])
        (auto simp: serves_def init_keeps_def split: sum.splits)
  next
    case (2 u' s2)
    have "init_done t (view s) v" if "same_config (view s2) v" for v
      using 2 that \<open>init_keeps (view s) (view s1) \<and> _\<close> by (intro init_doneI) auto
    with 2 fb show ?case
      by (intro wp_LinkAdd_frame [THEN wp_conseq])
        (auto simp: NewLinkAttrs_def init_keeps_def links_frame_def same_config_def
          split: sum.splits)
  qed
qed

lemma wp_fouTunnel_Init:
  "wp (fouTunnel_Init nl t) (\<lambda>r s'. env_err r \<and>
    (\<forall>n. n \<notin> insert fouDummy fallback_devices \<longrightarrow> v_links (view s') n = v_links (view s) n) \<and>
    v_rules (view s') = v_rules (view s) \<and> v_routes (view s') = v_routes (view s) \<and>
    (case r of
       Inl _ \<Rightarrow> v_links (view s') fouDummy = v_links (view s) fouDummy
     | Inr _ \<Rightarrow> v_links (view s') fouDummy \<noteq> None \<and>
         (if v_links (view s) fouDummy = None then init_done t (view s) (view s')
          else view s' = view s))) s"
proof -
  have fb: "fouDummy \<notin> fallback_devices"
    by (simp add: fouDummy_def fallback_devices_def)
  show ?thesis
    unfolding fouTunnel_Init_def wp_bind
  proof (rule law_LinkByName [THEN wp_conseq], goal_cases)
    case (1 r s1)
    show ?case
    proof (cases "\<exists>e. r = Inl e \<and> is_LinkNotFoundError e")
      case True
      with 1 have "v_links (view s) fouDummy = None" "view s1 = view s"
        by (auto simp: LinkByName_post_def)
      with True show ?thesis
        using wp_Init_body [OF fb, of t s1, unfolded \<open>view s1 = view s\<close>] by auto
    next
      case False
      with 1 show ?thesis
        by (cases r) (auto simp: wp_return LinkByName_post_def)
    qed
  qed
qed

end

context netlink_reliable
begin

lemma wp_removeDevice_ok:
  "ok s \<Longrightarrow> wp (removeDevice nl n) (\<lambda>r s'. r = Inr () \<and> ok s' \<and>
    v_links (view s') n = None \<and> links_frame {n} (view s) (view s')) s"
  unfolding removeDevice_def
  by (auto intro!: ok_wp simp: wp_simps netlink_posts view_frames split: sum.splits option.splits)

lemma wp_setupDevice_ok:
  "ok s \<Longrightarrow> link_name l \<notin> fst ` renamed_fallbacks \<union> snd ` renamed_fallbacks \<Longrightarrow>
    wp (setupDevice nl l) (\<lambda>r s'. r = Inr () \<and> ok s') s"
  unfolding setupDevice_def configureDevice_def
  by (auto intro!: ok_wp simp: wp_simps netlink_posts split: sum.splits option.splits)

lemma wp_renameDevice_ok:
  assumes "ok s" "(n, m) \<in> renamed_fallbacks"
  shows "wp (renameDevice nl n m) (\<lambda>r s'. r = Inr () \<and> ok s') s"
  using assms ok_fallback [OF assms] unfolding renameDevice_def
  by (auto intro!: ok_wp simp: wp_simps netlink_posts split: sum.splits option.splits)

lemmas device_ok [wp_ops] =
  wp_removeDevice_ok [THEN wp_conseq] wp_setupDevice_ok [THEN wp_conseq]
  wp_renameDevice_ok [THEN wp_conseq]

lemma wp_ipip_half_ok:
  "ok s \<Longrightarrow> link_name l \<notin> fst ` renamed_fallbacks \<union> snd ` renamed_fallbacks \<Longrightarrow>
    (old, new) \<in> renamed_fallbacks \<Longrightarrow>
    wp (if b then bindE (errorf m1 (setupDevice nl l)) (\<lambda>_. errorf m2 (renameDevice nl old new))
        else errorf m3 (removeDevice nl (link_name l)))
      (\<lambda>r s'. r = Inr () \<and> ok s' \<and> (\<not> b \<longrightarrow> v_links (view s') (link_name l) = None)) s"
  by (auto intro!: device_ok simp: wp_simps split: sum.splits)

lemma wp_setupIPIPDevices_ok:
  assumes "ok s"
  shows "wp (setupIPIPDevices nl b4 b6) (\<lambda>r s'. r = Inr () \<and> ok s' \<and>
    (\<not> b4 \<longrightarrow> v_links (view s') ipip4Device = None) \<and>
    (\<not> b6 \<longrightarrow> v_links (view s') ipip6Device = None)) s"
proof -
  let ?l4 = "Iptun \<lparr>la_Name = ipip4Device, la_Index = 0, la_Up = False\<rparr> flowBased"
  let ?l6 = "Ip6tnl \<lparr>la_Name = ipip6Device, la_Index = 0, la_Up = False\<rparr> flowBased"
  have names: "link_name ?l4 = ipip4Device" "link_name ?l6 = ipip6Device" by simp_all
  have notin: "ipip4Device \<notin> fst ` renamed_fallbacks \<union> snd ` renamed_fallbacks"
    "ipip6Device \<notin> fst ` renamed_fallbacks \<union> snd ` renamed_fallbacks"
    "ipip4Device \<notin> {ipip6Device, ''ip6tnl0'', ''egress_ip6tnl''} \<union> fallback_devices"
    by (auto simp: ipip4Device_def ipip6Device_def renamed_fallbacks_def fallback_devices_def)
  have ren: "(''tunl0'', ''egress_tunl'') \<in> renamed_fallbacks"
    "(''ip6tnl0'', ''egress_ip6tnl'') \<in> renamed_fallbacks"
    by (auto simp: renamed_fallbacks_def)
  note h4 = wp_ipip_half_ok [where l = ?l4 and b = b4, unfolded names, OF _ notin(1) ren(1)]
  note h6 = wp_conj [OF
      wp_ipip_half_ok [where l = ?l6 and b = b6, unfolded names, OF _ notin(2) ren(2)]
      wp_ipip_half [where l = ?l6 and b = b6 and old = "''ip6tnl0''" and new = "''egress_ip6tnl''",
        unfolded names]]
  show ?thesis
    unfolding setupIPIPDevices_def
  proof (rule wp_seq [where R = "\<lambda>_ s1. ok s1 \<and> (\<not> b4 \<longrightarrow> v_links (view s1) ipip4Device = None)"],
      goal_cases)
    case 1
    show ?case by (rule wp_conseq [OF h4 [OF assms]]) auto
  next
    case (2 u s1)
    then have "ok s1" by simp
    with 2 show ?case
      by (intro wp_conseq [OF h6]) (use notin(3) in \<open>auto simp: links_frame_def\<close>)
  qed
qed

text \<open>Adding a peer succeeds, and takes down the other family's IPIP device.\<close>

lemma wp_addPeer_shape_ok:
  assumes n: "link_name l0 = n" "n \<notin> ipip_names" and "ok s"
  shows "wp (do {
       r \<leftarrow> LinkByName nl n;
       case r of
         Inr l \<Rightarrow> ret l
       | Inl e \<Rightarrow>
           if \<not> is_LinkNotFoundError e then fail (wrap m1 e)
           else bindE (errorf m2 (LinkAdd nl l0)) (\<lambda>_.
                bindE (errorf m3 (setupIPIPDevices nl b4 b6)) (\<lambda>_. LinkByName nl n))
     }) (\<lambda>r s'. ok s' \<and> (\<exists>l. r = Inr l) \<and> (v_links (view s) n = None \<longrightarrow>
       (\<not> b4 \<longrightarrow> v_links (view s') ipip4Device = None) \<and>
       (\<not> b6 \<longrightarrow> v_links (view s') ipip6Device = None))) s"
proof -
  have fb: "link_name l0 \<notin> fst ` renamed_fallbacks \<union> snd ` renamed_fallbacks"
      "n \<notin> fallback_devices"
    using n by (auto simp: renamed_fallbacks_def ipip_names_def fallback_devices_def)
  note ipip = wp_conj [OF wp_setupIPIPDevices_ok wp_setupIPIPDevices, THEN wp_conseq]
  show ?thesis
    using n(1) fb \<open>ok s\<close> n(2)
    by (auto intro!: ok_wp ipip
        simp: wp_simps netlink_posts autoload_links links_frame_def split: sum.splits option.splits)
qed

lemma wp_AddPeer_ok:
  assumes "ok s" "supports t addr"
  shows "wp (AddPeer nl t addr) (\<lambda>r s'. ok s' \<and> (\<exists>l. r = Inr l) \<and>
    (v_links (view s) (fouName addr) = None \<longrightarrow>
      (To4 addr = nil_IP \<longrightarrow> v_links (view s') ipip4Device = None) \<and>
      (To4 addr \<noteq> nil_IP \<longrightarrow> v_links (view s') ipip6Device = None))) s"
proof -
  note shape = wp_addPeer_shape_ok [where n = "fouName addr", OF _ fouName_not_device(1) assms(1),
      THEN wp_conseq]
  show ?thesis
  proof (cases "To4 addr = nil_IP")
    case True
    with assms(2) show ?thesis
      unfolding AddPeer_def addPeer6_def
      by (simp add: supports_def) (rule shape, auto)
  next
    case False
    then have nm: "fouName (To4 addr) = fouName addr" by simp
    from False assms(2) show ?thesis
      unfolding AddPeer_def addPeer4_def nm
      by (simp add: supports_def) (rule shape, auto)
  qed
qed

lemma wp_DelPeer_ok: "ok s \<Longrightarrow> wp (DelPeer nl t addr) (\<lambda>r s'. ok s' \<and> r = Inr ()) s"
  unfolding DelPeer_def
  by (auto intro!: ok_wp simp: wp_simps netlink_posts split: sum.splits option.splits)

end

context netlink_reliable
begin

lemma AddPeer_run:
  "ok s \<Longrightarrow> supports t a \<Longrightarrow> \<exists>l s'. run_state (AddPeer nl t a) s = (Inr l, s') \<and> ok s'"
  using wp_ex [OF wp_AddPeer_ok] by fastforce

lemma DelPeer_run: "ok s \<Longrightarrow> \<exists>s'. run_state (DelPeer nl t a) s = (Inr (), s') \<and> ok s'"
  using wp_ex [OF wp_DelPeer_ok] by fastforce

end

section \<open>The interface FoUTunnel\<close>

text \<open>
  What the clients of the Go interface \<^verbatim>\<open>FoUTunnel\<close> rely on, in terms of the set of tunnels a
  state has: \<^verbatim>\<open>AddPeer\<close> reports a family mismatch exactly for the families not served, a success
  adds the peer's tunnel and nothing else, an error adds at most that; \<^verbatim>\<open>DelPeer\<close> removes that
  tunnel or, on an error, nothing.
\<close>

locale fou_peers =
  fixes ft :: "'s FoUTunnel" and tunnels :: "'s \<Rightarrow> string set" and served :: "ip \<Rightarrow> bool"
  assumes peer_added: "wp (ft_AddPeer ft a) (\<lambda>r s'. case r of
      Inl e \<Rightarrow> (Is_ErrIPFamilyMismatch e \<longleftrightarrow> \<not> served a) \<and> (\<not> served a \<longrightarrow> s' = s) \<and>
        (tunnels s' = tunnels s \<or> tunnels s' = insert (fouName a) (tunnels s))
    | Inr l \<Rightarrow> served a \<and> tunnels s' = insert (fouName a) (tunnels s)) s"
    and peer_deleted: "wp (ft_DelPeer ft a) (\<lambda>r s'. case r of
      Inl e \<Rightarrow> tunnels s' = tunnels s
    | Inr _ \<Rightarrow> tunnels s' = tunnels s - {fouName a}) s"
    and served_Equal: "Equal a b \<Longrightarrow> served a \<longleftrightarrow> served b"
begin

lemmas tunnel_wp [wp_ops] = peer_added [THEN wp_conseq] peer_deleted [THEN wp_conseq]

text \<open>Adding a new peer and deleting it again leaves the tunnels as they were.\<close>

lemma add_del:
  "fouName a \<notin> tunnels s \<Longrightarrow>
    wp (bindE (ft_AddPeer ft a) (\<lambda>_. ft_DelPeer ft a))
      (\<lambda>r s'. \<forall>u. r = Inr u \<longrightarrow> tunnels s' = tunnels s) s"
  by (auto intro!: tunnel_wp simp: wp_simps split: sum.splits)

end

definition fou_links :: "kview \<Rightarrow> string set" where
  "fou_links v = {n. (HasPrefix n FoU4LinkPrefix \<or> HasPrefix n FoU6LinkPrefix) \<and> v_links v n \<noteq> None}"

lemma ipip_not_fou: "n \<in> ipip_names \<Longrightarrow> \<not> HasPrefix n FoU4LinkPrefix \<and> \<not> HasPrefix n FoU6LinkPrefix"
  by (auto simp: ipip_names_def fallback_devices_def ipip4Device_def ipip6Device_def HasPrefix_def
      FoU4LinkPrefix_def FoU6LinkPrefix_def)

lemma fou_links_mem: "fouName a \<in> fou_links v \<longleftrightarrow> v_links v (fouName a) \<noteq> None"
  using fouName_prefix [of a] by (auto simp: fou_links_def)

lemma fou_links_frame:
  assumes "links_frame (insert (fouName a) ipip_names) v v'"
  shows "fou_links v' = (if v_links v' (fouName a) = None then fou_links v - {fouName a}
    else insert (fouName a) (fou_links v))"
proof (rule set_eqI)
  fix n
  have "n \<noteq> fouName a \<Longrightarrow> n \<in> fou_links v' \<longleftrightarrow> n \<in> fou_links v"
    using assms ipip_not_fou [of n] by (auto simp: links_frame_def fou_links_def)
  then show "n \<in> fou_links v' \<longleftrightarrow> n \<in> (if v_links v' (fouName a) = None then fou_links v - {fouName a}
      else insert (fouName a) (fou_links v))"
    using fou_links_mem [of a v'] by (cases "n = fouName a") auto
qed

context netlink_laws
begin

lemma AddPeer_tunnels:
  "wp (AddPeer nl t a) (\<lambda>r s'. case r of
      Inl e \<Rightarrow> (Is_ErrIPFamilyMismatch e \<longleftrightarrow> \<not> supports t a) \<and> (\<not> supports t a \<longrightarrow> s' = s) \<and>
        (fou_links (view s') = fou_links (view s) \<or>
         fou_links (view s') = insert (fouName a) (fou_links (view s)))
    | Inr l \<Rightarrow> supports t a \<and> fou_links (view s') = insert (fouName a) (fou_links (view s))) s"
proof (rule wp_conseq [OF wp_AddPeer], goal_cases)
  case (1 r s')
  show ?case
  proof (cases "supports t a")
    case True
    with 1 have "links_frame (insert (fouName a) ipip_names) (view s) (view s')"
      by (simp add: peer_post_def)
    from fou_links_frame [OF this] 1 True show ?thesis
      using fou_links_mem [of a "view s"]
      by (auto simp: peer_post_def split: sum.splits if_splits)
  qed (use 1 in simp)
qed

lemma DelPeer_tunnels:
  "wp (DelPeer nl t a) (\<lambda>r s'. case r of
      Inl e \<Rightarrow> fou_links (view s') = fou_links (view s)
    | Inr _ \<Rightarrow> fou_links (view s') = fou_links (view s) - {fouName a}) s"
proof (rule wp_conseq [OF wp_DelPeer], goal_cases)
  case (1 r s')
  show ?case
  proof (cases r)
    case (Inr u)
    with 1 have "links_frame (insert (fouName a) ipip_names) (view s) (view s')"
      "v_links (view s') (fouName a) = None"
      by (auto simp: links_frame_def)
    with Inr fou_links_frame [OF this(1)] show ?thesis by simp
  qed (use 1 in simp)
qed

end

text \<open>The tunnel object of this file provides that interface on any kernel that keeps the contract.\<close>

sublocale netlink_laws \<subseteq> fou: fou_peers "as_FoUTunnel nl t" "\<lambda>s. fou_links (view s)" "supports t" for t
  by unfold_locales
    (simp_all add: as_FoUTunnel_def AddPeer_tunnels DelPeer_tunnels supports_def Equal_To4)

section \<open>Properties\<close>

text \<open>A tunnel object for the examples: IPv4 only, and both families.\<close>

definition tun4 :: fouTunnel where
  "tun4 = \<lparr>sport = 5555, dport = 5555, local4 = [10, 1, 1, 254], local6 = nil_IP\<rparr>"

definition tun46 :: fouTunnel where
  "tun46 = tun4\<lparr>local6 := [253, 0, 0, 0, 0, 0, 0, 0, 0, 0, 0, 0, 0, 0, 0, 254]\<rparr>"

definition peer4 :: ip where "peer4 = [10, 1, 2, 3]"
definition peer6 :: ip where "peer6 = [253, 0, 0, 0, 0, 0, 0, 0, 0, 0, 0, 0, 0, 0, 0, 1]"

lemma example_supports [simp]:
  "supports tun4 peer4" "\<not> supports tun4 peer6" "supports tun46 peer4" "supports tun46 peer6"
  "To4 peer4 = peer4" "To4 peer6 = nil_IP" "peer4 \<noteq> nil_IP" "peer6 \<noteq> nil_IP"
  by (simp_all add: supports_def tun4_def tun46_def peer4_def peer6_def To4_def v4InV6Prefix_def)

lemma mem_init_ok [simp]: "mem_ok mem_init" "v_links (mem_view mem_init) n = None"
  by (simp_all add: mem_ok_def has_link_def mem_init_def mem_view_def)

text \<open>
  C16. Every tunnel name is 13 characters long, inside the kernel's limit of 15, and its prefix
  tells the family; no tunnel name is the name of a device the component manages otherwise.  The
  name determines an IPv4 peer: for an address with an IPv4 form it equals that of another address
  exactly when \<^verbatim>\<open>net.IP.Equal\<close> holds of the two, so two IPv4 peers never share a device, nor does an
  IPv4 peer share one with an IPv6 peer.
\<close>

theorem fouName_spec:
  "length (fouName a) = 13 \<and>
   HasPrefix (fouName a) (if To4 a \<noteq> nil_IP then FoU4LinkPrefix else FoU6LinkPrefix) \<and>
   fouName a \<notin> {fouDummy, ipip4Device, ipip6Device, ''tunl0'', ''ip6tnl0'', ''egress_tunl'',
     ''egress_ip6tnl''} \<and>
   (To4 a \<noteq> nil_IP \<longrightarrow> (\<forall>b. fouName a = fouName b \<longleftrightarrow> Equal a b))"
proof -
  have "length (fouName a) = 13"
    using length_To4 [of a]
    by (simp add: fouName_def FoU4LinkPrefix_def FoU6LinkPrefix_def length_sha1_Sum)
  then show ?thesis
    using fouName_prefix [of a] fouName_not_device [of a] fouName_v4 [of a]
    by (auto simp: ipip_names_def fallback_devices_def)
qed

theorem fouName_spec_witness:
  "To4 peer4 \<noteq> nil_IP \<and> (fouName peer4 = fouName (v4InV6Prefix @ peer4)) \<and>
   fouName peer4 \<noteq> fouName peer6"
  using fouName_spec [of peer4]
  by (simp add: Equal_iff_To4) (simp add: To4_def peer4_def)

text \<open>
  C17. \<^verbatim>\<open>AddPeer\<close> returns \<^verbatim>\<open>ErrIPFamilyMismatch\<close> exactly when the tunnel object has no local
  address of the peer's family, and then it has touched nothing.  When it returns a link, the
  kernel has that link under the peer's name.  An existing link is returned with nothing changed,
  so that adding a peer again is without effect; a new one is the FoU tunnel to the peer (ports,
  TTL 225, direct encapsulation, remote and local address), the IPIP device of its family is up,
  and apart from it only the IPIP and fallback devices can have changed.
\<close>

theorem AddPeer_spec:
  assumes "netlink_laws nl view" "run_state (AddPeer nl t a) s = (r, s')"
  shows "((\<exists>e. r = Inl e \<and> Is_ErrIPFamilyMismatch e) \<longleftrightarrow> \<not> supports t a) \<and>
    (\<not> supports t a \<longrightarrow> s' = s) \<and>
    (\<forall>l. r = Inr l \<longrightarrow> v_links (view s') (fouName a) = Some l \<and>
      (if v_links (view s) (fouName a) = None
       then made_from (peer_link t a) l \<and>
         link_is_up (view s') (if To4 a \<noteq> nil_IP then ipip4Device else ipip6Device) \<and>
         links_frame (insert (fouName a) ipip_names) (view s) (view s')
       else view s' = view s))"
  using wp_runD [OF netlink_laws.wp_AddPeer [OF assms(1)] assms(2)]
  by (cases r) (auto simp: peer_post_def split: if_splits)

theorem AddPeer_spec_witness:
  "(\<exists>l s'. run_state (AddPeer mem_ops tun4 peer4) mem_init = (Inr l, s') \<and>
     v_links (mem_view s') (fouName peer4) = Some l \<and> made_from (peer_link tun4 peer4) l \<and>
     link_is_up (mem_view s') ipip4Device) \<and>
   (\<exists>e. run_state (AddPeer mem_ops tun4 peer6) mem_init = (Inl e, mem_init) \<and> Is_ErrIPFamilyMismatch e)"
proof
  obtain l s' where run: "run_state (AddPeer mem_ops tun4 peer4) mem_init = (Inr l, s')"
    using memr.AddPeer_run [of mem_init tun4 peer4] by auto
  with AddPeer_spec [OF mem.netlink_laws_axioms run]
  show "\<exists>l s'. run_state (AddPeer mem_ops tun4 peer4) mem_init = (Inr l, s') \<and>
     v_links (mem_view s') (fouName peer4) = Some l \<and> made_from (peer_link tun4 peer4) l \<and>
     link_is_up (mem_view s') ipip4Device" by auto
  show "\<exists>e. run_state (AddPeer mem_ops tun4 peer6) mem_init = (Inl e, mem_init) \<and> Is_ErrIPFamilyMismatch e"
    using AddPeer_spec [OF mem.netlink_laws_axioms, of tun4 peer6 mem_init]
    by (cases "run_state (AddPeer mem_ops tun4 peer6) mem_init") auto
qed

text \<open>
  C6. \<^verbatim>\<open>AddPeer\<close> and \<^verbatim>\<open>DelPeer\<close> implement insertion into and removal from the set of FoU tunnels
  of the kernel: a successful \<^verbatim>\<open>AddPeer\<close> inserts the peer's name, a successful \<^verbatim>\<open>DelPeer\<close> removes
  it (it succeeds for an absent peer too), a failed \<^verbatim>\<open>DelPeer\<close> changes no tunnel, and a \<^verbatim>\<open>DelPeer\<close>
  after the \<^verbatim>\<open>AddPeer\<close> of a new peer restores the set.
\<close>

theorem peers_refine_set:
  assumes "netlink_laws nl view" "run_state (AddPeer nl t a) s = (r, s1)"
    "run_state (DelPeer nl t a) s1 = (r', s2)"
  shows "(\<forall>l. r = Inr l \<longrightarrow> fou_links (view s1) = insert (fouName a) (fou_links (view s))) \<and>
    (\<forall>u. r' = Inr u \<longrightarrow> fou_links (view s2) = fou_links (view s) - {fouName a}) \<and>
    (\<forall>e. r' = Inl e \<longrightarrow> fou_links (view s2) = fou_links (view s1))"
  using wp_runD [OF netlink_laws.AddPeer_tunnels [OF assms(1)] assms(2)]
    wp_runD [OF netlink_laws.DelPeer_tunnels [OF assms(1)] assms(3)]
  by (auto split: sum.splits)

theorem peers_refine_set_witness:
  "\<exists>l s1 s2. run_state (AddPeer mem_ops tun4 peer4) mem_init = (Inr l, s1) \<and>
     run_state (DelPeer mem_ops tun4 peer4) s1 = (Inr (), s2) \<and>
     fou_links (mem_view s1) = {fouName peer4} \<and> fou_links (mem_view s2) = {}"
proof -
  obtain l s1 where 1: "run_state (AddPeer mem_ops tun4 peer4) mem_init = (Inr l, s1)" "mem_ok s1"
    using memr.AddPeer_run [of mem_init tun4 peer4] by auto
  obtain s2 where 2: "run_state (DelPeer mem_ops tun4 peer4) s1 = (Inr (), s2)"
    using memr.DelPeer_run [OF 1(2), of tun4 peer4] by auto
  have "fou_links (mem_view mem_init) = {}" by (simp add: fou_links_def)
  with peers_refine_set [OF mem.netlink_laws_axioms 1(1) 2] 1 2 show ?thesis by auto
qed

text \<open>
  C18. \<^verbatim>\<open>fouTunnel.Init\<close> does nothing where the dummy device is present.  Otherwise a success has
  made the device and, for each family served, added one FoU listener on the port, the sysctls and
  the checksum rule at the head of the mangle chain, and nothing else; a failure leaves the
  device as it was, so that the next start initialises again.  It changes no rule, no route
  and no link but the dummy and the fallback devices.
\<close>

theorem fouTunnel_Init_spec:
  assumes "netlink_laws nl view" "run_state (fouTunnel_Init nl t) s = (r, s')"
  shows "(case r of
      Inl _ \<Rightarrow> v_links (view s') fouDummy = v_links (view s) fouDummy
    | Inr _ \<Rightarrow> v_links (view s') fouDummy \<noteq> None \<and>
        (if v_links (view s) fouDummy = None then init_done t (view s) (view s')
         else view s' = view s)) \<and>
    v_rules (view s') = v_rules (view s) \<and> v_routes (view s') = v_routes (view s) \<and>
    (\<forall>n. n \<notin> insert fouDummy fallback_devices \<longrightarrow> v_links (view s') n = v_links (view s) n)"
  using wp_runD [OF netlink_laws.wp_fouTunnel_Init [OF assms(1)] assms(2)] by simp

theorem fouTunnel_Init_spec_witness:
  "\<exists>r s'. run_state (fouTunnel_Init mem_ops tun46) mem_init = (r, s') \<and> r = Inr () \<and>
     init_done tun46 (mem_view mem_init) (mem_view s')"
proof -
  obtain r s' where r: "run_state (fouTunnel_Init mem_ops tun46) mem_init = (r, s')"
    by (cases "run_state (fouTunnel_Init mem_ops tun46) mem_init")
  moreover have "r = Inr ()"
    using r by (simp add: fouTunnel_Init_def fouTunnel_Init4_def fouTunnel_Init6_def mem_ops_def
        mem_op_def mem_LinkByName_def mem_init_def run_bindE run_errorf tun46_def tun4_def
        modProbe_def mem_FouAdd_def mem_Sysctl_def mem_chain_def mem_LinkAdd_def load_module_def
        NewLinkAttrs_def Let_def)
  ultimately show ?thesis
    using fouTunnel_Init_spec [OF mem.netlink_laws_axioms, of tun46 mem_init r s'] by auto
qed

text \<open>
  Adding a peer that is new takes away the IPIP device of the other family: after a new IPv6 peer
  there is no \<^verbatim>\<open>egress_ipip4\<close>, after a new IPv4 peer no \<^verbatim>\<open>egress_ipip6\<close>, whatever peers of that family
  there are.
\<close>

lemma AddPeer_removes_other_device:
  assumes "netlink_reliable nl view ok" "ok s" "supports t a" "v_links (view s) (fouName a) = None"
    "run_state (AddPeer nl t a) s = (r, s')"
  shows "v_links (view s') (if To4 a \<noteq> nil_IP then ipip6Device else ipip4Device) = None"
  using wp_runD [OF netlink_reliable.wp_AddPeer_ok [OF assms(1-3)] assms(5)] assms(4) by simp

lemma AddPeer_removes_other_device_example:
  "\<exists>l s1 l' s2. run_state (AddPeer mem_ops tun46 peer4) mem_init = (Inr l, s1) \<and>
     link_is_up (mem_view s1) ipip4Device \<and>
     run_state (AddPeer mem_ops tun46 peer6) s1 = (Inr l', s2) \<and>
     v_links (mem_view s2) ipip4Device = None"
proof -
  obtain l s1 where 1: "run_state (AddPeer mem_ops tun46 peer4) mem_init = (Inr l, s1)" "mem_ok s1"
    using memr.AddPeer_run [of mem_init tun46 peer4] by auto
  obtain l' s2 where 2: "run_state (AddPeer mem_ops tun46 peer6) s1 = (Inr l', s2)"
    using memr.AddPeer_run [OF 1(2), of tun46 peer6] by auto
  have ne: "fouName peer6 \<noteq> fouName peer4"
    using fouName_prefix(1) [of peer4] fouName_prefix(1) [of peer6] by auto
  note post = wp_runD [OF mem.wp_AddPeer 1(1)]
  have up: "link_is_up (mem_view s1) ipip4Device"
    using post by (simp add: peer_post_def)
  have "v_links (mem_view s1) (fouName peer6) = None"
    using post ne fouName_not_device(1) [of peer6] by (simp add: peer_post_def links_frame_def)
  from AddPeer_removes_other_device [OF memr.netlink_reliable_axioms 1(2) _ this 2] up 1 2
  show ?thesis by auto
qed

end
