(* ===== verification/Egress_Nat.thy ===== *)
theory Egress_Nat
  imports Fou
begin

text \<open>
  \<^verbatim>\<open>pkg/founat/egress.go\<close>: NAT and routing on an egress pod.  \<^verbatim>\<open>Init\<close> masquerades what leaves
  by the pod's interface and sends what comes back in by it to a table of its own; \<^verbatim>\<open>AddClient\<close>
  puts a host route for each client into that table.
\<close>

section \<open>Definitions\<close>

definition egressTableID :: int where "egressTableID = 118"
definition egressProtocolID :: int where "egressProtocolID = 30"
definition egressRulePrio :: int where "egressRulePrio = 2000"
definition egressDummy :: string where "egressDummy = ''egress-dummy''"

lemmas egress_consts = egressTableID_def egressProtocolID_def egressRulePrio_def

record 's Egress =
  eg_Init :: "('s, unit) go"
  eg_AddClient :: "ip \<Rightarrow> link \<Rightarrow> ('s, unit) go"

record egress =
  iface :: string
  eg_ipv4 :: ip
  eg_ipv6 :: ip

definition newRule :: "egress \<Rightarrow> family \<Rightarrow> rule" where
  "newRule e f = \<lparr>r_Family = f, r_Table = egressTableID, r_Priority = egressRulePrio,
     r_IifName = iface e, r_Dst = None\<rparr>"

definition masquerade :: "'s netlink \<Rightarrow> egress \<Rightarrow> ip \<Rightarrow> string list" where
  "masquerade nl e addr =
    [''!'', ''-s'', IPNet_String (NewIPNet nl addr), ''-o'', iface e, ''-j'', ''MASQUERADE'']"

text \<open>One half of \<^verbatim>\<open>Init\<close>; the two differ in the family and the address.\<close>

definition egress_Init_family :: "'s netlink \<Rightarrow> egress \<Rightarrow> family \<Rightarrow> ip \<Rightarrow> ('s, unit) go" where
  "egress_Init_family nl e f addr =
    bindE (NewWithProtocol nl f) (\<lambda>ipt.
    bindE (errorf ''failed to setup masquerade rule''
      (ipt_Append nl ipt ''nat'' ''POSTROUTING'' (masquerade nl e addr))) (\<lambda>_.
    errorf ''netlink: failed to add egress rule'' (RuleAdd nl (newRule e f))))"

definition egress_Init :: "'s netlink \<Rightarrow> egress \<Rightarrow> ('s, unit) go" where
  "egress_Init nl e = do {
    r \<leftarrow> LinkByName nl egressDummy;
    case r of
      Inr _ \<Rightarrow> ret ()
    | Inl err \<Rightarrow>
        if \<not> is_LinkNotFoundError err then fail err
        else
          bindE (if eg_ipv4 e \<noteq> nil_IP then egress_Init_family nl e FAMILY_V4 (eg_ipv4 e) else ret ()) (\<lambda>_.
          bindE (if eg_ipv6 e \<noteq> nil_IP then egress_Init_family nl e FAMILY_V6 (eg_ipv6 e) else ret ()) (\<lambda>_.
          LinkAdd nl (Dummy \<lparr>la_Name = egressDummy, la_Index = 0, la_Up = False\<rparr>)))
  }"

text \<open>The loop over the routes of the table: is there one to this address?\<close>

fun has_route_to :: "ip \<Rightarrow> route list \<Rightarrow> bool" where
  "has_route_to addr [] = False"
| "has_route_to addr (r # rs) =
    (case rt_Dst r of
       None \<Rightarrow> has_route_to addr rs
     | Some d \<Rightarrow> if Equal (IP d) addr then True else has_route_to addr rs)"

definition client_route :: "'s netlink \<Rightarrow> ip \<Rightarrow> link \<Rightarrow> route" where
  "client_route nl addr l = \<lparr>rt_Table = egressTableID, rt_Dst = Some (NewIPNet nl addr),
     rt_LinkIndex = link_index l, rt_Protocol = egressProtocolID\<rparr>"

definition AddClient :: "'s netlink \<Rightarrow> egress \<Rightarrow> ip \<Rightarrow> link \<Rightarrow> ('s, unit) go" where
  "AddClient nl e addr l =
    (if To4 addr \<noteq> nil_IP \<and> eg_ipv4 e = nil_IP then fail ErrIPFamilyMismatch
     else if To4 addr = nil_IP \<and> eg_ipv6 e = nil_IP then fail ErrIPFamilyMismatch
     else
       let f = (if To4 addr = nil_IP then FAMILY_V6 else FAMILY_V4) in
       bindE (errorf ''netlink: failed to list routes in table 118''
         (RouteListFiltered nl f egressTableID)) (\<lambda>routes.
       if has_route_to addr routes then ret ()
       else errorf (''netlink: failed to add '' @ IP_String addr @ '' to table 118'')
         (RouteAdd nl (client_route nl addr l))))"

definition as_Egress :: "'s netlink \<Rightarrow> egress \<Rightarrow> 's Egress" where
  "as_Egress nl e = \<lparr>eg_Init = egress_Init nl e, eg_AddClient = AddClient nl e\<rparr>"

definition NewEgress :: "'s netlink \<Rightarrow> string \<Rightarrow> ip \<Rightarrow> ip \<Rightarrow> err + 's Egress" where
  "NewEgress nl ifname ipv4 ipv6 =
    (if ipv4 \<noteq> nil_IP \<and> To4 ipv4 = nil_IP then Inl (Panic ''invalid IPv4 address'')
     else if ipv6 \<noteq> nil_IP \<and> To4 ipv6 \<noteq> nil_IP then Inl (Panic ''invalid IPv6 address'')
     else Inr (as_Egress nl \<lparr>iface = ifname, eg_ipv4 = ipv4, eg_ipv6 = ipv6\<rparr>))"

section \<open>What the operations do\<close>

definition eg_serves :: "egress \<Rightarrow> family \<Rightarrow> bool" where
  "eg_serves e f = (case f of FAMILY_V4 \<Rightarrow> eg_ipv4 e \<noteq> nil_IP | FAMILY_V6 \<Rightarrow> eg_ipv6 e \<noteq> nil_IP)"

text \<open>A route to the host \<open>a\<close> in the egress table, as the loop of \<^verbatim>\<open>AddClient\<close> recognises it.\<close>

definition routes_to :: "ip \<Rightarrow> route \<Rightarrow> bool" where
  "routes_to a x \<longleftrightarrow> rt_Table x = egressTableID \<and> (\<exists>d. rt_Dst x = Some d \<and> Equal (IP d) a)"

definition has_client :: "kview \<Rightarrow> ip \<Rightarrow> bool" where
  "has_client v a \<longleftrightarrow> (\<exists>x. (ip_family a, x) \<in># v_routes v \<and> routes_to a x)"

lemma has_route_to_iff: "has_route_to a rs \<longleftrightarrow> (\<exists>x \<in> set rs. \<exists>d. rt_Dst x = Some d \<and> Equal (IP d) a)"
  by (induction rs) (auto split: option.splits)

text \<open>The loop over the listed routes finds what the table has.\<close>

lemma has_route_to_listed:
  assumes "mset (map (Pair (ip_family a)) rs) =
    filter_mset (\<lambda>(g, x). g = ip_family a \<and> rt_Table x = egressTableID) (v_routes v)"
  shows "has_route_to a rs \<longleftrightarrow> has_client v a"
  using arg_cong [OF assms, of set_mset]
  by (auto simp: has_route_to_iff has_client_def routes_to_def set_eq_iff image_iff)

lemma AddClient_eq:
  "AddClient nl e a l =
    (if eg_serves e (ip_family a) then
       bindE (errorf ''netlink: failed to list routes in table 118''
         (RouteListFiltered nl (ip_family a) egressTableID)) (\<lambda>routes.
       if has_route_to a routes then ret ()
       else errorf (''netlink: failed to add '' @ IP_String a @ '' to table 118'')
         (RouteAdd nl (client_route nl a l)))
     else fail ErrIPFamilyMismatch)"
  by (simp add: AddClient_def eg_serves_def ip_family_def)

lemma Equal_To4_self: "To4 a \<noteq> nil_IP \<Longrightarrow> Equal (To4 a) a"
  by (simp add: Equal_iff_To4)

lemma full_mask: "\<not> set (CIDRMask 32 32) \<subseteq> {0}" "\<not> set (CIDRMask 128 128) \<subseteq> {0}"
  by (simp_all add: CIDRMask_def mask_byte_def upt_rec)

text \<open>The effect of adding a new client.\<close>

definition client_view :: "'s netlink \<Rightarrow> ip \<Rightarrow> link \<Rightarrow> kview \<Rightarrow> kview" where
  "client_view nl a l v =
    v\<lparr>v_routes := add_mset (ip_family a, kernel_route (client_route nl a l)) (v_routes v)\<rparr>"

context netlink_laws
begin

lemma kernel_dst_client:
  "\<exists>d. kernel_dst (Some (NewIPNet nl a)) = Some d \<and> Equal (IP d) a"
  using full_mask by (auto simp: kernel_dst_def law_NewIPNet Equal_To4_self)

lemma client_route_family: "route_family (client_route nl a l) = ip_family a"
  by (simp add: client_route_def route_family_def law_NewIPNet)

lemma client_route_to: "routes_to a (kernel_route (client_route nl a l))"
  using kernel_dst_client [of a] by (auto simp: routes_to_def client_route_def)

lemma wp_AddClient:
  "wp (AddClient nl e a l) (\<lambda>r s'.
    if eg_serves e (ip_family a)
    then env_err r \<and> (case r of
        Inl _ \<Rightarrow> view s' = view s
      | Inr _ \<Rightarrow> view s' = (if has_client (view s) a then view s else client_view nl a l (view s)))
    else r = Inl ErrIPFamilyMismatch \<and> s' = s) s"
  unfolding AddClient_eq
  by (auto intro!: law_RouteListFiltered [THEN wp_conseq] law_RouteAdd [THEN wp_conseq]
      simp: wp_simps RouteListFiltered_post_def RouteAdd_post_def has_route_to_listed
        client_route_family client_view_def split: sum.splits)

lemma has_client_view: "has_client (client_view nl a l v) a"
  using client_route_to by (auto simp: has_client_def client_view_def)

end

definition egress_step :: "'s netlink \<Rightarrow> egress \<Rightarrow> family \<Rightarrow> kview \<Rightarrow> kview" where
  "egress_step nl e f v = (if eg_serves e f
     then (upd_chain f ''nat'' ''POSTROUTING''
        (\<lambda>xs. xs @ [masquerade nl e (case f of FAMILY_V4 \<Rightarrow> eg_ipv4 e | FAMILY_V6 \<Rightarrow> eg_ipv6 e)]) v)
        \<lparr>v_rules := add_mset (newRule e f) (v_rules v)\<rparr>
     else v)"

text \<open>What a first \<^verbatim>\<open>Init\<close> makes of the rules and chains, for all families of the pod.\<close>

definition egress_init_view :: "'s netlink \<Rightarrow> egress \<Rightarrow> kview \<Rightarrow> kview" where
  "egress_init_view nl e v = egress_step nl e FAMILY_V6 (egress_step nl e FAMILY_V4 v)"

lemma egress_step_links [simp]:
  "v_links (egress_step nl e f v) = v_links v" "v_routes (egress_step nl e f v) = v_routes v"
  by (simp_all add: egress_step_def upd_chain_def)

lemma kernel_newRule [simp]: "kernel_rule (newRule e f) = newRule e f"
  by (simp add: kernel_rule_def kernel_dst_def newRule_def)

context netlink_laws
begin

lemma wp_egress_half:
  "f = FAMILY_V4 \<and> a = eg_ipv4 e \<or> f = FAMILY_V6 \<and> a = eg_ipv6 e \<Longrightarrow>
    wp (if a \<noteq> nil_IP then egress_Init_family nl e f a else ret ()) (\<lambda>r s'.
      v_links (view s') = v_links (view s) \<and> v_routes (view s') = v_routes (view s) \<and>
      (\<forall>u. r = Inr u \<longrightarrow> view s' = egress_step nl e f (view s))) s"
  unfolding egress_Init_family_def
  by (auto intro!: law_NewWithProtocol [THEN wp_conseq] law_ipt_Append [THEN wp_conseq]
      law_RuleAdd [THEN wp_conseq]
      simp: wp_simps ipt_Append_post_def RuleAdd_post_def egress_step_def upd_chain_def eg_serves_def
      split: sum.splits)

lemma wp_egress_body:
  "wp (bindE (if eg_ipv4 e \<noteq> nil_IP then egress_Init_family nl e FAMILY_V4 (eg_ipv4 e) else ret ()) (\<lambda>_.
      bindE (if eg_ipv6 e \<noteq> nil_IP then egress_Init_family nl e FAMILY_V6 (eg_ipv6 e) else ret ()) (\<lambda>_.
      LinkAdd nl (Dummy \<lparr>la_Name = egressDummy, la_Index = 0, la_Up = False\<rparr>)))) (\<lambda>r s'.
    v_routes (view s') = v_routes (view s) \<and>
    (\<forall>n. n \<notin> insert egressDummy fallback_devices \<longrightarrow> v_links (view s') n = v_links (view s) n) \<and>
    (case r of
       Inl _ \<Rightarrow> v_links (view s') egressDummy = v_links (view s) egressDummy
     | Inr _ \<Rightarrow> v_links (view s') egressDummy \<noteq> None \<and>
         view s' = (egress_init_view nl e (view s))\<lparr>v_links := v_links (view s')\<rparr>)) s"
  (is "wp _ ?Q s")
proof -
  have fb: "egressDummy \<notin> fallback_devices" by (simp add: egressDummy_def fallback_devices_def)
  have add: "wp (LinkAdd nl (Dummy \<lparr>la_Name = egressDummy, la_Index = 0, la_Up = False\<rparr>)) ?Q s2"
    if "view s2 = egress_init_view nl e (view s)" for s2
    by (rule law_LinkAdd [THEN wp_conseq])
      (use that fb in \<open>auto simp: LinkAdd_post_def autoload_same autoload_links autoload_update
        egress_init_view_def split: sum.splits\<close>)
  show ?thesis
  proof (rule wp_seq [where R = "\<lambda>_ s1. view s1 = egress_step nl e FAMILY_V4 (view s)"], goal_cases)
    case 1
    show ?case by (rule wp_egress_half [THEN wp_conseq]) (auto split: sum.splits)
  next
    case (2 u s1)
    show ?case
    proof (rule wp_seq [where R = "\<lambda>_ s2. view s2 = egress_init_view nl e (view s)"], goal_cases)
      case 1
      show ?case
        by (rule wp_egress_half [THEN wp_conseq])
          (use 2 in \<open>auto simp: egress_init_view_def split: sum.splits\<close>)
    qed (rule add)
  qed
qed

lemma wp_egress_Init:
  "wp (egress_Init nl e) (\<lambda>r s'.
    v_routes (view s') = v_routes (view s) \<and>
    (\<forall>n. n \<notin> insert egressDummy fallback_devices \<longrightarrow> v_links (view s') n = v_links (view s) n) \<and>
    (case r of
       Inl _ \<Rightarrow> v_links (view s') egressDummy = v_links (view s) egressDummy
     | Inr _ \<Rightarrow> v_links (view s') egressDummy \<noteq> None \<and>
         view s' = (if v_links (view s) egressDummy = None
           then (egress_init_view nl e (view s))\<lparr>v_links := v_links (view s')\<rparr> else view s))) s"
  unfolding egress_Init_def wp_bind
proof (rule law_LinkByName [THEN wp_conseq], goal_cases)
  case (1 r s1)
  show ?case
  proof (cases "\<exists>e. r = Inl e \<and> is_LinkNotFoundError e")
    case True
    with 1 have "v_links (view s) egressDummy = None" "view s1 = view s"
      by (auto simp: LinkByName_post_def)
    with True show ?thesis
      using wp_egress_body [of e s1, unfolded \<open>view s1 = view s\<close>] by auto
  next
    case False
    with 1 show ?thesis by (cases r) (auto simp: wp_return LinkByName_post_def)
  qed
qed

end

context netlink_reliable
begin

lemma new_client_route: "\<not> has_client v a \<Longrightarrow> \<not> same_dst_route (client_route nl a l) v"
  using kernel_dst_client [of a]
  by (auto simp: same_dst_route_def has_client_def routes_to_def client_route_family)
    (auto simp: client_route_def)

lemma AddClient_ok:
  "ok s \<Longrightarrow> eg_serves e (ip_family a) \<Longrightarrow> wp (AddClient nl e a l) (\<lambda>r s'. r = Inr () \<and> ok s') s"
  unfolding AddClient_eq
  by (auto intro!: wp_conj [OF ok_RouteListFiltered law_RouteListFiltered, THEN wp_conseq]
      ok_RouteAdd [THEN wp_conseq] new_client_route
      simp: wp_simps RouteListFiltered_post_def has_route_to_listed split: sum.splits)

lemma AddClient_run:
  "ok s \<Longrightarrow> eg_serves e (ip_family a) \<Longrightarrow>
    \<exists>s'. run_state (AddClient nl e a l) s = (Inr (), s') \<and> ok s'"
  using wp_ex [OF AddClient_ok] by fastforce

end

section \<open>The interface Egress\<close>

text \<open>
  What the clients of the Go interface \<^verbatim>\<open>Egress\<close> rely on: \<^verbatim>\<open>AddClient\<close> changes no tunnel, reports
  a family mismatch exactly for the families not served, and a success has a route to the client.
\<close>

locale egress_clients =
  fixes eg :: "'s Egress" and tunnels :: "'s \<Rightarrow> string set" and client_of :: "'s \<Rightarrow> ip \<Rightarrow> bool"
    and eg_served :: "ip \<Rightarrow> bool"
  assumes client_added: "wp (eg_AddClient eg a l) (\<lambda>r s'. tunnels s' = tunnels s \<and>
      (\<forall>b. client_of s b \<longrightarrow> client_of s' b) \<and>
      (case r of Inl e \<Rightarrow> Is_ErrIPFamilyMismatch e \<longleftrightarrow> \<not> eg_served a
       | Inr _ \<Rightarrow> eg_served a \<and> client_of s' a)) s"
begin

lemmas client_wp [wp_ops] = client_added [THEN wp_conseq]

end

sublocale netlink_laws \<subseteq> eg: egress_clients "as_Egress nl e" "\<lambda>s. fou_links (view s)"
    "\<lambda>s. has_client (view s)" "\<lambda>a. eg_serves e (ip_family a)" for e
proof
  fix a l s
  have keep: "has_client (client_view nl a l v) b" if "has_client v b" for v b
    using that by (auto simp: has_client_def client_view_def)
  have links: "fou_links (client_view nl a l v) = fou_links v" for v
    by (simp add: fou_links_def client_view_def)
  show "wp (eg_AddClient (as_Egress nl e) a l) (\<lambda>r s'. fou_links (view s') = fou_links (view s) \<and>
      (\<forall>b. has_client (view s) b \<longrightarrow> has_client (view s') b) \<and>
      (case r of Inl err \<Rightarrow> Is_ErrIPFamilyMismatch err \<longleftrightarrow> \<not> eg_serves e (ip_family a)
       | Inr _ \<Rightarrow> eg_serves e (ip_family a) \<and> has_client (view s') a)) s"
    unfolding as_Egress_def Egress.simps
    by (rule wp_AddClient [THEN wp_conseq])
      (auto simp: keep links has_client_view split: sum.splits if_splits)
qed

section \<open>Properties\<close>

definition egress4 :: egress where
  "egress4 = \<lparr>iface = ''eth0'', eg_ipv4 = [10, 1, 1, 254], eg_ipv6 = nil_IP\<rparr>"

definition link3 :: link where
  "link3 = OtherLink \<lparr>la_Name = ''fou4_0a010203'', la_Index = 3, la_Up = True\<rparr>"

lemma egress4_serves [simp]: "eg_serves egress4 (ip_family peer4)" "\<not> eg_serves egress4 (ip_family peer6)"
  by (simp_all add: eg_serves_def egress4_def ip_family_def)

text \<open>
  C22. \<^verbatim>\<open>egress.Init\<close> does nothing where the dummy device is present.  Otherwise a success has
  made it and, for each address the pod has, appended one masquerade rule to the nat chain and
  added one rule that sends what comes in by the interface to the egress table, and nothing else;
  a failure leaves the dummy device as it was.  No route and no other link but a fallback device
  changes.
\<close>

theorem egress_Init_spec:
  assumes "netlink_laws nl view" "run_state (egress_Init nl e) s = (r, s')"
  shows "v_routes (view s') = v_routes (view s) \<and>
    (\<forall>n. n \<notin> insert egressDummy fallback_devices \<longrightarrow> v_links (view s') n = v_links (view s) n) \<and>
    (case r of
       Inl _ \<Rightarrow> v_links (view s') egressDummy = v_links (view s) egressDummy
     | Inr _ \<Rightarrow> v_links (view s') egressDummy \<noteq> None \<and>
         view s' = (if v_links (view s) egressDummy = None
           then (egress_init_view nl e (view s))\<lparr>v_links := v_links (view s')\<rparr> else view s))"
  by (rule wp_runD [OF netlink_laws.wp_egress_Init [OF assms(1)] assms(2)])

theorem egress_Init_spec_witness:
  "\<exists>r s'. run_state (egress_Init mem_ops egress4) mem_init = (r, s') \<and> r = Inr () \<and>
     v_rules (mem_view s') = {#newRule egress4 FAMILY_V4#}"
proof -
  obtain r s' where r: "run_state (egress_Init mem_ops egress4) mem_init = (r, s')"
    by (cases "run_state (egress_Init mem_ops egress4) mem_init")
  moreover have ok: "r = Inr ()"
    using r by (simp add: egress_Init_def egress_Init_family_def mem_ops_def mem_op_def
        mem_LinkByName_def mem_init_def run_bindE run_errorf egress4_def mem_chain_def
        mem_LinkAdd_def mem_RuleAdd_def load_module_def Let_def)
  moreover have eq: "mem_view s' = (egress_init_view mem_ops egress4 (mem_view mem_init))
      \<lparr>v_links := v_links (mem_view s')\<rparr>"
    using egress_Init_spec [OF mem.netlink_laws_axioms r] ok by simp
  have "v_rules (mem_view s') = {#newRule egress4 FAMILY_V4#}"
    by (subst eq) (simp add: egress_init_view_def egress_step_def eg_serves_def egress4_def
        upd_chain_def mem_view_def mem_init_def)
  ultimately show ?thesis by auto
qed

text \<open>
  C23. \<^verbatim>\<open>AddClient\<close> returns a family mismatch, and touches nothing, exactly for an address of a
  family the pod does not have.  Otherwise a success leaves exactly one new host route to the
  address, through the given link, or nothing new if the egress table had a route to the address,
  and an error changes nothing.
\<close>

theorem AddClient_spec:
  assumes "netlink_laws nl view" "run_state (AddClient nl e a l) s = (r, s')"
  shows "if eg_serves e (ip_family a)
    then (case r of
        Inl err \<Rightarrow> \<not> Is_ErrIPFamilyMismatch err \<and> view s' = view s
      | Inr _ \<Rightarrow> has_client (view s') a \<and>
          view s' = (if has_client (view s) a then view s else client_view nl a l (view s)))
    else r = Inl ErrIPFamilyMismatch \<and> s' = s"
  using wp_runD [OF netlink_laws.wp_AddClient [OF assms(1)] assms(2)]
    netlink_laws.has_client_view [OF assms(1), of a l "view s"]
  by (auto split: sum.splits if_splits)

theorem AddClient_spec_witness:
  "\<exists>s'. run_state (AddClient mem_ops egress4 peer4 link3) mem_init = (Inr (), s') \<and>
     has_client (mem_view s') peer4 \<and> \<not> has_client (mem_view mem_init) peer4"
proof -
  obtain s' where run: "run_state (AddClient mem_ops egress4 peer4 link3) mem_init = (Inr (), s')"
    using memr.AddClient_run [of mem_init egress4 peer4 link3] by auto
  have "\<not> has_client (mem_view mem_init) peer4"
    by (simp add: has_client_def mem_view_def mem_init_def wf_routes_def)
  with run AddClient_spec [OF mem.netlink_laws_axioms run] show ?thesis by auto
qed

end
