(* ===== verification/Egress_Api.thy ===== *)
theory Egress_Api
  imports Go_Net
begin

text \<open>
  The \<^verbatim>\<open>Egress\<close> resource (\<^verbatim>\<open>api/v1beta1/egress_types.go\<close>), its admission webhook
  (\<^verbatim>\<open>egress_webhook.go\<close>) and the names of \<^verbatim>\<open>pkg/constants\<close>.  Of the Kubernetes types the records
  hold the fields the program reads or writes; what it only copies is one opaque field.  The label
  validation of apimachinery is a parameter.
\<close>

section \<open>Constants\<close>

definition AnnEgressPrefix :: string where "AnnEgressPrefix = ''egress.ysksuzuki.com/''"
definition PodNameKey :: string where "PodNameKey = ''K8S_POD_NAME''"
definition PodNamespaceKey :: string where "PodNamespaceKey = ''K8S_POD_NAMESPACE''"
definition PodContainerKey :: string where "PodContainerKey = ''K8S_POD_INFRA_CONTAINER_ID''"
definition LabelAppName :: string where "LabelAppName = ''app.kubernetes.io/name''"
definition LabelAppInstance :: string where "LabelAppInstance = ''app.kubernetes.io/instance''"
definition LabelAppComponent :: string where "LabelAppComponent = ''app.kubernetes.io/component''"
definition SAEgress :: string where "SAEgress = ''egress-gw''"
definition CRBEgress :: string where "CRBEgress = ''egress-gw''"
definition EnvAddresses :: string where "EnvAddresses = ''EGRESS_GW_POD_ADDRESSES''"
definition EnvPodNamespace :: string where "EnvPodNamespace = ''EGRESS_GW_POD_NAMESPACE''"
definition EnvEgressName :: string where "EnvEgressName = ''EGRESS_GW_NAME''"

section \<open>The resource\<close>

type_synonym labels = "string \<Rightarrow> string option"

datatype EnvVar = EnvValue string string | EnvFieldRef string string

datatype VolumeSource = EmptyDir | HostPath string | OtherSource string

record Volume =
  vol_Name :: string
  vol_Source :: VolumeSource

record VolumeMount =
  vm_MountPath :: string
  vm_Name :: string
  vm_ReadOnly :: bool

record ContainerPort =
  cp_Name :: string
  cp_Port :: int
  cp_Protocol :: string

record HTTPProbe =
  probe_Path :: string
  probe_Port :: string
  probe_Scheme :: string

record SecurityContext =
  Privileged :: bool
  ReadOnlyRootFilesystem :: bool
  AddCapabilities :: "string list"

record Container =
  c_Name :: string
  c_Image :: string
  c_Command :: "string list"
  c_Args :: "string list"
  c_Env :: "EnvVar list"
  c_VolumeMounts :: "VolumeMount list"
  c_SecurityContext :: "SecurityContext option"
  c_Requests :: "labels option"
  c_Ports :: "ContainerPort list"
  c_LivenessProbe :: "HTTPProbe option"
  c_ReadinessProbe :: "HTTPProbe option"
  c_rest :: string

definition zero_Container :: Container where
  "zero_Container = \<lparr>c_Name = '''', c_Image = '''', c_Command = [], c_Args = [], c_Env = [],
    c_VolumeMounts = [], c_SecurityContext = None, c_Requests = None, c_Ports = [],
    c_LivenessProbe = None, c_ReadinessProbe = None, c_rest = ''''\<rparr>"

record PodSpec =
  ServiceAccountName :: string
  Volumes :: "Volume list"
  Containers :: "Container list"
  ps_rest :: string

definition zero_PodSpec :: PodSpec where
  "zero_PodSpec = \<lparr>ServiceAccountName = '''', Volumes = [], Containers = [], ps_rest = ''''\<rparr>"

text \<open>The maps that the code iterates over are lists of entries, in the order of the iteration.\<close>

record Metadata =
  md_Annotations :: "(string \<times> string) list"
  md_Labels :: "(string \<times> string) list"

record EgressPodTemplate = Metadata +
  tmpl_Spec :: PodSpec

record DeploymentStrategy =
  ds_Type :: string
  ds_rest :: string

record EgressSpec =
  Destinations :: "string list"
  Replicas :: int
  Strategy :: "DeploymentStrategy option"
  Template :: "EgressPodTemplate option"
  SessionAffinity :: string
  SessionAffinityConfig :: "string option"

record EgressStatus =
  st_Replicas :: int
  st_Selector :: string

text \<open>The custom resource \<^verbatim>\<open>Egress\<close> (\<^verbatim>\<open>founat\<close> has an interface of the same name).\<close>

record EgressObj =
  eg_Namespace :: string
  eg_Name :: string
  eg_DeletionTimestamp :: bool
  Spec :: EgressSpec
  Status :: EgressStatus

section \<open>Validation\<close>

datatype path_elem = Child string | Index nat

type_synonym path = "path_elem list"

datatype field_error =
    Invalid path string string
  | NotSupported path string "string list"
  | Forbidden path string
  | LabelError path string

record validation =
  ValidateLabels :: "(string \<times> string) list \<Rightarrow> path \<Rightarrow> field_error list"
  ValidateLabelName :: "string \<Rightarrow> path \<Rightarrow> field_error list"

text \<open>The text of the error of \<^verbatim>\<open>net.ParseCIDR\<close>.\<close>

definition parse_error :: "string \<Rightarrow> string" where
  "parse_error na = ''invalid CIDR address: '' @ na"

fun validate_destinations :: "path \<Rightarrow> nat \<Rightarrow> string list \<Rightarrow> field_error list" where
  "validate_destinations pp i [] = []"
| "validate_destinations pp i (na # rest) =
    (case ParseCIDR na of
       Inl _ \<Rightarrow> [Invalid (pp @ [Index i]) na (parse_error na)]
     | Inr _ \<Rightarrow> []) @ validate_destinations pp (Suc i) rest"

definition RecreateDeploymentStrategyType :: string where
  "RecreateDeploymentStrategyType = ''Recreate''"
definition RollingUpdateDeploymentStrategyType :: string where
  "RollingUpdateDeploymentStrategyType = ''RollingUpdate''"

definition validate :: "validation \<Rightarrow> EgressSpec \<Rightarrow> field_error list" where
  "validate lib es =
    (let p = [Child ''spec''] in
     validate_destinations (p @ [Child ''destinations'']) 0 (Destinations es) @
     (case Strategy es of
        None \<Rightarrow> []
      | Some st \<Rightarrow>
          if ds_Type st = RecreateDeploymentStrategyType then []
          else if ds_Type st = RollingUpdateDeploymentStrategyType then []
          else [NotSupported (p @ [Child ''strategy'', Child ''type'']) (ds_Type st)
            [RecreateDeploymentStrategyType, RollingUpdateDeploymentStrategyType]]) @
     (case Template es of
        None \<Rightarrow> []
      | Some tmpl \<Rightarrow>
          let pp = p @ [Child ''template'', Child ''metadata''] in
          ValidateLabels lib (md_Labels tmpl) (pp @ [Child ''labels'']) @
          concat (map (\<lambda>(k, _). ValidateLabelName lib k (pp @ [Child ''annotations'']))
            (md_Annotations tmpl))))"

definition validateUpdate :: "validation \<Rightarrow> EgressSpec \<Rightarrow> EgressSpec \<Rightarrow> field_error list" where
  "validateUpdate lib es old =
    validate lib es @
    (if Destinations es \<noteq> Destinations old
     then [Forbidden [Child ''spec'', Child ''destinations''] ''unchangeable''] else [])"

section \<open>The webhook\<close>

text \<open>\<^verbatim>\<open>Default\<close> changes the template of the receiver in place.\<close>

definition Default :: "EgressObj \<Rightarrow> EgressObj" where
  "Default r =
    (case Template (Spec r) of
       None \<Rightarrow> r
     | Some tmpl \<Rightarrow>
         if length (Containers (tmpl_Spec tmpl)) = 0
         then r\<lparr>Spec := (Spec r)\<lparr>Template := Some (tmpl\<lparr>tmpl_Spec := (tmpl_Spec tmpl)
           \<lparr>Containers := [zero_Container\<lparr>c_Name := ''egress-gw''\<rparr>]\<rparr>\<rparr>)\<rparr>\<rparr>
         else r)"

text \<open>\<^verbatim>\<open>apierrors.NewInvalid(groupKind, name, errs)\<close>.\<close>

datatype admission_error = NewInvalid string string string "field_error list"

definition Group :: string where "Group = ''egress.ysksuzuki.com''"

definition ValidateCreate :: "validation \<Rightarrow> EgressObj \<Rightarrow> admission_error option" where
  "ValidateCreate lib r =
    (let errs = validate lib (Spec r)
     in if length errs = 0 then None else Some (NewInvalid Group ''Egress'' (eg_Name r) errs))"

definition ValidateUpdate :: "validation \<Rightarrow> EgressObj \<Rightarrow> EgressObj \<Rightarrow> admission_error option" where
  "ValidateUpdate lib r old =
    (let errs = validateUpdate lib (Spec r) (Spec old)
     in if length errs = 0 then None else Some (NewInvalid Group ''Egress'' (eg_Name r) errs))"

definition ValidateDelete :: "EgressObj \<Rightarrow> admission_error option" where
  "ValidateDelete r = None"

section \<open>What admission guarantees\<close>

text \<open>What the program itself checks of a resource.\<close>

definition well_formed :: "EgressSpec \<Rightarrow> bool" where
  "well_formed es \<longleftrightarrow> (\<forall>na \<in> set (Destinations es). \<exists>r. ParseCIDR na = Inr r) \<and>
    (\<forall>st. Strategy es = Some st \<longrightarrow> ds_Type st \<in> {''Recreate'', ''RollingUpdate''})"

definition labels_ok :: "validation \<Rightarrow> EgressSpec \<Rightarrow> bool" where
  "labels_ok lib es \<longleftrightarrow> (\<forall>tmpl. Template es = Some tmpl \<longrightarrow>
    ValidateLabels lib (md_Labels tmpl) [Child ''spec'', Child ''template'', Child ''metadata'', Child ''labels''] = [] \<and>
    (\<forall>(k, v) \<in> set (md_Annotations tmpl).
      ValidateLabelName lib k [Child ''spec'', Child ''template'', Child ''metadata'', Child ''annotations''] = []))"

lemma validate_destinations_Nil:
  "validate_destinations pp i ds = [] \<longleftrightarrow> (\<forall>na \<in> set ds. \<exists>r. ParseCIDR na = Inr r)"
  by (induction ds arbitrary: i) (auto split: sum.splits)

lemma validate_Nil: "validate lib es = [] \<longleftrightarrow> well_formed es \<and> labels_ok lib es"
  by (auto simp: validate_def Let_def validate_destinations_Nil well_formed_def labels_ok_def
      RecreateDeploymentStrategyType_def RollingUpdateDeploymentStrategyType_def
      split: option.splits prod.splits)

lemma validateUpdate_Nil:
  "validateUpdate lib es old = [] \<longleftrightarrow> validate lib es = [] \<and> Destinations es = Destinations old"
  by (simp add: validateUpdate_def)

text \<open>Which of the destinations are reported, by position.\<close>

lemma validate_destinations_reports:
  "Invalid (pp @ [Index j]) na msg \<in> set (validate_destinations pp i ds) \<longleftrightarrow>
    (\<exists>k < length ds. j = i + k \<and> na = ds ! k \<and> msg = parse_error na \<and> (\<exists>e. ParseCIDR na = Inl e))"
proof (induction ds arbitrary: i)
  case (Cons d ds)
  show ?case
    unfolding validate_destinations.simps set_append Un_iff Cons.IH
    by (cases "ParseCIDR d") (auto simp: less_Suc_eq_0_disj)
qed simp

lemma Default_simps [simp]:
  "Destinations (Spec (Default r)) = Destinations (Spec r)" "eg_Name (Default r) = eg_Name r"
  "Strategy (Spec (Default r)) = Strategy (Spec r)"
  by (simp_all add: Default_def split: option.splits)

lemma Default_idem: "Default (Default r) = Default r"
  by (simp add: Default_def split: option.splits)

lemma Default_validate: "validate lib (Spec (Default r)) = validate lib (Spec r)"
  by (simp add: Default_def validate_def split: option.splits)

text \<open>
  The versions of one resource that the API server stores: each goes through \<^const>\<open>Default\<close> and
  then through the validation of its operation.
\<close>

inductive stored :: "validation \<Rightarrow> EgressObj list \<Rightarrow> bool" for lib where
  create: "ValidateCreate lib (Default r) = None \<Longrightarrow> stored lib [Default r]"
| update: "stored lib (old # hist) \<Longrightarrow> ValidateUpdate lib (Default r) old = None \<Longrightarrow>
    stored lib (Default r # old # hist)"

lemma stored_invariant:
  "stored lib hist \<Longrightarrow> \<forall>x \<in> set hist. well_formed (Spec x) \<and> labels_ok lib (Spec x) \<and> Default x = x \<and>
    Destinations (Spec x) = Destinations (Spec (hd hist))"
  by (induction rule: stored.induct)
    (auto simp: ValidateCreate_def ValidateUpdate_def Let_def validateUpdate_Nil validate_Nil
      Default_idem split: if_splits)

section \<open>Properties\<close>

definition no_checks :: validation where
  "no_checks = \<lparr>ValidateLabels = (\<lambda>_ _. []), ValidateLabelName = (\<lambda>_ _. [])\<rparr>"

definition eg_nat :: EgressObj where
  "eg_nat = \<lparr>eg_Namespace = ''gw'', eg_Name = ''nat'', eg_DeletionTimestamp = False,
    Spec = \<lparr>Destinations = [''8.8.0.0/16'', ''10.0.0.0/8''], Replicas = 2, Strategy = None,
      Template = Some \<lparr>md_Annotations = [], md_Labels = [(''app'', ''x'')], tmpl_Spec = zero_PodSpec\<rparr>,
      SessionAffinity = ''ClientIP'', SessionAffinityConfig = None\<rparr>,
    Status = \<lparr>st_Replicas = 0, st_Selector = ''''\<rparr>\<rparr>"

lemma eg_nat_parses:
  "ParseCIDR ''8.8.0.0/16'' =
    Inr (v4InV6Prefix @ [8, 8, 0, 0], \<lparr>IP = [8, 8, 0, 0], Mask = [255, 255, 0, 0]\<rparr>)"
  "ParseCIDR ''10.0.0.0/8'' =
    Inr (v4InV6Prefix @ [10, 0, 0, 0], \<lparr>IP = [10, 0, 0, 0], Mask = [255, 0, 0, 0]\<rparr>)"
  "ParseCIDR ''8.8.8.8'' = Inl (OtherError ''invalid CIDR address: 8.8.8.8'')"
  by (simp_all add: ParseCIDR_def parse_eval IP_Mask_def CIDRMask_def mask_byte_def upt_rec
      v4InV6Prefix_def and_bytes_def)

lemma ValidateCreate_reports:
  assumes "ValidateCreate lib r = Some (NewInvalid g k n errs)"
    and "p' = [Child ''spec'', Child ''destinations'', Index j]"
    and "\<And>ls p. Invalid p' na msg \<notin> set (ValidateLabels lib ls p)"
    and "\<And>x p. Invalid p' na msg \<notin> set (ValidateLabelName lib x p)"
  shows "Invalid p' na msg \<in> set errs \<longleftrightarrow>
    j < length (Destinations (Spec r)) \<and> na = Destinations (Spec r) ! j \<and>
    msg = parse_error na \<and> (\<exists>e. ParseCIDR na = Inl e)"
proof -
  have errs: "errs = validate lib (Spec r)"
    using assms(1) by (simp add: ValidateCreate_def Let_def split: if_splits)
  have "Invalid p' na msg \<in> set errs \<longleftrightarrow>
      Invalid ([Child ''spec'', Child ''destinations''] @ [Index j]) na msg
        \<in> set (validate_destinations [Child ''spec'', Child ''destinations''] 0 (Destinations (Spec r)))"
    using assms(3,4) unfolding errs assms(2)
    by (auto simp: validate_def Let_def split: option.splits)
  then show ?thesis unfolding validate_destinations_reports add_0 by blast
qed



text \<open>
  C15. Of a resource that goes through the webhook, every stored version is well formed, is not
  changed by defaulting again, and has the destinations it was created with.
\<close>

theorem stored_egress:
  assumes "stored lib hist" "x \<in> set hist" "y \<in> set hist"
  shows "well_formed (Spec x) \<and> Default x = x \<and> Destinations (Spec x) = Destinations (Spec y)"
  using stored_invariant [OF assms(1)] assms(2,3) by metis

theorem stored_egress_witness:
  "stored no_checks [Default (eg_nat\<lparr>Spec := (Spec eg_nat)\<lparr>Replicas := 3\<rparr>\<rparr>), Default eg_nat] \<and>
   Default (Default eg_nat) = Default eg_nat \<and> Default eg_nat \<noteq> eg_nat"
proof -
  have ok: "ValidateCreate no_checks (Default eg_nat) = None"
      "ValidateUpdate no_checks (Default (eg_nat\<lparr>Spec := (Spec eg_nat)\<lparr>Replicas := 3\<rparr>\<rparr>)) (Default eg_nat) = None"
    by (simp_all add: ValidateCreate_def ValidateUpdate_def validateUpdate_Nil Default_validate Let_def)
      (simp_all add: validate_def no_checks_def eg_nat_def eg_nat_parses)
  have "stored no_checks [Default (eg_nat\<lparr>Spec := (Spec eg_nat)\<lparr>Replicas := 3\<rparr>\<rparr>), Default eg_nat]"
    by (intro stored.update stored.create ok)
  moreover have "Default eg_nat \<noteq> eg_nat"
    by (simp add: Default_def eg_nat_def zero_PodSpec_def)
  ultimately show ?thesis
    using stored_egress [of no_checks _ "Default eg_nat" "Default eg_nat"] by fastforce
qed

end
