(* ===== verification/Pod_Watcher.thy ===== *)
theory Pod_Watcher
  imports Egress_Nat Egress_Api
begin

text \<open>
  \<^verbatim>\<open>controllers/pod_watcher.go\<close>: the reconciler of an egress pod.  It adds a tunnel and a route
  for every address of the client pods that name this egress, removes them when the pods go, and
  counts in a map which pods share an address.  The fields of \<^verbatim>\<open>podWatcher\<close> that never change
  are the record \<open>'s podWatcher\<close>, the others the record \<open>watch\<close>; an operation runs on the
  kernel (and API server) state and the watcher's own state together.
\<close>

section \<open>Definitions\<close>


datatype PodPhase = PodPending | PodRunning | PodSucceeded | PodFailed | PodUnknown

text \<open>Of a pod, the fields the program reads; the annotations in the order a loop meets them.\<close>

record pod =
  pod_Namespace :: string
  pod_Name :: string
  HostNetwork :: bool
  Annotations :: "(string \<times> string) list"
  PodIPs :: "string list"
  Phase :: PodPhase

type_synonym NamespacedName = "string \<times> string"

record 's podWatcher =
  pw_Get :: "NamespacedName \<Rightarrow> ('s, pod) go"
  myNS :: string
  myName :: string
  pw_ft :: "'s FoUTunnel"
  pw_eg :: "'s Egress"

record watch =
  podAddrs :: "string \<Rightarrow> ip list option"
  peers :: "string \<Rightarrow> string set option"
  metric :: nat

definition new_watch :: watch where
  "new_watch = \<lparr>podAddrs = Map.empty, peers = Map.empty, metric = 0\<rparr>"

definition SetupPodWatcher ::
  "(NamespacedName \<Rightarrow> ('s, pod) go) \<Rightarrow> string \<Rightarrow> string \<Rightarrow> 's FoUTunnel \<Rightarrow> 's Egress \<Rightarrow>
    's podWatcher \<times> watch" where
  "SetupPodWatcher client ns name ft eg =
    (\<lparr>pw_Get = client, myNS = ns, myName = name, pw_ft = ft, pw_eg = eg\<rparr>, new_watch)"

text \<open>A call on the kernel, reading the watcher's state and changing it.\<close>

definition on_kernel :: "('s, 'a) go \<Rightarrow> ('s \<times> 'w, 'a) go" where
  "on_kernel m = State (\<lambda>(s, w). case run_state m s of (r, s') \<Rightarrow> (r, (s', w)))"

definition get_watch :: "('s \<times> 'w, 'w) go" where
  "get_watch = State (\<lambda>(s, w). (Inr w, (s, w)))"

definition upd_watch :: "('w \<Rightarrow> 'w) \<Rightarrow> ('s \<times> 'w, unit) go" where
  "upd_watch f = State (\<lambda>(s, w). (Inr (), (s, f w)))"

fun shouldHandle_loop :: "string \<Rightarrow> string \<Rightarrow> (string \<times> string) list \<Rightarrow> bool" where
  "shouldHandle_loop ns name [] = False"
| "shouldHandle_loop ns name ((k, v) # rest) =
    (if \<not> HasPrefix k AnnEgressPrefix then shouldHandle_loop ns name rest
     else if drop (length AnnEgressPrefix) k \<noteq> ns then shouldHandle_loop ns name rest
     else if v = name then True
     else if name \<in> set (Split CHR '','' v) then True
     else shouldHandle_loop ns name rest)"

definition shouldHandle :: "'s podWatcher \<Rightarrow> pod \<Rightarrow> bool" where
  "shouldHandle r p =
    (if HostNetwork p then False else shouldHandle_loop (myNS r) (myName r) (Annotations p))"

definition isTerminated :: "pod \<Rightarrow> bool" where
  "isTerminated p = (Phase p = PodSucceeded \<or> Phase p = PodFailed)"

text \<open>\<^verbatim>\<open>namespace + "/" + name\<close>.\<close>

definition pod_key :: "string \<Rightarrow> string \<Rightarrow> string" where
  "pod_key ns name = ns @ ''/'' @ name"

fun add_keys :: "string \<Rightarrow> ip list \<Rightarrow> (string \<Rightarrow> string set option) \<Rightarrow> string \<Rightarrow> string set option" where
  "add_keys key [] ps = ps"
| "add_keys key (ip # ips) ps =
    add_keys key ips (ps(IP_String ip \<mapsto>
      insert key (case ps (IP_String ip) of None \<Rightarrow> {} | Some ks \<Rightarrow> ks)))"

definition register :: "string \<Rightarrow> ip list \<Rightarrow> watch \<Rightarrow> watch" where
  "register key ips w =
    (let addrs = (podAddrs w)(key \<mapsto> ips)
     in w\<lparr>podAddrs := addrs, peers := add_keys key ips (peers w), metric := card (dom addrs)\<rparr>)"

text \<open>The bodies of the two loops: an address the pod has now, and one it had before.\<close>

definition addPod_new :: "'s podWatcher \<Rightarrow> ip list \<Rightarrow> ip \<Rightarrow> ('s \<times> watch, unit) go" where
  "addPod_new r existing ip =
    (if \<exists>eip \<in> set existing. Equal ip eip then ret ()
     else do {
       res \<leftarrow> on_kernel (ft_AddPeer (pw_ft r) ip);
       case res of
         Inl e \<Rightarrow> if Is_ErrIPFamilyMismatch e then ret () else fail e
       | Inr link \<Rightarrow> on_kernel (eg_AddClient (pw_eg r) ip link)
     })"

definition addPod_old :: "'s podWatcher \<Rightarrow> ip list \<Rightarrow> ip \<Rightarrow> ('s \<times> watch, unit) go" where
  "addPod_old r podIPs eip =
    (if \<exists>ip \<in> set podIPs. Equal eip ip then ret () else on_kernel (ft_DelPeer (pw_ft r) eip))"

definition addPod :: "'s podWatcher \<Rightarrow> pod \<Rightarrow> ('s \<times> watch, unit) go" where
  "addPod r p =
    bindE get_watch (\<lambda>w.
    let key = pod_key (pod_Namespace p) (pod_Name p);
        existing = (case podAddrs w key of None \<Rightarrow> [] | Some xs \<Rightarrow> xs);
        podIPs = map ParseIP (PodIPs p)
    in
    bindE (for_each (addPod_new r existing) podIPs) (\<lambda>_.
    bindE (for_each (addPod_old r podIPs) existing) (\<lambda>_.
    upd_watch (register key podIPs))))"

definition existsOtherLivePeers :: "watch \<Rightarrow> string \<Rightarrow> string \<Rightarrow> err + bool" where
  "existsOtherLivePeers w key ip =
    (case peers w ip of
       Some keySet \<Rightarrow>
         if key \<in> keySet then Inr (1 < card keySet)
         else Inl (OtherError (''keySet in the peers doesn't contain my key. key: '' @ key @ '' ip: '' @ ip))
     | None \<Rightarrow> Inl (OtherError (''peers doesn't contain my IP. key: '' @ key @ '' ip: '' @ ip)))"

definition drop_key :: "string \<Rightarrow> string \<Rightarrow> watch \<Rightarrow> watch" where
  "drop_key key ip w =
    (case peers w ip of
       None \<Rightarrow> w
     | Some keySet \<Rightarrow>
         if keySet - {key} = {} then w\<lparr>peers := (peers w)(ip := None)\<rparr>
         else w\<lparr>peers := (peers w)(ip \<mapsto> keySet - {key})\<rparr>)"

definition delPeer_step :: "'s podWatcher \<Rightarrow> string \<Rightarrow> ip \<Rightarrow> ('s \<times> watch, unit) go" where
  "delPeer_step r key ip =
    bindE get_watch (\<lambda>w.
    case existsOtherLivePeers w key (IP_String ip) of
      Inl e \<Rightarrow> fail e
    | Inr existsLivePeers \<Rightarrow>
        bindE (if \<not> existsLivePeers then on_kernel (ft_DelPeer (pw_ft r) ip) else ret ()) (\<lambda>_.
        upd_watch (drop_key key (IP_String ip))))"

definition unregister :: "string \<Rightarrow> watch \<Rightarrow> watch" where
  "unregister key w =
    (let addrs = (podAddrs w)(key := None) in w\<lparr>podAddrs := addrs, metric := card (dom addrs)\<rparr>)"

definition delPeer :: "'s podWatcher \<Rightarrow> string \<Rightarrow> ('s \<times> watch, unit) go" where
  "delPeer r key =
    bindE get_watch (\<lambda>w.
    bindE (for_each (delPeer_step r key) (case podAddrs w key of None \<Rightarrow> [] | Some ips \<Rightarrow> ips)) (\<lambda>_.
    upd_watch (unregister key)))"

definition delTerminatedPod :: "'s podWatcher \<Rightarrow> pod \<Rightarrow> ('s \<times> watch, unit) go" where
  "delTerminatedPod r p = delPeer r (pod_key (pod_Namespace p) (pod_Name p))"

definition delPod :: "'s podWatcher \<Rightarrow> NamespacedName \<Rightarrow> ('s \<times> watch, unit) go" where
  "delPod r n = delPeer r (pod_key (fst n) (snd n))"

definition Reconcile :: "'s podWatcher \<Rightarrow> NamespacedName \<Rightarrow> ('s \<times> watch, unit) go" where
  "Reconcile r req = do {
    res \<leftarrow> on_kernel (pw_Get r req);
    case res of
      Inr p \<Rightarrow>
        if \<not> shouldHandle r p then ret ()
        else if \<not> isTerminated p then addPod r p
        else delTerminatedPod r p
    | Inl e \<Rightarrow> if IsNotFound e then delPod r req else ret ()
  }"

text \<open>The part of \<^const>\<open>Reconcile\<close> after the call of \<^verbatim>\<open>Get\<close>, and whether it takes the mutex.\<close>

definition handle :: "'s podWatcher \<Rightarrow> NamespacedName \<Rightarrow> err + pod \<Rightarrow> ('s \<times> watch, unit) go" where
  "handle r req res =
    (case res of
       Inr p \<Rightarrow>
         if \<not> shouldHandle r p then ret ()
         else if \<not> isTerminated p then addPod r p
         else delTerminatedPod r p
     | Inl e \<Rightarrow> if IsNotFound e then delPod r req else ret ())"

definition locks :: "'s podWatcher \<Rightarrow> err + pod \<Rightarrow> bool" where
  "locks r res = (case res of Inr p \<Rightarrow> shouldHandle r p | Inl e \<Rightarrow> IsNotFound e)"

lemma Reconcile_handle: "Reconcile r req = do { res \<leftarrow> on_kernel (pw_Get r req); handle r req res }"
  by (simp add: Reconcile_def handle_def)

lemma handle_unlocked: "\<not> locks r res \<Longrightarrow> handle r req res = ret ()"
  by (auto simp: handle_def locks_def split: sum.splits)

section \<open>Rules for the combined state\<close>

lemma wp_on_kernel [wp_simps]: "wp (on_kernel m) Q (s, w) = wp m (\<lambda>r s'. Q r (s', w)) s"
  by (simp add: on_kernel_def wp_def split: prod.splits)

lemma wp_get_watch [wp_simps]: "wp get_watch Q (s, w) = Q (Inr w) (s, w)"
  by (simp add: get_watch_def wp_def)

lemma wp_upd_watch [wp_simps]: "wp (upd_watch f) Q (s, w) = Q (Inr ()) (s, f w)"
  by (simp add: upd_watch_def wp_def)

section \<open>Bookkeeping\<close>

definition has_key :: "watch \<Rightarrow> string \<Rightarrow> string \<Rightarrow> bool" where
  "has_key w key a \<longleftrightarrow> (\<exists>ks. peers w a = Some ks \<and> key \<in> ks)"

definition registered :: "watch \<Rightarrow> string \<Rightarrow> ip \<Rightarrow> bool" where
  "registered w key ip \<longleftrightarrow> (\<exists>ips. podAddrs w key = Some ips \<and> ip \<in> set ips)"

text \<open>
  The maps are consistent: every address of a registered pod lists the pod among its peers
  (except for the pods in \<open>K\<close>), no key set is empty, and the gauge is the number of pods.
\<close>

definition keysets_ok :: "(string \<Rightarrow> string set option) \<Rightarrow> bool" where
  "keysets_ok ps \<longleftrightarrow> (\<forall>a ks. ps a = Some ks \<longrightarrow> finite ks \<and> ks \<noteq> {})"

definition consistent :: "string set \<Rightarrow> watch \<Rightarrow> bool" where
  "consistent K w \<longleftrightarrow> (\<forall>key ip. key \<notin> K \<longrightarrow> registered w key ip \<longrightarrow> has_key w key (IP_String ip)) \<and>
    keysets_ok (peers w) \<and> finite (dom (podAddrs w)) \<and> metric w = card (dom (podAddrs w))"

lemma consistent_new [simp]: "consistent K new_watch"
  by (simp add: consistent_def new_watch_def registered_def keysets_ok_def)

lemma add_keys_has:
  "(\<exists>ks. add_keys key ips ps a = Some ks \<and> k \<in> ks) \<longleftrightarrow>
    (\<exists>ks. ps a = Some ks \<and> k \<in> ks) \<or> k = key \<and> a \<in> IP_String ` set ips"
  by (induction ips arbitrary: ps) (auto split: option.splits if_splits)

lemma keysets_insert:
  "keysets_ok ps \<Longrightarrow> keysets_ok (ps(a \<mapsto> insert key (case ps a of None \<Rightarrow> {} | Some ks \<Rightarrow> ks)))"
  by (auto simp: keysets_ok_def split: option.splits)

lemma add_keys_ok: "keysets_ok ps \<Longrightarrow> keysets_ok (add_keys key ips ps)"
  by (induction ips arbitrary: ps) (simp_all add: keysets_insert)

lemma has_key_register:
  "has_key (register key ips w) k a \<longleftrightarrow> has_key w k a \<or> k = key \<and> a \<in> IP_String ` set ips"
  by (simp add: has_key_def register_def Let_def add_keys_has)

lemma registered_register:
  "registered (register key ips w) k ip \<longleftrightarrow> (if k = key then ip \<in> set ips else registered w k ip)"
  by (simp add: registered_def register_def Let_def)

lemma consistent_register:
  assumes "consistent K w"
  shows "consistent (K - {key}) (register key ips w)"
proof -
  have "keysets_ok (peers (register key ips w))"
    using assms add_keys_ok by (simp add: consistent_def register_def Let_def)
  moreover have "finite (dom (podAddrs (register key ips w)))"
      "metric (register key ips w) = card (dom (podAddrs (register key ips w)))"
    using assms by (simp_all add: consistent_def register_def Let_def)
  ultimately show ?thesis
    using assms by (auto simp: consistent_def has_key_register registered_register)
qed

lemma has_key_drop:
  "has_key (drop_key key a w) k b \<longleftrightarrow> has_key w k b \<and> \<not> (k = key \<and> b = a)"
  by (auto simp: has_key_def drop_key_def split: option.splits if_splits)

lemma drop_key_simps [simp]:
  "podAddrs (drop_key key a w) = podAddrs w" "metric (drop_key key a w) = metric w"
  "registered (drop_key key a w) k ip = registered w k ip"
  by (auto simp: drop_key_def registered_def split: option.splits)

lemma consistent_drop:
  assumes "consistent K w"
  shows "consistent (insert key K) (drop_key key a w)"
proof -
  have "keysets_ok (peers (drop_key key a w))"
    using assms by (auto simp: consistent_def keysets_ok_def drop_key_def split: option.splits if_splits)
  with assms show ?thesis by (auto simp: consistent_def has_key_drop)
qed

lemma consistent_mono: "consistent K w \<Longrightarrow> K \<subseteq> L \<Longrightarrow> consistent L w"
  by (auto simp: consistent_def)

lemma consistent_unregister:
  "consistent K w \<Longrightarrow> consistent (K - {key}) (unregister key w)"
  by (auto simp: consistent_def unregister_def registered_def has_key_def Let_def)

lemma existsOther_iff:
  assumes "consistent K w"
  shows "existsOtherLivePeers w key a = Inr live \<longleftrightarrow>
    has_key w key a \<and> (live \<longleftrightarrow> (\<exists>k. k \<noteq> key \<and> has_key w k a))"
proof (cases "peers w a")
  case None
  then show ?thesis by (simp add: existsOtherLivePeers_def has_key_def)
next
  case (Some ks)
  have "finite ks" using assms Some by (auto simp: consistent_def keysets_ok_def)
  then have "card ks \<le> Suc 0 \<longleftrightarrow> (\<forall>k \<in> ks. k = key)" if "key \<in> ks"
    using that card_le_Suc0_iff_eq by metis
  then have other: "1 < card ks \<longleftrightarrow> (\<exists>k. k \<noteq> key \<and> k \<in> ks)" if "key \<in> ks"
    using that by (metis One_nat_def not_less)
  have has: "has_key w k a \<longleftrightarrow> k \<in> ks" for k using Some by (simp add: has_key_def)
  show ?thesis
  proof (cases "key \<in> ks")
    case True
    have "existsOtherLivePeers w key a = Inr (1 < card ks)"
      using Some True by (simp add: existsOtherLivePeers_def)
    with True show ?thesis unfolding has other [OF True] by (simp only: sum.inject) auto
  next
    case False
    then show ?thesis using Some has by (simp add: existsOtherLivePeers_def)
  qed
qed

text \<open>The tunnels of the addresses that a pod had and has no longer.\<close>

definition dropped :: "ip list \<Rightarrow> ip list \<Rightarrow> string set" where
  "dropped existing ips = fouName ` {eip \<in> set existing. \<not> (\<exists>ip \<in> set ips. Equal eip ip)}"

text \<open>The tunnels of the served addresses that a pod has now and had not before.\<close>

definition added :: "(ip \<Rightarrow> bool) \<Rightarrow> ip list \<Rightarrow> ip list \<Rightarrow> string set" where
  "added served existing ips =
    fouName ` {ip \<in> set ips. served ip \<and> \<not> (\<exists>eip \<in> set existing. Equal ip eip)}"

text \<open>The addresses of the list that no other pod has.\<close>

definition sole :: "watch \<Rightarrow> string \<Rightarrow> ip list \<Rightarrow> string set" where
  "sole w key ips = fouName ` {ip \<in> set ips. \<not> (\<exists>k. k \<noteq> key \<and> has_key w k (IP_String ip))}"

text \<open>No two pods share an address.\<close>

definition distinct_addrs :: "watch \<Rightarrow> bool" where
  "distinct_addrs w \<longleftrightarrow>
    (\<forall>k k' ip ip'. registered w k ip \<and> registered w k' ip' \<and> Equal ip ip' \<longrightarrow> k = k')"

text \<open>Every IPv4 address of a registered pod that is served has its tunnel.\<close>

definition connected :: "(ip \<Rightarrow> bool) \<Rightarrow> string set \<Rightarrow> watch \<Rightarrow> bool" where
  "connected served T w \<longleftrightarrow> (\<forall>key ip. registered w key ip \<longrightarrow> served ip \<longrightarrow> To4 ip \<noteq> nil_IP \<longrightarrow>
    fouName ip \<in> T)"

lemma connected_new [simp]: "connected served T new_watch"
  by (simp add: connected_def registered_def new_watch_def)

lemma Equal_String: "Equal a b \<Longrightarrow> To4 a \<noteq> nil_IP \<Longrightarrow> IP_String a = IP_String b"
  using Equal_To4 [of a b] by (auto simp: IP_String_def To4_def split: if_splits)

lemma dropped_v4:
  "To4 ip \<noteq> nil_IP \<Longrightarrow> fouName ip \<in> dropped existing ips \<longleftrightarrow>
    (\<exists>eip \<in> set existing. Equal ip eip \<and> \<not> (\<exists>ip' \<in> set ips. Equal eip ip'))"
  by (auto simp: dropped_def fouName_v4)

lemma sole_v4:
  assumes "To4 ip \<noteq> nil_IP" "fouName ip \<in> sole w key ips" "k \<noteq> key"
  shows "\<not> has_key w k (IP_String ip)"
proof -
  obtain ip' where "fouName ip = fouName ip'" "\<not> has_key w k (IP_String ip')"
    using assms by (auto simp: sole_def)
  then show ?thesis using assms(1) fouName_v4 Equal_String by metis
qed

section \<open>The reconciler over the two interfaces\<close>

text \<open>
  What \<^verbatim>\<open>podWatcher\<close> relies on: the contracts of \<^verbatim>\<open>FoUTunnel\<close> and \<^verbatim>\<open>Egress\<close> over one set of
  tunnels, and that reading a pod changes no tunnel.
\<close>

locale gateway =
  fou_peers "pw_ft r" tunnels served + egress_clients "pw_eg r" tunnels client_of eg_served
  for r :: "'s podWatcher" and tunnels :: "'s \<Rightarrow> string set" and served :: "ip \<Rightarrow> bool"
    and client_of :: "'s \<Rightarrow> ip \<Rightarrow> bool" and eg_served :: "ip \<Rightarrow> bool" +
  assumes get_keeps: "wp (pw_Get r req) (\<lambda>res s'. tunnels s' = tunnels s) s"
begin

lemma wp_addPod_new:
  "wp (addPod_new r existing ip) (\<lambda>res \<sigma>. snd \<sigma> = w \<and> tunnels s \<subseteq> tunnels (fst \<sigma>) \<and>
    (\<forall>u. res = Inr u \<longrightarrow> tunnels (fst \<sigma>) = tunnels s \<union> added served existing [ip])) (s, w)"
  unfolding addPod_new_def
  by (auto intro!: tunnel_wp client_wp simp: wp_simps added_def split: sum.splits)

lemma wp_add_loop:
  "wp (for_each (addPod_new r existing) ips) (\<lambda>res \<sigma>. case res of
      Inl _ \<Rightarrow> snd \<sigma> = w \<and> tunnels s \<subseteq> tunnels (fst \<sigma>)
    | Inr _ \<Rightarrow> snd \<sigma> = w \<and> tunnels (fst \<sigma>) = tunnels s \<union> added served existing ips) (s, w)"
proof (rule wp_for_each, goal_cases)
  case (2 ys ip zs \<sigma>)
  obtain t where t: "\<sigma> = (t, w)" using 2(2) by (cases \<sigma>) auto
  show ?case
    unfolding t by (rule wp_addPod_new [THEN wp_conseq])
      (use 2(2) t in \<open>auto simp: added_def split: sum.splits\<close>)
qed (simp add: added_def)

lemma wp_addPod_old:
  "wp (addPod_old r ips eip) (\<lambda>res \<sigma>. snd \<sigma> = w \<and>
    (\<forall>u. res = Inr u \<longrightarrow> tunnels (fst \<sigma>) = tunnels s - dropped [eip] ips)) (s, w)"
  unfolding addPod_old_def
  by (auto intro!: tunnel_wp simp: wp_simps dropped_def split: sum.splits)

lemma wp_drop_loop:
  "wp (for_each (addPod_old r ips) existing) (\<lambda>res \<sigma>. case res of
      Inl _ \<Rightarrow> snd \<sigma> = w
    | Inr _ \<Rightarrow> snd \<sigma> = w \<and> tunnels (fst \<sigma>) = tunnels s - dropped existing ips) (s, w)"
proof (rule wp_for_each, goal_cases)
  case (2 ys eip zs \<sigma>)
  obtain t where t: "\<sigma> = (t, w)" using 2(2) by (cases \<sigma>) auto
  show ?case
    unfolding t by (rule wp_addPod_old [THEN wp_conseq])
      (use 2(2) t in \<open>auto simp: dropped_def split: sum.splits\<close>)
qed (simp add: dropped_def)

lemma wp_addPod:
  assumes "key = pod_key (pod_Namespace p) (pod_Name p)" "ips = map ParseIP (PodIPs p)"
    "existing = (case podAddrs w key of None \<Rightarrow> [] | Some xs \<Rightarrow> xs)"
  shows "wp (addPod r p) (\<lambda>res \<sigma>. case res of
      Inl e \<Rightarrow> snd \<sigma> = w
    | Inr _ \<Rightarrow> snd \<sigma> = register key ips w \<and>
        tunnels (fst \<sigma>) = tunnels s \<union> added served existing ips - dropped existing ips) (s, w)"
  unfolding addPod_def wp_bindE [of get_watch] wp_get_watch sum.case Let_def assms(1,2,3) [symmetric]
proof (rule wp_seq [where R = "\<lambda>_ \<sigma>. snd \<sigma> = w \<and> tunnels (fst \<sigma>) = tunnels s \<union> added served existing ips"],
    goal_cases)
  case 1
  show ?case by (rule wp_add_loop [THEN wp_conseq]) (auto split: sum.splits)
next
  case (2 u \<sigma>)
  obtain s1 where s1: "\<sigma> = (s1, w)" using 2 by (cases \<sigma>) auto
  show ?case
    unfolding wp_bindE s1
    by (rule wp_drop_loop [THEN wp_conseq]) (use 2 s1 in \<open>auto simp: wp_simps split: sum.splits prod.splits\<close>)
qed

lemma wp_delPeer_step:
  assumes "consistent K w"
  shows "wp (delPeer_step r key ip) (\<lambda>res \<sigma>. case res of
      Inl _ \<Rightarrow> snd \<sigma> = w \<and> tunnels (fst \<sigma>) = tunnels s
    | Inr _ \<Rightarrow> has_key w key (IP_String ip) \<and> snd \<sigma> = drop_key key (IP_String ip) w \<and>
        tunnels (fst \<sigma>) = (if \<exists>k. k \<noteq> key \<and> has_key w k (IP_String ip) then tunnels s
          else tunnels s - {fouName ip})) (s, w)"
proof (cases "existsOtherLivePeers w key (IP_String ip)")
  case (Inl e)
  then show ?thesis by (simp add: delPeer_step_def wp_simps)
next
  case (Inr live)
  then have live: "has_key w key (IP_String ip)"
      "live \<longleftrightarrow> (\<exists>k. k \<noteq> key \<and> has_key w k (IP_String ip))"
    using existsOther_iff [OF assms, of key "IP_String ip" live] by blast+
  have "wp (if \<not> live then on_kernel (ft_DelPeer (pw_ft r) ip) else ret ()) (\<lambda>res \<sigma>. snd \<sigma> = w \<and>
      tunnels (fst \<sigma>) = (if live \<or> res \<noteq> Inr () then tunnels s else tunnels s - {fouName ip})) (s, w)"
    by (auto intro!: tunnel_wp simp: wp_simps split: sum.splits)
  then show ?thesis
    unfolding delPeer_step_def wp_bindE wp_get_watch sum.case Inr
    by (rule wp_conseq) (auto simp: wp_simps live(1) live(2) [symmetric] split: sum.splits prod.splits)
qed

lemma wp_delPeer_loop:
  assumes "consistent K w"
  shows "wp (for_each (delPeer_step r key) ips) (\<lambda>res \<sigma>. case res of
      Inl _ \<Rightarrow> consistent (insert key K) (snd \<sigma>) \<and> podAddrs (snd \<sigma>) = podAddrs w
    | Inr _ \<Rightarrow> consistent (insert key K) (snd \<sigma>) \<and> podAddrs (snd \<sigma>) = podAddrs w \<and>
        (\<forall>k a. has_key (snd \<sigma>) k a \<longleftrightarrow> has_key w k a \<and> \<not> (k = key \<and> a \<in> IP_String ` set ips)) \<and>
        tunnels (fst \<sigma>) = tunnels s - sole w key ips) (s, w)"
proof (rule wp_for_each, goal_cases)
  case 1
  show ?case using assms by (auto simp: sole_def intro: consistent_mono)
next
  case (2 ys ip zs \<sigma>)
  obtain s1 w1 where sw: "\<sigma> = (s1, w1)" by (cases \<sigma>)
  have con: "consistent (insert key K) w1" using 2(2) sw by simp
  have others: "(\<exists>k. k \<noteq> key \<and> has_key w1 k a) \<longleftrightarrow> (\<exists>k. k \<noteq> key \<and> has_key w k a)" for a
    using 2(2) sw by auto
  show ?case
    unfolding sw
  proof (rule wp_delPeer_step [OF con, THEN wp_conseq], goal_cases)
    case (1 res \<sigma>')
    show ?case
    proof (cases res)
      case (Inl e)
      with 1 2 sw con show ?thesis by auto
    next
      case (Inr u)
      have "consistent (insert key K) (snd \<sigma>')"
        using consistent_drop [OF con, of key "IP_String ip"] 1 Inr by simp
      moreover have "tunnels (fst \<sigma>') = tunnels s - sole w key (ys @ [ip])"
        using 1 Inr 2(2) sw by (auto simp: sole_def others)
      ultimately show ?thesis
        using 1 Inr 2(2) sw by (auto simp: has_key_drop)
    qed
  qed
qed

lemma wp_delPeer:
  assumes "consistent K w" "ips = (case podAddrs w key of None \<Rightarrow> [] | Some xs \<Rightarrow> xs)"
  shows "wp (delPeer r key) (\<lambda>res \<sigma>. case res of
      Inl _ \<Rightarrow> consistent (insert key K) (snd \<sigma>) \<and> podAddrs (snd \<sigma>) = podAddrs w
    | Inr _ \<Rightarrow> consistent (K - {key}) (snd \<sigma>) \<and> podAddrs (snd \<sigma>) = (podAddrs w)(key := None) \<and>
        (\<forall>k a. has_key (snd \<sigma>) k a \<longleftrightarrow> has_key w k a \<and> \<not> (k = key \<and> a \<in> IP_String ` set ips)) \<and>
        tunnels (fst \<sigma>) = tunnels s - sole w key ips) (s, w)"
  unfolding delPeer_def wp_bindE wp_get_watch sum.case assms(2) [symmetric]
proof (rule wp_delPeer_loop [OF assms(1), THEN wp_conseq], goal_cases)
  case (1 res \<sigma>)
  have "consistent (K - {key}) (unregister key (snd \<sigma>))" if "consistent (insert key K) (snd \<sigma>)"
    using consistent_unregister [OF that, of key] by simp
  with 1 show ?case
    by (cases \<sigma>; cases res) (auto simp: wp_simps unregister_def has_key_def Let_def)
qed

text \<open>Reconciling keeps the maps consistent; an error can leave one pod's entries behind.\<close>

lemma handle_consistent:
  assumes "consistent K w"
  shows "wp (handle r req res) (\<lambda>out \<sigma>. (case out of
      Inl _ \<Rightarrow> \<exists>L. finite L \<and> consistent (K \<union> L) (snd \<sigma>)
    | Inr _ \<Rightarrow> consistent K (snd \<sigma>))) (s, w)"
proof -
  have del: "wp (delPeer r key) (\<lambda>res \<sigma>. case res of
      Inl _ \<Rightarrow> \<exists>L. finite L \<and> consistent (K \<union> L) (snd \<sigma>) | Inr _ \<Rightarrow> consistent K (snd \<sigma>)) (s, w)" for key
    by (rule wp_delPeer [OF assms refl, THEN wp_conseq])
      (auto split: sum.splits intro: exI [of _ "{key}"] consistent_mono)
  have add: "wp (addPod r p) (\<lambda>res \<sigma>. case res of
      Inl _ \<Rightarrow> \<exists>L. finite L \<and> consistent (K \<union> L) (snd \<sigma>) | Inr _ \<Rightarrow> consistent K (snd \<sigma>)) (s, w)" for p
    by (rule wp_addPod [OF refl refl refl, THEN wp_conseq])
      (use assms in \<open>auto split: sum.splits intro: exI [of _ "{}"] consistent_mono consistent_register\<close>)
  show ?thesis
    using add del assms
    by (auto simp: handle_def wp_simps delTerminatedPod_def delPod_def split: sum.splits)
qed

lemma wp_Reconcile_consistent:
  assumes "consistent K w"
  shows "wp (Reconcile r req) (\<lambda>res \<sigma>. (case res of
      Inl _ \<Rightarrow> \<exists>L. finite L \<and> consistent (K \<union> L) (snd \<sigma>)
    | Inr _ \<Rightarrow> consistent K (snd \<sigma>))) (s, w)"
  unfolding Reconcile_handle wp_bind wp_on_kernel
  by (rule get_keeps [THEN wp_conseq]) (rule handle_consistent [OF assms])

lemma addPod_connected:
  assumes "connected served (tunnels s) w" "distinct_addrs w"
  shows "wp (addPod r p) (\<lambda>res \<sigma>. \<forall>u. res = Inr u \<longrightarrow> connected served (tunnels (fst \<sigma>)) (snd \<sigma>)) (s, w)"
proof (rule wp_addPod [OF refl refl refl, THEN wp_conseq], goal_cases)
  case (1 res \<sigma>)
  let ?key = "pod_key (pod_Namespace p) (pod_Name p)" and ?ips = "map ParseIP (PodIPs p)"
  let ?old = "case podAddrs w ?key of None \<Rightarrow> [] | Some xs \<Rightarrow> xs"
  have old: "eip \<in> set ?old \<longleftrightarrow> registered w ?key eip" for eip
    by (cases "podAddrs w ?key") (simp_all add: registered_def)
  have "fouName ip \<in> tunnels (fst \<sigma>)"
    if res: "res = Inr u" and reg: "registered (register ?key ?ips w) key ip"
      and v4: "To4 ip \<noteq> nil_IP" and srv: "served ip" for key ip u
  proof (cases "key = ?key")
    case True
    then have ip: "ip \<in> set ?ips" using reg by (simp add: registered_register)
    then have nd: "fouName ip \<notin> dropped ?old ?ips"
      using v4 Equal_sym by (auto simp: dropped_v4)
    show ?thesis
    proof (cases "\<exists>eip \<in> set ?old. Equal ip eip")
      case True
      then obtain eip where eip: "registered w ?key eip" "Equal ip eip" using old by blast
      have "To4 eip \<noteq> nil_IP" "served eip" "fouName eip = fouName ip"
        using eip(2) v4 srv Equal_To4 served_Equal Equal_fouName by metis+
      then have "fouName ip \<in> tunnels s" using assms(1) eip(1) unfolding connected_def by metis
      with 1 res nd show ?thesis by auto
    next
      case False
      then have "fouName ip \<in> added served ?old ?ips" using ip srv unfolding added_def by blast
      then show ?thesis using 1 nd unfolding res sum.case by blast
    qed
  next
    case False
    then have reg': "registered w key ip" using reg by (simp add: registered_register)
    have "fouName ip \<notin> dropped ?old ?ips"
      using assms(2) reg' False old unfolding dropped_v4 [OF v4] distinct_addrs_def by blast
    moreover have "fouName ip \<in> tunnels s"
      using assms(1) reg' srv v4 by (auto simp: connected_def)
    ultimately show ?thesis using 1 res by auto
  qed
  with 1 show ?case by (auto simp: connected_def)
qed

lemma delPeer_connected:
  assumes "connected served (tunnels s) w" "consistent {} w"
  shows "wp (delPeer r key) (\<lambda>res \<sigma>. \<forall>u. res = Inr u \<longrightarrow> connected served (tunnels (fst \<sigma>)) (snd \<sigma>)) (s, w)"
proof (rule wp_delPeer [OF assms(2) refl, THEN wp_conseq], goal_cases)
  case (1 res \<sigma>)
  have "fouName ip \<in> tunnels (fst \<sigma>)"
    if res: "res = Inr u" and reg: "registered (snd \<sigma>) k ip" and v4: "To4 ip \<noteq> nil_IP"
      and srv: "served ip" for k ip u
  proof -
    have k: "k \<noteq> key" "registered w k ip"
      using reg 1 res by (auto simp: registered_def split: if_splits)
    then have "has_key w k (IP_String ip)" using assms(2) by (simp add: consistent_def)
    then have "fouName ip \<notin> sole w key ips" for ips using sole_v4 [OF v4 _ k(1)] by blast
    moreover have "fouName ip \<in> tunnels s"
      using assms(1) k srv v4 by (auto simp: connected_def)
    ultimately show ?thesis using 1 res by auto
  qed
  then show ?case by (auto simp: connected_def)
qed

lemma handle_connected:
  assumes "connected served (tunnels s) w" "consistent {} w" "distinct_addrs w"
  shows "wp (handle r req res) (\<lambda>out \<sigma>. \<forall>u. out = Inr u \<longrightarrow> connected served (tunnels (fst \<sigma>)) (snd \<sigma>)) (s, w)"
  using addPod_connected [OF assms(1,3)] delPeer_connected [OF assms(1,2)] assms(1)
  by (auto simp: handle_def wp_simps delTerminatedPod_def delPod_def split: sum.splits)

end

section \<open>On the tunnels and the egress of this program\<close>

text \<open>A kernel and an API client whose reads leave the kernel alone.\<close>

locale netlink_api = netlink_laws nl view for nl :: "'s netlink" and view :: "'s \<Rightarrow> kview" +
  fixes Get :: "NamespacedName \<Rightarrow> ('s, pod) go"
  assumes Get_view: "wp (Get req) (\<lambda>res s'. view s' = view s) s"

definition founat_watcher ::
  "'s netlink \<Rightarrow> (NamespacedName \<Rightarrow> ('s, pod) go) \<Rightarrow> string \<Rightarrow> string \<Rightarrow> fouTunnel \<Rightarrow> egress \<Rightarrow>
    's podWatcher" where
  "founat_watcher nl Get ns name t e =
    fst (SetupPodWatcher Get ns name (as_FoUTunnel nl t) (as_Egress nl e))"

lemma founat_watcher_simps [simp]:
  "pw_ft (founat_watcher nl Get ns name t e) = as_FoUTunnel nl t"
  "pw_eg (founat_watcher nl Get ns name t e) = as_Egress nl e"
  "pw_Get (founat_watcher nl Get ns name t e) = Get"
  "myNS (founat_watcher nl Get ns name t e) = ns" "myName (founat_watcher nl Get ns name t e) = name"
  by (simp_all add: founat_watcher_def SetupPodWatcher_def)

sublocale netlink_api \<subseteq> gw: gateway "founat_watcher nl Get ns name t e"
    "\<lambda>s. fou_links (view s)" "supports t" "\<lambda>s. has_client (view s)" "\<lambda>a. eg_serves e (ip_family a)"
    for ns name t e
proof (unfold_locales, unfold founat_watcher_simps)
  fix a s l req
  show "wp (ft_AddPeer (as_FoUTunnel nl t) a) (\<lambda>r s'. case r of
      Inl e \<Rightarrow> (Is_ErrIPFamilyMismatch e \<longleftrightarrow> \<not> supports t a) \<and> (\<not> supports t a \<longrightarrow> s' = s) \<and>
        (fou_links (view s') = fou_links (view s) \<or>
         fou_links (view s') = insert (fouName a) (fou_links (view s)))
    | Inr l \<Rightarrow> supports t a \<and> fou_links (view s') = insert (fouName a) (fou_links (view s))) s"
    by (rule fou.peer_added)
  show "wp (ft_DelPeer (as_FoUTunnel nl t) a) (\<lambda>r s'. case r of
      Inl e \<Rightarrow> fou_links (view s') = fou_links (view s)
    | Inr _ \<Rightarrow> fou_links (view s') = fou_links (view s) - {fouName a}) s"
    by (rule fou.peer_deleted)
  show "wp (eg_AddClient (as_Egress nl e) a l) (\<lambda>r s'. fou_links (view s') = fou_links (view s) \<and>
      (\<forall>b. has_client (view s) b \<longrightarrow> has_client (view s') b) \<and>
      (case r of Inl err \<Rightarrow> Is_ErrIPFamilyMismatch err \<longleftrightarrow> \<not> eg_serves e (ip_family a)
       | Inr _ \<Rightarrow> eg_serves e (ip_family a) \<and> has_client (view s') a)) s"
    by (rule eg.client_added)
  show "wp (Get req) (\<lambda>res s'. fou_links (view s') = fou_links (view s)) s"
    by (rule Get_view [THEN wp_conseq]) simp
qed (rule fou.served_Equal)

section \<open>Failed deletions\<close>

lemma delPeer_step_watch:
  "wp (delPeer_step r key ip) (\<lambda>res \<sigma>. case res of
      Inl _ \<Rightarrow> snd \<sigma> = w | Inr _ \<Rightarrow> snd \<sigma> = drop_key key (IP_String ip) w) (s, w)"
  unfolding delPeer_step_def wp_bindE wp_get_watch sum.case
  by (auto intro!: wp_conseq [where P = "\<lambda>res \<sigma>. snd \<sigma> = w"] simp: wp_simps split: sum.splits)

lemma delPeer_loop_watch:
  "\<not> has_key w key a \<Longrightarrow> podAddrs w = A \<Longrightarrow>
    wp (for_each (delPeer_step r key) ips) (\<lambda>res \<sigma>. \<not> has_key (snd \<sigma>) key a \<and>
      podAddrs (snd \<sigma>) = A) (s, w)"
proof (induction ips arbitrary: s w)
  case (Cons ip ips)
  show ?case
    unfolding for_each.simps wp_bindE
    by (rule delPeer_step_watch [THEN wp_conseq])
      (use Cons in \<open>auto simp: has_key_drop split: sum.splits prod.splits\<close>)
qed (simp add: wp_return)

text \<open>Without the pod's key at its first address, deletion fails before it does anything.\<close>

lemma delPeer_stuck:
  assumes "podAddrs w key = Some (ip # ips)" "\<not> has_key w key (IP_String ip)"
  shows "\<exists>e. run_state (delPeer r key) (s, w) = (Inl e, (s, w))"
proof -
  have "\<exists>e. existsOtherLivePeers w key (IP_String ip) = Inl e"
    using assms(2) by (auto simp: existsOtherLivePeers_def has_key_def split: option.splits)
  then show ?thesis
    using assms(1) by (auto simp: delPeer_def delPeer_step_def run_bindE get_watch_def)
qed

lemma delPeer_error_progress:
  assumes "run_state (delPeer r key) (s, w) = (Inl e, (s', w'))" "w' \<noteq> w"
  shows "\<exists>ip ips. podAddrs w' key = Some (ip # ips) \<and> \<not> has_key w' key (IP_String ip)"
proof -
  let ?Q = "\<lambda>res \<sigma>. (\<exists>e. res = Inl e) \<longrightarrow> snd \<sigma> \<noteq> w \<longrightarrow>
    (\<exists>ip ips. podAddrs (snd \<sigma>) key = Some (ip # ips) \<and> \<not> has_key (snd \<sigma>) key (IP_String ip))"
  have "wp (for_each (delPeer_step r key) (case podAddrs w key of None \<Rightarrow> [] | Some ips \<Rightarrow> ips))
      ?Q (s, w)"
  proof (cases "case podAddrs w key of None \<Rightarrow> [] | Some ips \<Rightarrow> ips")
    case (Cons ip ips)
    then have addrs: "podAddrs w key = Some (ip # ips)" by (auto split: option.splits)
    show ?thesis
      unfolding Cons for_each.simps wp_bindE
    proof (rule delPeer_step_watch [THEN wp_conseq], goal_cases)
      case (1 res \<sigma>)
      show ?case
      proof (cases res)
        case (Inr u)
        then have "snd \<sigma> = drop_key key (IP_String ip) w" using 1 by simp
        then have "\<not> has_key (snd \<sigma>) key (IP_String ip)" "podAddrs (snd \<sigma>) = podAddrs w"
          by (simp_all add: has_key_drop)
        from delPeer_loop_watch [OF this, of r ips "fst \<sigma>"]
        have "wp (for_each (delPeer_step r key) ips) ?Q \<sigma>"
          by (simp, elim wp_conseq) (use addrs in auto)
        with Inr show ?thesis by simp
      qed (use 1 in simp)
    qed
  qed (simp add: wp_return)
  then have "wp (delPeer r key) ?Q (s, w)"
    unfolding delPeer_def wp_bindE [of get_watch] wp_get_watch sum.case wp_bindE
    by (rule wp_conseq) (auto simp: upd_watch_def wp_def split: sum.splits prod.splits)
  from wp_runD [OF this assms(1)] assms(2) show ?thesis by simp
qed

end
