(* ===== verification/Agent.thy ===== *)
theory Agent
  imports Nat_Client Pod_Watcher "HOL-Library.List_Lexorder" "HOL-Library.Char_ord"
begin

text \<open>
  \<^verbatim>\<open>runners/agent.go\<close>: the gRPC server on each node.  \<^verbatim>\<open>Add\<close> finds the gateways a pod asks for by
  its annotations, reads the pod's addresses from the result of the previous CNI plugin, and sets up
  tunnels and policy routing in the pod's network namespace.  Parameters: the API clients (in the
  record of the agent), the CNI library and JSON (\<open>cni_lib\<close>), and \<^verbatim>\<open>ns.WithNetNSPath\<close>.
\<close>

section \<open>Errors\<close>

text \<open>\<^verbatim>\<open>WithDetails\<close> refuses a status that is \<^verbatim>\<open>OK\<close>.\<close>

definition newError :: "grpc_code \<Rightarrow> ErrorCode \<Rightarrow> string \<Rightarrow> string \<Rightarrow> err" where
  "newError c cniCode msg details =
    (if c = OK then Panic ''no error details for status with code OK''
     else StatusError c msg [CNIError cniCode msg details])"

section \<open>Configuration\<close>

record Interface =
  if_Name :: string
  if_Sandbox :: string

record IPConfig =
  ic_Interface :: "int option"
  ic_Address :: ipnet

record Result =
  Interfaces :: "Interface list"
  IPs :: "IPConfig list"
  res_rest :: string

text \<open>\<^verbatim>\<open>types.NetConf\<close>; a previous result as the library represents it is of type \<open>'p\<close>.\<close>

record 'p NetConf =
  RawPrevResult :: "string option"
  PrevResult :: "'p option"
  CNIVersion :: string

record 'p PluginConf = "'p NetConf" +
  ContIPv4 :: ipnet
  ContIPv6 :: ipnet

text \<open>
  \<^verbatim>\<open>json.Unmarshal\<close> into a \<^verbatim>\<open>NetConf\<close>, \<^verbatim>\<open>version.ParsePrevResult\<close>, \<^verbatim>\<open>current.NewResultFromResult\<close>,
  \<^verbatim>\<open>json.Marshal\<close> of a result, and \<^verbatim>\<open>err.Error()\<close>.
\<close>

record 'p cni_lib =
  Unmarshal :: "string \<Rightarrow> err + 'p NetConf"
  ParsePrevResult :: "'p NetConf \<Rightarrow> err + 'p NetConf"
  NewResultFromResult :: "'p option \<Rightarrow> err + Result"
  Marshal :: "Result option \<Rightarrow> err + string"
  Error :: "err \<Rightarrow> string"

definition newInternalError :: "'p cni_lib \<Rightarrow> err \<Rightarrow> string \<Rightarrow> err" where
  "newInternalError lib e msg = newError Internal INTERNAL msg (Error lib e)"

text \<open>The zero \<^verbatim>\<open>net.IPNet\<close>.\<close>

definition zero_net :: ipnet where "zero_net = \<lparr>IP = nil_IP, Mask = []\<rparr>"

definition non_sandbox :: "string \<Rightarrow> Interface list \<Rightarrow> IPConfig \<Rightarrow> bool" where
  "non_sandbox ifName ifaces ip =
    (case ic_Interface ip of
       None \<Rightarrow> False
     | Some intIdx \<Rightarrow> 0 \<le> intIdx \<and> intIdx < int (length ifaces) \<and>
         (if_Name (ifaces ! nat intIdx) \<noteq> ifName \<or> if_Sandbox (ifaces ! nat intIdx) = ''''))"

fun contIPs :: "string \<Rightarrow> Interface list \<Rightarrow> IPConfig list \<Rightarrow> ipnet \<Rightarrow> ipnet \<Rightarrow> ipnet \<times> ipnet" where
  "contIPs ifName ifaces [] v4 v6 = (v4, v6)"
| "contIPs ifName ifaces (ip # ips) v4 v6 =
    (let isIPv4 = To4 (IP (ic_Address ip)) \<noteq> nil_IP in
     if \<not> isIPv4 \<and> IP v6 \<noteq> nil_IP then contIPs ifName ifaces ips v4 v6
     else if isIPv4 \<and> IP v4 \<noteq> nil_IP then contIPs ifName ifaces ips v4 v6
     else if non_sandbox ifName ifaces ip then contIPs ifName ifaces ips v4 v6
     else if To4 (IP (ic_Address ip)) \<noteq> nil_IP then contIPs ifName ifaces ips (ic_Address ip) v6
     else contIPs ifName ifaces ips v4 (ic_Address ip))"

definition parseConfig ::
  "'p cni_lib \<Rightarrow> string \<Rightarrow> string \<Rightarrow> err + 'p PluginConf \<times> Result option" where
  "parseConfig lib stdin ifName =
    (case Unmarshal lib stdin of
       Inl e \<Rightarrow> Inl (OtherError (''failed to parse network configuration: '' @ Error lib e))
     | Inr nc0 \<Rightarrow>
         (case (if RawPrevResult nc0 \<noteq> None then
             (case ParsePrevResult lib nc0 of
                Inl e \<Rightarrow> Inl (OtherError (''could not parse prevResult: '' @ Error lib e))
              | Inr nc \<Rightarrow>
                  (case NewResultFromResult lib (PrevResult nc) of
                     Inl e \<Rightarrow> Inl (OtherError (''could not convert result to current version: '' @ Error lib e))
                   | Inr res \<Rightarrow> Inr (nc, Some res)))
           else Inr (nc0, None)) of
            Inl e \<Rightarrow> Inl e
          | Inr (nc, result) \<Rightarrow>
              let conf = (\<lambda>v4 v6. \<lparr>RawPrevResult = RawPrevResult nc, PrevResult = PrevResult nc,
                    CNIVersion = CNIVersion nc, ContIPv4 = v4, ContIPv6 = v6\<rparr>)
              in if PrevResult nc \<noteq> None then
                   (case result of
                      None \<Rightarrow> Inl (Panic ''nil pointer dereference'')
                    | Some res \<Rightarrow>
                        let (v4, v6) = contIPs ifName (Interfaces res) (IPs res) zero_net zero_net
                        in Inr (conf v4 v6, result))
                 else Inr (conf zero_net zero_net, result)))"

section \<open>Gateways\<close>

record GWNets =
  Gateway :: ip
  Networks :: "ipnet list"

text \<open>Of a Service, the field the agent reads.\<close>

record ServiceIP =
  ClusterIP :: string

record 's egressGwAgent =
  apiReader_GetPod :: "NamespacedName \<Rightarrow> ('s, pod) go"
  client_GetEgress :: "NamespacedName \<Rightarrow> ('s, EgressObj) go"
  client_GetService :: "NamespacedName \<Rightarrow> ('s, ServiceIP) go"
  egressPort :: int

definition Name_String :: "NamespacedName \<Rightarrow> string" where
  "Name_String n = fst n @ ''/'' @ snd n"

fun egNames :: "(string \<times> string) list \<Rightarrow> NamespacedName list" where
  "egNames [] = []"
| "egNames ((k, v) # rest) =
    (if \<not> HasPrefix k AnnEgressPrefix then egNames rest
     else map (\<lambda>name. (drop (length AnnEgressPrefix) k, name)) (Split CHR '','' v) @ egNames rest)"

fun parse_subnets :: "'p cni_lib \<Rightarrow> NamespacedName \<Rightarrow> bool \<Rightarrow> string list \<Rightarrow> err + ipnet list" where
  "parse_subnets lib n v4 [] = Inr []"
| "parse_subnets lib n v4 (sn # rest) =
    (case ParseCIDR sn of
       Inl e \<Rightarrow> Inl (newInternalError lib e (''invalid network in Egress '' @ Name_String n))
     | Inr (_, subnet) \<Rightarrow>
         (case parse_subnets lib n v4 rest of
            Inl e \<Rightarrow> Inl e
          | Inr subnets \<Rightarrow>
              Inr (if (To4 (IP subnet) \<noteq> nil_IP) = v4 then subnet # subnets else subnets)))"

text \<open>A call whose error is turned into another; a panic passes.\<close>

definition map_err :: "(err \<Rightarrow> err) \<Rightarrow> ('s, 'a) go \<Rightarrow> ('s, 'a) go" where
  "map_err f m = State_Monad.bind m (\<lambda>r. case r of
     Inl e \<Rightarrow> fail (case e of Panic p \<Rightarrow> Panic p | _ \<Rightarrow> f e)
   | Inr x \<Rightarrow> ret x)"

fun gwlist :: "'s egressGwAgent \<Rightarrow> 'p cni_lib \<Rightarrow> NamespacedName list \<Rightarrow> GWNets list \<Rightarrow>
    ('s, GWNets list) go" where
  "gwlist e lib [] acc = ret acc"
| "gwlist e lib (n # ns) acc =
    bindE (map_err (\<lambda>err. newError FailedPrecondition INTERNAL
        (''failed to get Egress '' @ Name_String n) (Error lib err)) (client_GetEgress e n)) (\<lambda>eg.
    bindE (map_err (\<lambda>err. newError FailedPrecondition INTERNAL
        (''failed to get Service '' @ Name_String n) (Error lib err)) (client_GetService e n)) (\<lambda>svc.
    let svcIP = ParseIP (ClusterIP svc) in
    if svcIP = nil_IP then
      fail (newError Internal INTERNAL (''invalid ClusterIP in Service '' @ Name_String n) (ClusterIP svc))
    else
      let v4 = (To4 svcIP \<noteq> nil_IP); svcIP' = (if v4 then To4 svcIP else svcIP) in
      case parse_subnets lib n v4 (Destinations (Spec eg)) of
        Inl err \<Rightarrow> fail err
      | Inr subnets \<Rightarrow>
          gwlist e lib ns (if 0 < length subnets
            then acc @ [\<lparr>Gateway = svcIP', Networks = subnets\<rparr>] else acc)))"

definition getGWNets :: "'s egressGwAgent \<Rightarrow> 'p cni_lib \<Rightarrow> pod \<Rightarrow> ('s, GWNets list) go" where
  "getGWNets e lib p =
    (if HostNetwork p then ret []
     else if length (egNames (Annotations p)) = 0 then ret []
     else gwlist e lib (egNames (Annotations p)) [])"

section \<open>Setup\<close>

definition setup_gateway :: "'s FoUTunnel \<Rightarrow> 's NatClient \<Rightarrow> GWNets \<Rightarrow> ('s, unit) go" where
  "setup_gateway ft cl gwn = do {
    r \<leftarrow> ft_AddPeer ft (Gateway gwn);
    case r of
      Inl e \<Rightarrow> if Is_ErrIPFamilyMismatch e then ret () else fail e
    | Inr link \<Rightarrow> nat_AddEgress cl link (Networks gwn)
  }"

definition setupEgressGW ::
  "'s netlink \<Rightarrow> int \<Rightarrow> ip \<Rightarrow> ip \<Rightarrow> GWNets list \<Rightarrow> ('s, unit) go" where
  "setupEgressGW nl port ipv4 ipv6 l =
    (case NewFoUTunnel nl 0 port ipv4 ipv6 of
       Inl e \<Rightarrow> fail e
     | Inr ft \<Rightarrow>
         bindE (ft_Init ft) (\<lambda>_.
         case NewNatClient ipv4 ipv6 [] of
           Inl e \<Rightarrow> fail e
         | Inr c \<Rightarrow>
             let cl = as_NatClient nl c in
             bindE (nat_Init cl) (\<lambda>_. for_each (setup_gateway ft cl) l)))"

section \<open>The handlers\<close>

text \<open>The generated message \<^verbatim>\<open>cnirpc.CNIArgs\<close>; the map as its list of entries.\<close>

record CNIArgs =
  ContainerId :: string
  Netns :: string
  Ifname :: string
  Args :: "(string \<times> string) list"
  Path :: string
  StdinData :: string

text \<open>Reading a key that is not in a map gives the empty string.\<close>

definition map_get :: "(string \<times> string) list \<Rightarrow> string \<Rightarrow> string" where
  "map_get m k = (case map_of m k of None \<Rightarrow> '''' | Some v \<Rightarrow> v)"

text \<open>\<^verbatim>\<open>fmt.Sprintf("%+v", m)\<close> of a map prints the entries in the order of the keys.\<close>

definition Sprint_map :: "(string \<times> string) list \<Rightarrow> string" where
  "Sprint_map m = ''map['' @ Join (map (\<lambda>(k, v). k @ '':'' @ v) (sort_key fst m)) '' '' @ '']''"

text \<open>The fields of a request for the log; nil for a message of another type.\<close>

definition fieldExtractor :: "CNIArgs option \<Rightarrow> (string \<times> string) list option" where
  "fieldExtractor req =
    (case req of
       None \<Rightarrow> None
     | Some args \<Rightarrow> Some (
         (case map_of (Args args) PodNameKey of None \<Rightarrow> [] | Some name \<Rightarrow> [(''pod.name'', name)]) @
         (case map_of (Args args) PodNamespaceKey of None \<Rightarrow> [] | Some ns \<Rightarrow> [(''pod.namespace'', ns)]) @
         [(''netns'', Netns args), (''ifname'', Ifname args), (''container_id'', ContainerId args)]))"

definition Add ::
  "'s egressGwAgent \<Rightarrow> 'p cni_lib \<Rightarrow> 's netlink \<Rightarrow> (string \<Rightarrow> ('s, unit) go \<Rightarrow> ('s, unit) go) \<Rightarrow>
    CNIArgs \<Rightarrow> ('s, string) go" where
  "Add e lib nl WithNetNSPath args =
    (let podName = map_get (Args args) PodNameKey;
         podNS = map_get (Args args) PodNamespaceKey
     in if podName = '''' \<or> podNS = '''' then
          fail (newError InvalidArgument INVALID_ENVIRONMENT_VARIABLES
            ''missing pod name/namespace'' (Sprint_map (Args args)))
        else
          bindE (map_err (\<lambda>err. if IsNotFound err
              then newError NotFound UNKNOWN_CONTAINER ''pod not found'' (Error lib err)
              else newInternalError lib err ''failed to get pod'')
            (apiReader_GetPod e (podNS, podName))) (\<lambda>pod.
          bindE (map_err (\<lambda>err. newInternalError lib err ''failed to get egress GW'')
            (getGWNets e lib pod)) (\<lambda>g.
          case parseConfig lib (StdinData args) (Ifname args) of
            Inl (Panic p) \<Rightarrow> fail (Panic p)
          | Inl _ \<Rightarrow> fail (newError InvalidArgument DECODING_FAILURE
              ''unable to parse CNI configuration'' (Sprint_map (Args args)))
          | Inr (n, prevRes) \<Rightarrow>
              bindE (if g \<noteq> [] then
                  map_err (\<lambda>err. newInternalError lib err ''failed to setup egress GW'')
                    (WithNetNSPath (Netns args)
                      (setupEgressGW nl (egressPort e) (IP (ContIPv4 n)) (IP (ContIPv6 n)) g))
                else ret ()) (\<lambda>_.
              case Marshal lib prevRes of
                Inl err \<Rightarrow> fail (newInternalError lib err ''failed to marshal the result'')
              | Inr data \<Rightarrow> ret data))))"

definition Del :: "CNIArgs \<Rightarrow> ('s, unit) go" where
  "Del args = ret ()"

definition Check :: "CNIArgs \<Rightarrow> ('s, unit) go" where
  "Check args = ret ()"

section \<open>The container's addresses\<close>

text \<open>The first address of a family that is not on a known interface outside the sandbox.\<close>

definition first_addr :: "bool \<Rightarrow> string \<Rightarrow> Interface list \<Rightarrow> IPConfig list \<Rightarrow> ip" where
  "first_addr v4 ifName ifaces ips =
    (case find (\<lambda>ip. IP (ic_Address ip) \<noteq> nil_IP \<and> (To4 (IP (ic_Address ip)) \<noteq> nil_IP) = v4 \<and>
        \<not> non_sandbox ifName ifaces ip) ips of
       None \<Rightarrow> nil_IP
     | Some ip \<Rightarrow> IP (ic_Address ip))"

lemma To4_nil [simp]: "To4 nil_IP = nil_IP"
  by (simp add: To4_def)

lemma contIPs_first:
  "IP (fst (contIPs ifName ifaces ips v4 v6)) =
      (if IP v4 \<noteq> nil_IP then IP v4 else first_addr True ifName ifaces ips) \<and>
    IP (snd (contIPs ifName ifaces ips v4 v6)) =
      (if IP v6 \<noteq> nil_IP then IP v6 else first_addr False ifName ifaces ips)"
proof (induction ips arbitrary: v4 v6)
  case (Cons ip ips)
  show ?case
    unfolding contIPs.simps Let_def using Cons.IH
    by (auto simp: first_addr_def)
qed (simp add: first_addr_def)

lemma first_addr_family:
  "first_addr True ifName ifaces ips = nil_IP \<or> To4 (first_addr True ifName ifaces ips) \<noteq> nil_IP"
  "To4 (first_addr False ifName ifaces ips) = nil_IP"
  by (auto simp: first_addr_def find_Some_iff split: option.splits)

section \<open>Networks and gateways\<close>

text \<open>The networks of one family among the destinations, and the gateway of one \<^verbatim>\<open>Egress\<close>.\<close>

definition nets_of :: "bool \<Rightarrow> string list \<Rightarrow> ipnet list" where
  "nets_of v4 ds = filter (\<lambda>n. (To4 (IP n) \<noteq> nil_IP) = v4)
    (concat (map (\<lambda>d. case ParseCIDR d of Inl _ \<Rightarrow> [] | Inr (_, n) \<Rightarrow> [n]) ds))"

definition gateway_of :: "EgressObj \<Rightarrow> ServiceIP \<Rightarrow> GWNets list" where
  "gateway_of eg svc =
    (let a = ParseIP (ClusterIP svc); v4 = (To4 a \<noteq> nil_IP); nets = nets_of v4 (Destinations (Spec eg))
     in if nets = [] then [] else [\<lparr>Gateway = (if v4 then To4 a else a), Networks = nets\<rparr>])"

text \<open>The gateways of a list of names, and a name for which nothing is missing or malformed.\<close>

definition gateways :: "(NamespacedName \<Rightarrow> EgressObj option) \<Rightarrow> (NamespacedName \<Rightarrow> ServiceIP option) \<Rightarrow>
    NamespacedName list \<Rightarrow> GWNets list" where
  "gateways egs svcs ns = concat (map (\<lambda>n. gateway_of (the (egs n)) (the (svcs n))) ns)"

definition complete :: "(NamespacedName \<Rightarrow> EgressObj option) \<Rightarrow> (NamespacedName \<Rightarrow> ServiceIP option) \<Rightarrow>
    NamespacedName \<Rightarrow> bool" where
  "complete egs svcs n \<longleftrightarrow> (\<exists>eg svc. egs n = Some eg \<and> svcs n = Some svc \<and>
    ParseIP (ClusterIP svc) \<noteq> nil_IP \<and> (\<forall>d \<in> set (Destinations (Spec eg)). \<exists>r. ParseCIDR d = Inr r))"

lemma parse_subnets_Inr:
  "parse_subnets lib n v4 ds = Inr ns \<longleftrightarrow> (\<forall>d \<in> set ds. \<exists>r. ParseCIDR d = Inr r) \<and> ns = nets_of v4 ds"
proof (induction ds arbitrary: ns)
  case (Cons d ds)
  show ?case
  proof (cases "ParseCIDR d")
    case (Inr r)
    then show ?thesis
      using Cons.IH by (cases r; cases "parse_subnets lib n v4 ds") (auto simp: nets_of_def)
  qed simp
qed (auto simp: nets_of_def)

lemma parse_subnets_Inl:
  "parse_subnets lib n v4 ds = Inl err \<Longrightarrow>
    \<exists>e. err = newInternalError lib e (''invalid network in Egress '' @ Name_String n)"
  by (induction ds) (auto split: sum.splits)

lemma wp_map_err [wp_simps]:
  "wp (map_err f m) Q s = wp m (\<lambda>r s'. case r of
      Inl e \<Rightarrow> Q (Inl (if is_panic e then e else f e)) s' | Inr x \<Rightarrow> Q (Inr x) s') s"
proof -
  have "(case e of Panic p \<Rightarrow> Panic p | _ \<Rightarrow> f e) = (if is_panic e then e else f e)" for e
    by (cases e) simp_all
  then show ?thesis by (simp add: map_err_def wp_def split: prod.splits sum.splits)
qed

text \<open>A status as the agent returns it: one CNI error, with the message of the status.\<close>

definition cni_status :: "(grpc_code \<times> ErrorCode) set \<Rightarrow> err \<Rightarrow> bool" where
  "cni_status C e \<longleftrightarrow> (\<exists>c code msg details. e = StatusError c msg [CNIError code msg details] \<and> (c, code) \<in> C)"

lemma newError_status [simp]:
  "cni_status C (newError c code msg details) \<longleftrightarrow> c \<noteq> OK \<and> (c, code) \<in> C"
  "cni_status C (newInternalError lib e msg) \<longleftrightarrow> (Internal, INTERNAL) \<in> C"
  by (simp_all add: cni_status_def newError_def newInternalError_def)

section \<open>The API clients\<close>

text \<open>
  What the agent relies on of its API clients: a read changes nothing in the pod's network
  namespace, and an object it returns is the one of that name.
\<close>

locale agent_api = netlink_laws nl view for nl :: "'s netlink" and view :: "'s \<Rightarrow> kview" +
  fixes e :: "'s egressGwAgent" and pods :: "NamespacedName \<Rightarrow> pod option"
    and egs :: "NamespacedName \<Rightarrow> EgressObj option" and svcs :: "NamespacedName \<Rightarrow> ServiceIP option"
  assumes GetPod: "wp (apiReader_GetPod e n) (\<lambda>r s'. env_err r \<and> view s' = view s \<and>
      (\<forall>x. r = Inr x \<longrightarrow> pods n = Some x)) s"
    and GetEgress: "wp (client_GetEgress e n) (\<lambda>r s'. env_err r \<and> view s' = view s \<and>
      (\<forall>x. r = Inr x \<longrightarrow> egs n = Some x)) s"
    and GetService: "wp (client_GetService e n) (\<lambda>r s'. env_err r \<and> view s' = view s \<and>
      (\<forall>x. r = Inr x \<longrightarrow> svcs n = Some x)) s"
begin

text \<open>What follows the two reads of one round.\<close>

lemma wp_gwlist_tail:
  assumes IH: "\<And>acc. wp (gwlist e lib ns acc) (\<lambda>r s'. view s' = view s2 \<and> (case r of
      Inl err \<Rightarrow> cni_status {(FailedPrecondition, INTERNAL), (Internal, INTERNAL)} err
    | Inr l \<Rightarrow> l = acc @ gateways egs svcs ns \<and> (\<forall>n \<in> set ns. complete egs svcs n))) s2"
    and n: "egs n = Some eg" "svcs n = Some svc" and "view s2 = v"
  shows "wp (let svcIP = ParseIP (ClusterIP svc) in
      if svcIP = nil_IP then
        fail (newError Internal INTERNAL (''invalid ClusterIP in Service '' @ Name_String n) (ClusterIP svc))
      else
        let v4 = (To4 svcIP \<noteq> nil_IP); svcIP' = (if v4 then To4 svcIP else svcIP) in
        case parse_subnets lib n v4 (Destinations (Spec eg)) of
          Inl err \<Rightarrow> fail err
        | Inr subnets \<Rightarrow> gwlist e lib ns (if 0 < length subnets
              then acc @ [\<lparr>Gateway = svcIP', Networks = subnets\<rparr>] else acc))
    (\<lambda>r s'. view s' = v \<and> (case r of
      Inl err \<Rightarrow> cni_status {(FailedPrecondition, INTERNAL), (Internal, INTERNAL)} err
    | Inr l \<Rightarrow> l = acc @ gateways egs svcs (n # ns) \<and> (\<forall>n \<in> set (n # ns). complete egs svcs n))) s2"
proof (cases "ParseIP (ClusterIP svc) = nil_IP")
  case True
  with assms(4) show ?thesis by (simp add: wp_return)
next
  case False
  let ?a = "ParseIP (ClusterIP svc)"
  show ?thesis
  proof (cases "parse_subnets lib n (To4 ?a \<noteq> nil_IP) (Destinations (Spec eg))")
    case (Inl err)
    with False assms(4) show ?thesis by (auto simp: wp_return dest: parse_subnets_Inl)
  next
    case (Inr subnets)
    then have "subnets = nets_of (To4 ?a \<noteq> nil_IP) (Destinations (Spec eg))"
        "\<forall>d \<in> set (Destinations (Spec eg)). \<exists>r. ParseCIDR d = Inr r"
      by (simp_all add: parse_subnets_Inr)
    with False n have "complete egs svcs n" "gateways egs svcs (n # ns) = (if 0 < length subnets
        then [\<lparr>Gateway = (if To4 ?a \<noteq> nil_IP then To4 ?a else ?a), Networks = subnets\<rparr>] else []) @ gateways egs svcs ns"
      by (auto simp: complete_def gateways_def gateway_of_def Let_def)
    with False Inr show ?thesis
      unfolding Let_def
      by (simp split del: if_split) (rule IH [THEN wp_conseq], use assms(4) in \<open>auto split: sum.splits\<close>)
  qed
qed

lemma wp_gwlist:
  "wp (gwlist e lib ns acc) (\<lambda>r s'. view s' = view s \<and> (case r of
      Inl err \<Rightarrow> cni_status {(FailedPrecondition, INTERNAL), (Internal, INTERNAL)} err
    | Inr l \<Rightarrow> l = acc @ gateways egs svcs ns \<and> (\<forall>n \<in> set ns. complete egs svcs n))) s"
proof (induction ns arbitrary: acc s)
  case Nil
  show ?case by (simp add: wp_simps gateways_def)
next
  case (Cons n ns)
  show ?case
    unfolding gwlist.simps wp_bindE wp_map_err
  proof (rule GetEgress [THEN wp_conseq], goal_cases)
    case (1 r s1)
    show ?case
    proof (cases r)
      case (Inr eg)
      then have eg: "egs n = Some eg" "view s1 = view s" using 1 by auto
      show ?thesis
        unfolding Inr sum.case wp_bindE wp_map_err
      proof (rule GetService [THEN wp_conseq], goal_cases)
        case (1 r s2)
        show ?case
        proof (cases r)
          case (Inr svc)
          then have svc: "svcs n = Some svc" "view s2 = view s" using 1 eg by auto
          show ?thesis
            unfolding Inr sum.case
            by (rule wp_gwlist_tail [OF Cons.IH eg(1) svc])
        qed (use 1 eg in auto)
      qed
    qed (use 1 in auto)
  qed
qed

end

end
