(* ===== verification/Agent_Setup.thy ===== *)
theory Agent_Setup
  imports Agent
begin

text \<open>
  What \<^verbatim>\<open>setupEgressGW\<close> of \<^verbatim>\<open>runners/agent.go\<close> does in the network namespace of a pod: the tunnel and
  the routes of every gateway, and the policy routing they add up to.
\<close>

section \<open>Adding a peer keeps the routes\<close>

text \<open>The IPIP device that adding a peer removes.\<close>

definition other_device :: "ip \<Rightarrow> string" where
  "other_device a = (if To4 a \<noteq> nil_IP then ipip6Device else ipip4Device)"

context netlink_laws
begin

lemma wp_setupDevice_routes:
  "wp (setupDevice nl l) (\<lambda>r s'. v_routes (view s') = v_routes (view s)) s"
  unfolding setupDevice_def configureDevice_def
  by (auto intro!: wp_ops simp: wp_simps netlink_posts view_frames split: sum.splits)

lemma wp_renameDevice_routes:
  "wp (renameDevice nl n m) (\<lambda>r s'. v_routes (view s') = v_routes (view s)) s"
  unfolding renameDevice_def
  by (auto intro!: wp_ops simp: wp_simps netlink_posts view_frames split: sum.splits)

lemma wp_removeDevice_absent:
  "v_links (view s) n = None \<Longrightarrow> wp (removeDevice nl n) (\<lambda>r s'. view s' = view s) s"
  unfolding removeDevice_def
  by (auto intro!: wp_ops simp: wp_simps netlink_posts split: sum.splits)

lemma wp_ipip_up_routes:
  assumes "m \<notin> {link_name l, old, new} \<union> fallback_devices" "v_links (view s) m = None"
  shows "wp (bindE (errorf m1 (setupDevice nl l)) (\<lambda>_. errorf m2 (renameDevice nl old new)))
    (\<lambda>r s'. v_routes (view s') = v_routes (view s) \<and> v_links (view s') m = None) s"
  using assms
  by (auto intro!: wp_conj [OF wp_setupDevice_routes wp_setupDevice, THEN wp_conseq]
      wp_conj [OF wp_renameDevice_routes wp_renameDevice, THEN wp_conseq]
      simp: wp_simps links_frame_def split: sum.splits)

lemma wp_setupIPIP_routes:
  assumes "b4 \<noteq> b6" "m = (if b4 then ipip6Device else ipip4Device)" "v_links (view s) m = None"
  shows "wp (setupIPIPDevices nl b4 b6)
    (\<lambda>r s'. v_routes (view s') = v_routes (view s) \<and> v_links (view s') m = None) s"
proof -
  let ?P = "\<lambda>s'. v_routes (view s') = v_routes (view s) \<and> v_links (view s') m = None"
  let ?l4 = "Iptun \<lparr>la_Name = ipip4Device, la_Index = 0, la_Up = False\<rparr> flowBased"
  let ?l6 = "Ip6tnl \<lparr>la_Name = ipip6Device, la_Index = 0, la_Up = False\<rparr> flowBased"
  have down: "wp (errorf msg (removeDevice nl m)) (\<lambda>r s'. ?P s') s1" if "?P s1" for msg s1
    unfolding wp_errorf using that
    by (intro wp_removeDevice_absent [THEN wp_conseq]) (auto split: sum.splits)
  have up: "wp (bindE (errorf m1 (setupDevice nl l)) (\<lambda>_. errorf m2 (renameDevice nl old new))) (\<lambda>r s'. ?P s') s1"
    if "?P s1" "m \<notin> {link_name l, old, new} \<union> fallback_devices" for m1 m2 old new l s1
    by (rule wp_ipip_up_routes [THEN wp_conseq]) (use that in auto)
  have names: "ipip6Device \<notin> {link_name ?l4, ''tunl0'', ''egress_tunl''} \<union> fallback_devices"
      "ipip4Device \<notin> {link_name ?l6, ''ip6tnl0'', ''egress_ip6tnl''} \<union> fallback_devices"
    by (auto simp: ipip4Device_def ipip6Device_def fallback_devices_def)
  have start: "?P s" using assms(3) by simp
  show ?thesis
  proof (cases b4)
    case True
    then have m: "m = ipip6Device" "\<not> b6" using assms(1,2) by simp_all
    show ?thesis
      unfolding setupIPIPDevices_def if_P [OF True] if_not_P [OF m(2)] m(1) [symmetric]
      by (rule wp_seq [where R = "\<lambda>_ s'. ?P s'"], rule up [THEN wp_conseq], rule start,
          use names(1) m(1) in simp, simp split: sum.splits, rule down)
  next
    case False
    then have m: "m = ipip4Device" "b6" using assms(1,2) by simp_all
    show ?thesis
      unfolding setupIPIPDevices_def if_not_P [OF False] if_P [OF m(2)] m(1) [symmetric]
      by (rule wp_seq [where R = "\<lambda>_ s'. ?P s'"], rule down [THEN wp_conseq], rule start,
          simp split: sum.splits, rule up, assumption, use names(2) m(1) in simp)
  qed
qed

lemma wp_AddPeer_routes:
  assumes "v_links (view s) (other_device a) = None"
  shows "wp (AddPeer nl t a) (\<lambda>r s'. v_routes (view s') = v_routes (view s) \<and>
    v_links (view s') (other_device a) = None) s"
proof -
  have *: "wp (do {
       r \<leftarrow> LinkByName nl n;
       case r of
         Inr l \<Rightarrow> ret l
       | Inl e \<Rightarrow>
           if \<not> is_LinkNotFoundError e then fail (wrap m1 e)
           else bindE (errorf m2 (LinkAdd nl l0)) (\<lambda>_.
                bindE (errorf m3 (setupIPIPDevices nl b4 b6)) (\<lambda>_. LinkByName nl n'))
     }) (\<lambda>r s'. v_routes (view s') = v_routes (view s) \<and> v_links (view s') m = None) s"
    if "b4 \<noteq> b6" "m = (if b4 then ipip6Device else ipip4Device)" "link_name l0 \<notin> ipip_names"
      "v_links (view s) m = None" for m n n' m1 m2 m3 l0 b4 b6
  proof -
    have "m \<notin> fallback_devices" "m \<noteq> link_name l0" "link_name l0 \<notin> fallback_devices"
      using that by (auto simp: ipip_names_def fallback_devices_def ipip4Device_def ipip6Device_def)
    with that(4) show ?thesis
      by (auto intro!: law_LinkByName [THEN wp_conseq] wp_LinkAdd_frame [THEN wp_conseq]
          wp_setupIPIP_routes [OF that(1,2), THEN wp_conseq]
          simp: wp_simps LinkByName_post_def links_frame_def split: sum.splits)
  qed
  show ?thesis
    using assms fouName_not_device
    by (auto simp: AddPeer_def addPeer4_def addPeer6_def other_device_def wp_return intro!: *)
qed

lemma env_natClient_Init: "wp (natClient_Init nl c) (\<lambda>r s'. env_err r) s"
proof -
  have loop: "wp (for_each body xs) (\<lambda>r s'. env_err r) s" if "\<And>x s. wp (body x) (\<lambda>r s'. env_err r) s"
    for body :: "'a \<Rightarrow> ('s, unit) go" and xs s
    by (induction xs arbitrary: s) (auto simp: wp_simps intro!: that [THEN wp_conseq] split: sum.splits)
  have half: "wp (natClient_Init_family nl f ll ps) (\<lambda>r s'. env_err r) s" for f ll ps s
    unfolding natClient_Init_family_def clear_def clear_table_def
    by (auto intro!: wp_ops loop [THEN wp_conseq] simp: wp_simps clear_rule_def clear_route_def split: sum.splits)
  show ?thesis
    unfolding natClient_Init_def
    by (auto intro!: half [THEN wp_conseq] simp: wp_simps split: sum.splits)
qed

lemma env_AddEgress: "wp (AddEgress nl c l nets) (\<lambda>r s'. env_err r) s"
  unfolding AddEgress_def
  by (induction nets arbitrary: s) (auto simp: wp_simps addEgress1_eq intro!: wp_ops split: sum.splits)

end

section \<open>The loop over the gateways\<close>

text \<open>The only IPIP device that a pod with addresses of one family can lose.\<close>

definition single_stack :: "fouTunnel \<Rightarrow> string \<Rightarrow> bool" where
  "single_stack t d \<longleftrightarrow> (\<forall>a. supports t a \<longrightarrow> other_device a = d)"

text \<open>
  What the loop keeps for a list of gateways done so far: the rules, the absence of the device, and
  for each gateway of a family the pod has, its link and its routes.
\<close>

definition gw_done :: "fouTunnel \<Rightarrow> natClient \<Rightarrow> string \<Rightarrow> kview \<Rightarrow> GWNets list \<Rightarrow> kview \<Rightarrow> bool" where
  "gw_done t c d v gws v' \<longleftrightarrow> v_rules v' = v_rules v \<and> v_links v' d = None \<and>
    (\<exists>ls. map fst ls = filter (\<lambda>g. supports t (Gateway g)) gws \<and>
      (\<forall>(g, l) \<in> set ls. v_links v' (fouName (Gateway g)) = Some l) \<and>
      v_routes v' = v_routes v + (\<Sum>(g, l) \<leftarrow> ls. egress_routes c l (Networks g)))"

lemma peer_post_keeps:
  "peer_post l0 b4 b6 v (Inr l) v' \<Longrightarrow> n \<notin> ipip_names \<Longrightarrow> v_links v n = Some l1 \<Longrightarrow> v_links v' n = Some l1"
  by (cases "n = link_name l0") (auto simp: peer_post_def links_frame_def split: if_splits)

lemma peer_post_frame: "peer_post l0 b4 b6 v r v' \<Longrightarrow> v_rules v' = v_rules v"
  by (simp add: peer_post_def links_frame_def)

lemma peer_post_link: "peer_post l0 b4 b6 v (Inr l) v' \<Longrightarrow> v_links v' (link_name l0) = Some l"
  by (simp add: peer_post_def)

context netlink_laws
begin

lemma wp_setup_gateway:
  assumes t: "single_stack t d" and d: "v_links (view s) d = None"
  shows "wp (setup_gateway (as_FoUTunnel nl t) (as_NatClient nl c) g) (\<lambda>r s'. env_err r \<and>
    (r = Inr () \<longrightarrow> v_rules (view s') = v_rules (view s) \<and> v_links (view s') d = None \<and>
      (\<forall>n l. n \<notin> ipip_names \<longrightarrow> v_links (view s) n = Some l \<longrightarrow> v_links (view s') n = Some l) \<and>
      (if supports t (Gateway g)
       then \<exists>l. v_links (view s') (fouName (Gateway g)) = Some l \<and>
         v_routes (view s') = v_routes (view s) + egress_routes c l (Networks g)
       else v_routes (view s') = v_routes (view s)))) s"
proof (cases "supports t (Gateway g)")
  case True
  then have other: "other_device (Gateway g) = d" using t by (simp add: single_stack_def)
  have peer: "wp (AddPeer nl t (Gateway g)) (\<lambda>r s1. env_err r \<and> v_rules (view s1) = v_rules (view s) \<and>
      v_routes (view s1) = v_routes (view s) \<and> v_links (view s1) d = None \<and>
      (\<forall>l. r = Inr l \<longrightarrow> v_links (view s1) (fouName (Gateway g)) = Some l \<and>
        (\<forall>n l. n \<notin> ipip_names \<longrightarrow> v_links (view s) n = Some l \<longrightarrow> v_links (view s1) n = Some l))) s"
    by (rule wp_conj [OF wp_AddPeer wp_AddPeer_routes [of s "Gateway g" t], THEN wp_conseq])
      (use True d other in \<open>auto dest: peer_post_keeps peer_post_link simp: peer_post_frame\<close>)
  show ?thesis
    unfolding setup_gateway_def as_FoUTunnel_def as_NatClient_def FoUTunnel.simps NatClient.simps wp_bind
  proof (rule peer [THEN wp_conseq], goal_cases)
    case (1 r s1)
    show ?case
    proof (cases r)
      case (Inr l)
      show ?thesis
        unfolding Inr sum.case
        by (rule wp_conj [OF env_AddEgress wp_AddEgress, THEN wp_conseq])
          (use 1 Inr True in \<open>auto simp: egress_view_def\<close>)
    qed (use 1 in \<open>auto simp: wp_return\<close>)
  qed
next
  case False
  show ?thesis
    unfolding setup_gateway_def as_FoUTunnel_def as_NatClient_def FoUTunnel.simps NatClient.simps wp_bind
    by (rule wp_AddPeer [THEN wp_conseq]) (use False d in \<open>auto simp: wp_return\<close>)
qed

lemma wp_setup_gateways:
  assumes t: "single_stack t d" and d: "v_links (view s) d = None"
  shows "wp (for_each (setup_gateway (as_FoUTunnel nl t) (as_NatClient nl c)) gws) (\<lambda>r s'. case r of
      Inl err \<Rightarrow> env_err (Inl err :: err + unit)
    | Inr _ \<Rightarrow> gw_done t c d (view s) gws (view s')) s"
proof (rule wp_for_each, goal_cases)
  case 1
  show ?case using d by (auto simp: gw_done_def intro!: exI [of _ "[]"])
next
  case (2 ys g zs s1)
  then obtain ls where I: "v_rules (view s1) = v_rules (view s)" "v_links (view s1) d = None"
      "map fst ls = filter (\<lambda>g. supports t (Gateway g)) ys"
      "\<And>g l. (g, l) \<in> set ls \<Longrightarrow> v_links (view s1) (fouName (Gateway g)) = Some l"
      "v_routes (view s1) = v_routes (view s) + (\<Sum>(g, l) \<leftarrow> ls. egress_routes c l (Networks g))"
    by (auto simp: gw_done_def)
  show ?case
  proof (rule wp_setup_gateway [OF t I(2), THEN wp_conseq], goal_cases)
    case (1 r s2)
    show ?case
    proof (cases r)
      case (Inr u)
      then have keep: "v_links (view s2) (fouName (Gateway g')) = Some l" if "(g', l) \<in> set ls" for g' l
        using 1 I(4) [OF that] fouName_not_device by auto
      show ?thesis
      proof (cases "supports t (Gateway g)")
        case True
        with 1 Inr obtain l where "v_links (view s2) (fouName (Gateway g)) = Some l"
            "v_routes (view s2) = v_routes (view s1) + egress_routes c l (Networks g)" by auto
        with 1 Inr I True keep show ?thesis
          by (auto simp: gw_done_def ac_simps intro!: exI [of _ "ls @ [(g, l)]"])
      next
        case False
        with 1 Inr I keep show ?thesis by (auto simp: gw_done_def intro!: exI [of _ ls])
      qed
    qed (use 1 in auto)
  qed
qed

end

text \<open>The tunnels and the client that \<^verbatim>\<open>setupEgressGW\<close> makes for the addresses of a pod.\<close>

definition agent_tunnel :: "int \<Rightarrow> ip \<Rightarrow> ip \<Rightarrow> fouTunnel" where
  "agent_tunnel port ipv4 ipv6 = \<lparr>sport = 0, dport = port, local4 = ipv4, local6 = ipv6\<rparr>"

definition agent_client :: "ip \<Rightarrow> ip \<Rightarrow> natClient" where
  "agent_client ipv4 ipv6 = \<lparr>nc_ipv4 = (ipv4 \<noteq> nil_IP), nc_ipv6 = (ipv6 \<noteq> nil_IP),
    v4priv = v4PrivateList, v6priv = v6PrivateList\<rparr>"

text \<open>Addresses as \<^verbatim>\<open>parseConfig\<close> gives them.\<close>

definition pod_addrs :: "ip \<Rightarrow> ip \<Rightarrow> bool" where
  "pod_addrs ipv4 ipv6 \<longleftrightarrow> (ipv4 = nil_IP \<or> To4 ipv4 \<noteq> nil_IP) \<and> To4 ipv6 = nil_IP"

lemma setupEgressGW_eq:
  assumes "pod_addrs ipv4 ipv6"
  shows "setupEgressGW nl port ipv4 ipv6 gws =
    bindE (fouTunnel_Init nl (agent_tunnel port ipv4 ipv6)) (\<lambda>_.
    bindE (natClient_Init nl (agent_client ipv4 ipv6)) (\<lambda>_.
    for_each (setup_gateway (as_FoUTunnel nl (agent_tunnel port ipv4 ipv6))
      (as_NatClient nl (agent_client ipv4 ipv6))) gws))"
  using assms
  by (auto simp: setupEgressGW_def NewFoUTunnel_def NewNatClient_def pod_addrs_def agent_tunnel_def
      agent_client_def as_FoUTunnel_def as_NatClient_def)

lemma init_view_cong:
  "v_rules v = v_rules w \<Longrightarrow> v_routes v = v_routes w \<Longrightarrow>
    v_rules (init_view c v) = v_rules (init_view c w) \<and> v_routes (init_view c v) = v_routes (init_view c w)"
  by (simp add: init_view_def init_step_def)

lemma init_view_links [simp]: "v_links (init_view c v) = v_links v"
  by (simp add: init_view_def init_step_def)

context netlink_laws
begin

lemma env_setupEgressGW:
  assumes "pod_addrs ipv4 ipv6"
  shows "wp (setupEgressGW nl port ipv4 ipv6 gws) (\<lambda>r s'. \<forall>e. r = Inl e \<longrightarrow> \<not> is_panic e) s"
proof -
  let ?t = "agent_tunnel port ipv4 ipv6" and ?c = "agent_client ipv4 ipv6"
  have gw: "wp (setup_gateway (as_FoUTunnel nl ?t) (as_NatClient nl ?c) g) (\<lambda>r s'. env_err r) s" for g s
    unfolding setup_gateway_def as_FoUTunnel_def as_NatClient_def FoUTunnel.simps NatClient.simps wp_bind
    by (rule wp_AddPeer [THEN wp_conseq])
      (auto simp: wp_return intro!: env_AddEgress [THEN wp_conseq] split: sum.splits if_splits)
  have loop: "wp (for_each (setup_gateway (as_FoUTunnel nl ?t) (as_NatClient nl ?c)) gws) (\<lambda>r s'. env_err r) s" for s
    by (induction gws arbitrary: s) (auto simp: wp_simps intro!: gw [THEN wp_conseq] split: sum.splits)
  show ?thesis
    unfolding setupEgressGW_eq [OF assms]
    by (auto simp: wp_simps intro!: wp_fouTunnel_Init [THEN wp_conseq] env_natClient_Init [THEN wp_conseq]
        loop [THEN wp_conseq] split: sum.splits)
qed

lemma wp_setupEgressGW:
  assumes "pod_addrs ipv4 ipv6" "ipv4 = nil_IP \<or> ipv6 = nil_IP"
    and d: "d = (if ipv4 \<noteq> nil_IP then ipip6Device else ipip4Device)" "v_links (view s) d = None"
  shows "wp (setupEgressGW nl port ipv4 ipv6 gws) (\<lambda>r s'. r = Inr () \<longrightarrow>
    gw_done (agent_tunnel port ipv4 ipv6) (agent_client ipv4 ipv6) d
      (init_view (agent_client ipv4 ipv6) (view s)) gws (view s')) s"
proof -
  let ?t = "agent_tunnel port ipv4 ipv6" and ?c = "agent_client ipv4 ipv6"
  have t: "single_stack ?t d"
    using assms(2) d(1) by (auto simp: single_stack_def supports_def agent_tunnel_def other_device_def split: if_splits)
  have fresh: "d \<notin> insert fouDummy fallback_devices"
    using d(1) by (auto simp: ipip4Device_def ipip6Device_def fallback_devices_def fouDummy_def)
  show ?thesis
    unfolding setupEgressGW_eq [OF assms(1)]
  proof (rule wp_seq [where R = "\<lambda>_ s1. v_rules (view s1) = v_rules (view s) \<and>
      v_routes (view s1) = v_routes (view s) \<and> v_links (view s1) d = None"], goal_cases)
    case 1
    show ?case by (rule wp_fouTunnel_Init [THEN wp_conseq]) (use d(2) fresh in \<open>auto split: sum.splits\<close>)
  next
    case (2 u s1)
    show ?case
    proof (rule wp_seq [where R = "\<lambda>_ s2. view s2 = init_view ?c (view s1)"], goal_cases)
      case 1
      show ?case by (rule wp_natClient_Init [THEN wp_conseq]) (auto split: sum.splits)
    next
      case (2 u s2)
      then have "v_links (view s2) d = None" using \<open>_ \<and> _ \<and> v_links (view s1) d = None\<close> by simp
      from wp_setup_gateways [OF t this] show ?case
        by (rule wp_conseq)
          (use 2 init_view_cong [of "view s1" "view s" ?c] \<open>_ \<and> _ \<and> v_links (view s1) d = None\<close> in
            \<open>auto simp: gw_done_def split: sum.splits\<close>)
    qed
  qed
qed

end

section \<open>The policy of all gateways together\<close>

lemma selects_cong:
  assumes "v_rules v = v_rules w" "\<And>f t. table_has v f t a = table_has w f t a"
  shows "selects v f a t = selects w f a t"
  using assms by (simp add: selects_def rule_hits_def)

text \<open>The link of a route plays no part in the lookup.\<close>

lemma table_has_links:
  assumes "v_routes v' = v_routes v + (\<Sum>(g, l) \<leftarrow> ls. egress_routes c l (Networks g))"
    and "v_routes w = v_routes v + egress_routes c l0 (concat (map (Networks \<circ> fst) ls))"
  shows "table_has v' f t a = table_has w f t a"
proof -
  define has where "has R \<longleftrightarrow> (\<exists>x. (f, x) \<in># R \<and> rt_Table x = t \<and> dst_matches (rt_Dst x) a)"
    for R :: "(family \<times> route) multiset"
  have add: "has (R + S) \<longleftrightarrow> has R \<or> has S" for R S by (auto simp: has_def)
  have one: "has (egress_routes c l nets) \<longleftrightarrow> (\<exists>n \<in> set nets. ip_family (IP n) = f \<and> nat_serves c f \<and>
      egress_table c n = t \<and> dst_matches (kernel_dst (Some n)) a)" for l nets
    by (auto simp: has_def egress_routes_mem egressRoute_def)
  have "has (\<Sum>(g, l) \<leftarrow> ls. egress_routes c l (Networks g)) \<longleftrightarrow>
      has (egress_routes c l0 (concat (map (Networks \<circ> fst) ls)))"
  proof (induction ls)
    case Nil
    show ?case by (simp add: has_def egress_routes_def)
  next
    case (Cons x ls)
    then show ?case by (cases x) (simp add: add one bex_Un)
  qed
  then show ?thesis unfolding table_has_def assms has_def [symmetric] add by simp
qed

lemma agent_client_nets:
  "length (local_nets (agent_client ipv4 ipv6) f) \<le> 100"
  "\<forall>p \<in> set (local_nets (agent_client ipv4 ipv6) f). net_ok f p"
  by (cases f; simp add: local_nets_def agent_client_def v4PrivateList_def v6PrivateList_def net_ok_def
      ip_family_def parse_eval To4_def v4InV6Prefix_def CIDRMask_def)+

lemma gw_done_selects:
  assumes "gw_done t c d (init_view c v) gws v'" "nat_serves c (ip_family a)"
    and "length a = 4 \<or> length a = 16" "\<forall>g \<in> set gws. \<forall>n \<in> set (Networks g). net_ok (ip_family (IP n)) n"
    and c: "c = agent_client ipv4 ipv6"
    and nets: "nets = concat (map Networks (filter (\<lambda>g. supports t (Gateway g)) gws))"
  shows "selects v' (ip_family a) a tb \<longleftrightarrow> egress_policy c nets a = Some tb"
proof -
  obtain ls where ls: "map fst ls = filter (\<lambda>g. supports t (Gateway g)) gws"
      "v_rules v' = v_rules (init_view c v)"
      "v_routes v' = v_routes (init_view c v) + (\<Sum>(g, l) \<leftarrow> ls. egress_routes c l (Networks g))"
    using assms(1) by (auto simp: gw_done_def)
  have nets': "nets = concat (map (Networks \<circ> fst) ls)"
    unfolding nets ls(1) [symmetric] by simp
  let ?w = "served_view c link7 nets v"
  have "v_rules v' = v_rules ?w" "\<And>f t. table_has v' f t a = table_has ?w f t a"
    using ls(2,3) by (auto simp: served_view_def egress_view_def nets' intro!: table_has_links)
  then have "selects v' (ip_family a) a tb = selects ?w (ip_family a) a tb" by (rule selects_cong)
  also have "\<dots> \<longleftrightarrow> egress_policy c nets a = Some tb"
  proof (rule selects_policy [OF assms(2) _ refl assms(3)])
    show "\<forall>n \<in> set nets. net_ok (ip_family (IP n)) n" using assms(4) nets by auto
  qed (simp_all add: c agent_client_nets)
  finally show ?thesis .
qed

section \<open>The networks of the gateways\<close>

text \<open>A network of \<^verbatim>\<open>net.ParseCIDR\<close>, unless it is an IPv6 prefix inside the IPv4-mapped range.\<close>

lemma ParseCIDR_net_ok:
  assumes "ParseCIDR d = Inr (a, n)" "length (Mask n) = 4 \<or> To4 (IP n) = nil_IP"
  shows "net_ok (ip_family (IP n)) n"
  using assms parseIPv4_length [of "takeWhile (\<lambda>c. c \<noteq> CHR ''/'') d"]
    parseIPv6_length [of "takeWhile (\<lambda>c. c \<noteq> CHR ''/'') d"]
  by (auto simp: ParseCIDR_def Let_def net_ok_def IP_Mask_def and_bytes_def CIDRMask_def ip_family_def
      To4_def split: option.splits if_splits prod.splits)

section \<open>Setup succeeds\<close>

lemma fresh_nets_link: "fresh_nets c l nets v = fresh_nets c l' nets v"
  by (simp add: fresh_nets_def same_dst_route_def egressRoute_def route_family_def)

lemma fresh_nets_cong: "v_routes v = v_routes w \<Longrightarrow> fresh_nets c l nets v = fresh_nets c l nets w"
  by (simp add: fresh_nets_def same_dst_route_def)

lemma egress_view_append: "egress_view c l (ms @ ns) v = egress_view c l ns (egress_view c l ms v)"
  by (simp add: egress_view_def egress_routes_def)

lemma fresh_nets_append:
  "fresh_nets c l (ms @ ns) v \<Longrightarrow> fresh_nets c l ms v \<and> fresh_nets c l ns (egress_view c l ms v)"
proof (induction ms arbitrary: v)
  case Nil
  then show ?case by (simp add: egress_view_def egress_routes_def fresh_nets_def)
next
  case (Cons n ms)
  have "fresh_nets c l ns (egress_view c l (n # ms) v)"
    using Cons.IH [OF fresh_nets_Cons(1) [of c l n "ms @ ns" v]] Cons.prems
      egress_view_append [of c l "[n]" ms v] by simp
  moreover have "fresh_nets c l (n # ms) v"
    using Cons.prems by (auto simp: fresh_nets_def)
  ultimately show ?case by simp
qed

lemma fresh_nets_routes:
  assumes "fresh_nets c l0 ns (egress_view c l0 ms v)" "v_routes w = v_routes v + egress_routes c l ms"
  shows "fresh_nets c l0 ns w"
proof -
  have "same_dst_route y w \<longleftrightarrow> same_dst_route y (egress_view c l0 ms v)" for y
    using assms(2)
    by (auto simp: same_dst_route_def egress_view_def egress_routes_mem egressRoute_def split_beta)
  with assms(1) show ?thesis by (simp add: fresh_nets_def)
qed

text \<open>After \<^verbatim>\<open>Init\<close> the tables have no route of a family the client has.\<close>

lemma fresh_after_Init:
  assumes "distinct (map (\<lambda>n. (ip_family (IP n), kernel_dst (Some n))) nets)"
    "\<forall>n \<in> set nets. nat_serves c (ip_family (IP n))"
  shows "fresh_nets c l nets (init_view c v)"
proof -
  have "\<not> same_dst_route (egressRoute (egress_table c n) l n) (init_view c v)" if "n \<in> set nets" for n
    using assms(2) that
    by (cases "ip_family (IP n)")
      (auto simp: same_dst_route_def egressRoute_def route_family_def egress_table_def init_view_def
        init_step_def nat_route_def table_route_def split: if_splits)
  with assms(1) show ?thesis by (simp add: fresh_nets_def)
qed

context netlink_reliable
begin

lemma modProbe_ok: "ok s \<Longrightarrow> wp (modProbe nl m) (\<lambda>r s'. ok s' \<and> r = Inr () \<and> v_fou (view s') = v_fou (view s)) s"
  unfolding modProbe_def
  by (auto intro!: wp_conj [OF ok_CombinedOutput law_CombinedOutput, THEN wp_conseq] simp: wp_simps autoload_same
      split: sum.splits)

lemma Init4_ok:
  assumes "ok s" "\<forall>z \<in># v_fou (view s). fou_Family z = FAMILY_V4 \<longrightarrow> fou_Port z \<noteq> dport t"
  shows "wp (fouTunnel_Init4 nl t) (\<lambda>r s'. ok s' \<and> r = Inr ()) s"
  using assms unfolding fouTunnel_Init4_def
  by (auto intro!: modProbe_ok [THEN wp_conseq] ok_FouAdd [THEN wp_conseq] ok_Sysctl [THEN wp_conseq]
      ok_EnableIP4Forward [THEN wp_conseq] ok_NewWithProtocol [THEN wp_conseq] ok_ipt_Insert [THEN wp_conseq]
      simp: wp_simps split: sum.splits)

lemma Init6_ok:
  assumes "ok s" "\<forall>z \<in># v_fou (view s). fou_Family z = FAMILY_V6 \<longrightarrow> fou_Port z \<noteq> dport t"
  shows "wp (fouTunnel_Init6 nl t) (\<lambda>r s'. ok s' \<and> r = Inr ()) s"
  using assms unfolding fouTunnel_Init6_def
  by (auto intro!: modProbe_ok [THEN wp_conseq] ok_FouAdd [THEN wp_conseq]
      ok_EnableIP6Forward [THEN wp_conseq] ok_NewWithProtocol [THEN wp_conseq] ok_ipt_Insert [THEN wp_conseq]
      simp: wp_simps split: sum.splits)

lemma fouTunnel_Init_ok:
  assumes "ok s" "\<forall>z \<in># v_fou (view s). fou_Port z \<noteq> dport t"
  shows "wp (fouTunnel_Init nl t) (\<lambda>r s'. ok s' \<and> r = Inr ()) s"
proof -
  have name: "fouDummy \<notin> fst ` renamed_fallbacks \<union> snd ` renamed_fallbacks" "fouDummy \<notin> fallback_devices"
    by (auto simp: fouDummy_def renamed_fallbacks_def fallback_devices_def)
  have add: "wp (LinkAdd nl (Dummy (NewLinkAttrs\<lparr>la_Name := fouDummy\<rparr>))) (\<lambda>r s'. ok s' \<and> r = Inr ()) s2"
    if "ok s2" "v_links (view s2) fouDummy = None" for s2
    using that name by (intro ok_LinkAdd) (simp_all add: NewLinkAttrs_def)
  let ?m4 = "if local4 t \<noteq> nil_IP then fouTunnel_Init4 nl t else ret ()"
  let ?m6 = "if local6 t \<noteq> nil_IP then fouTunnel_Init6 nl t else ret ()"
  have half4: "wp ?m4 (\<lambda>r s2. ok s2 \<and> r = Inr () \<and> v_links (view s2) fouDummy = v_links (view s1) fouDummy \<and>
      (\<forall>z \<in># v_fou (view s2). fou_Family z = FAMILY_V6 \<longrightarrow> fou_Port z \<noteq> dport t)) s1"
    if "ok s1" "\<forall>z \<in># v_fou (view s1). fou_Port z \<noteq> dport t" for s1
    using that name(2)
    by (auto intro!: wp_conj [OF Init4_ok wp_Init4, THEN wp_conseq] simp: wp_return init_keeps_def Init4_view_def
        autoload_same upd_chain_def)
  have half6: "wp ?m6 (\<lambda>r s2. ok s2 \<and> r = Inr () \<and> v_links (view s2) fouDummy = v_links (view s1) fouDummy) s1"
    if "ok s1" "\<forall>z \<in># v_fou (view s1). fou_Family z = FAMILY_V6 \<longrightarrow> fou_Port z \<noteq> dport t" for s1
    using that name(2)
    by (auto intro!: wp_conj [OF Init6_ok wp_Init6, THEN wp_conseq] simp: wp_return init_keeps_def)
  have body: "wp (bindE ?m4 (\<lambda>_. bindE ?m6 (\<lambda>_. LinkAdd nl (Dummy (NewLinkAttrs\<lparr>la_Name := fouDummy\<rparr>)))))
      (\<lambda>r s'. ok s' \<and> r = Inr ()) s1"
    if "ok s1" "\<forall>z \<in># v_fou (view s1). fou_Port z \<noteq> dport t" "v_links (view s1) fouDummy = None" for s1
    unfolding wp_bindE
    by (rule half4 [OF that(1,2), THEN wp_conseq], simp only: sum.case, rule half6 [THEN wp_conseq])
      (use that(3) in \<open>auto intro!: add\<close>)
  show ?thesis
    unfolding fouTunnel_Init_def wp_bind
    by (rule wp_conj [OF ok_LinkByName law_LinkByName, THEN wp_conseq], rule assms(1))
      (use assms(2) in \<open>auto intro!: body simp: wp_return LinkByName_post_def
        split: option.splits sum.splits split del: if_split\<close>)
qed

lemma setup_gateway_ok:
  assumes "ok s" "single_stack t d" "v_links (view s) d = None"
    "supports t (Gateway g) \<Longrightarrow> fresh_nets c link7 (Networks g) (view s)"
  shows "wp (setup_gateway (as_FoUTunnel nl t) (as_NatClient nl c) g) (\<lambda>r s'. r = Inr () \<and> ok s') s"
proof (cases "supports t (Gateway g)")
  case True
  then have "v_links (view s) (other_device (Gateway g)) = None"
    using assms(2,3) by (simp add: single_stack_def)
  note peer = wp_conj [OF wp_AddPeer_ok [OF assms(1) True] wp_AddPeer_routes [OF this]]
  have fresh: "fresh_nets c l (Networks g) (view s1)" if "v_routes (view s1) = v_routes (view s)" for l s1
    using assms(4) [OF True] fresh_nets_cong [OF that] fresh_nets_link by blast
  show ?thesis
    unfolding setup_gateway_def as_FoUTunnel_def as_NatClient_def FoUTunnel.simps NatClient.simps wp_bind
    by (rule peer [THEN wp_conseq]) (auto intro!: AddEgress_ok [THEN wp_conseq] fresh)
next
  case False
  show ?thesis
    unfolding setup_gateway_def as_FoUTunnel_def as_NatClient_def FoUTunnel.simps NatClient.simps wp_bind
    by (rule wp_AddPeer [THEN wp_conseq]) (use False assms(1) in \<open>auto simp: wp_return\<close>)
qed

lemma setup_gateways_ok:
  assumes "ok s" "single_stack t d" "v_links (view s) d = None"
    "fresh_nets c link7 (concat (map Networks (filter (\<lambda>g. supports t (Gateway g)) gws))) (view s)"
  shows "wp (for_each (setup_gateway (as_FoUTunnel nl t) (as_NatClient nl c)) gws) (\<lambda>r s'. r = Inr () \<and> ok s') s"
  using assms
proof (induction gws arbitrary: s)
  case (Cons g gws)
  let ?rest = "concat (map Networks (filter (\<lambda>g. supports t (Gateway g)) gws))"
  have fresh: "fresh_nets c link7 (Networks g) (view s)"
      "fresh_nets c link7 ?rest (egress_view c link7 (Networks g) (view s))" if "supports t (Gateway g)"
    using Cons.prems(4) fresh_nets_append that by auto
  show ?case
    unfolding for_each.simps wp_bindE
  proof (rule wp_conj [OF setup_gateway_ok [OF Cons.prems(1-3) fresh(1)]
        wp_setup_gateway [OF Cons.prems(2,3)], THEN wp_conseq], assumption, goal_cases)
    case (1 r s1)
    have "fresh_nets c link7 ?rest (view s1)"
    proof (cases "supports t (Gateway g)")
      case True
      with 1 obtain l where "v_routes (view s1) = v_routes (view s) + egress_routes c l (Networks g)" by auto
      then show ?thesis
        using fresh(2) [OF True] fresh_nets_routes by blast
    next
      case False
      then show ?thesis using 1 Cons.prems(4) fresh_nets_cong by (metis (mono_tags, lifting) filter.simps(2))
    qed
    with 1 Cons.IH [of s1] Cons.prems(2) show ?case by auto
  qed
qed (simp add: wp_return)

lemma setupEgressGW_ok:
  assumes "ok s" "pod_addrs ipv4 ipv6" "ipv4 = nil_IP \<or> ipv6 = nil_IP"
    and d: "d = (if ipv4 \<noteq> nil_IP then ipip6Device else ipip4Device)" "v_links (view s) d = None"
    and "\<forall>z \<in># v_fou (view s). fou_Port z \<noteq> port"
    and nets: "nets = concat (map Networks (filter (\<lambda>g. supports (agent_tunnel port ipv4 ipv6) (Gateway g)) gws))"
      "distinct (map (\<lambda>n. (ip_family (IP n), kernel_dst (Some n))) nets)"
      "\<forall>n \<in> set nets. nat_serves (agent_client ipv4 ipv6) (ip_family (IP n))"
  shows "wp (setupEgressGW nl port ipv4 ipv6 gws) (\<lambda>r s'. r = Inr () \<and> ok s') s"
proof -
  let ?t = "agent_tunnel port ipv4 ipv6" and ?c = "agent_client ipv4 ipv6"
  have t: "single_stack ?t d" "dport ?t = port"
    using assms(3) d(1) by (auto simp: single_stack_def supports_def agent_tunnel_def other_device_def split: if_splits)
  have fresh: "d \<notin> insert fouDummy fallback_devices"
    using d(1) by (auto simp: ipip4Device_def ipip6Device_def fallback_devices_def fouDummy_def)
  have init: "wp (fouTunnel_Init nl ?t) (\<lambda>r s'. (ok s' \<and> r = Inr ()) \<and> v_links (view s') d = None) s"
    by (rule wp_conj [OF fouTunnel_Init_ok wp_fouTunnel_Init, THEN wp_conseq])
      (use assms(1,6) d(2) fresh t(2) in auto)
  have nat: "wp (natClient_Init nl ?c) (\<lambda>r s'. r = Inr () \<and> ok s' \<and> view s' = init_view ?c (view s1)) s1"
    if "ok s1" for s1
    by (rule wp_conj [OF natClient_Init_ok wp_natClient_Init, THEN wp_conseq])
      (use that agent_client_nets in auto)
  have gws: "wp (for_each (setup_gateway (as_FoUTunnel nl ?t) (as_NatClient nl ?c)) gws)
      (\<lambda>r s'. r = Inr () \<and> ok s') s2"
    if "ok s2" "view s2 = init_view ?c (view s1)" "v_links (view s1) d = None" for s1 s2
    by (rule setup_gateways_ok [OF that(1) t(1)])
      (use that fresh_after_Init [OF nets(2,3)] in \<open>simp_all add: nets(1)\<close>)
  show ?thesis
    unfolding setupEgressGW_eq [OF assms(2)] wp_bindE
    by (rule init [THEN wp_conseq], elim conjE, simp only: sum.case, rule nat [THEN wp_conseq], assumption,
        elim conjE, simp only: sum.case, rule gws)
qed

end

end
