(* ===== verification/Watcher_Spec.thy ===== *)
theory Watcher_Spec
  imports Pod_Watcher
begin

text \<open>
  The properties of the pod watcher of \<open>Pod_Watcher\<close>: what a reconciliation does to the maps and
  to the tunnels, when it succeeds, and what an error leaves behind.
\<close>

section \<open>Reconciliation that succeeds\<close>

text \<open>The same kernel and API client where neither fails without a reason.\<close>

locale reliable_api = netlink_reliable nl view ok + netlink_api nl view Get
  for nl :: "'s netlink" and view :: "'s \<Rightarrow> kview" and ok :: "'s \<Rightarrow> bool"
    and Get :: "NamespacedName \<Rightarrow> ('s, pod) go" +
  assumes Get_ok: "ok s \<Longrightarrow> wp (Get req) (\<lambda>res s'. ok s') s"
begin

lemma addPod_new_ok:
  assumes "\<And>a. supports t a \<Longrightarrow> eg_serves e (ip_family a)" "ok s"
  shows "wp (addPod_new (founat_watcher nl Get ns name t e) existing ip)
    (\<lambda>res \<sigma>. res = Inr () \<and> ok (fst \<sigma>)) (s, w)"
proof (cases "supports t ip")
  case True
  show ?thesis
    using wp_AddPeer_ok [OF assms(2) True] AddClient_ok assms(1) [OF True] assms(2)
    by (auto simp: addPod_new_def wp_simps as_FoUTunnel_def as_Egress_def
        elim!: wp_conseq split: sum.splits)
next
  case False
  have "wp (ft_AddPeer (as_FoUTunnel nl t) ip)
      (\<lambda>r s'. s' = s \<and> (\<exists>e. r = Inl e \<and> Is_ErrIPFamilyMismatch e)) s"
    by (rule fou.peer_added [THEN wp_conseq]) (use False in \<open>auto split: sum.splits\<close>)
  then show ?thesis
    using assms(2) by (auto simp: addPod_new_def wp_simps elim!: wp_conseq)
qed

lemma addPod_old_ok:
  "ok s \<Longrightarrow> wp (addPod_old (founat_watcher nl Get ns name t e) ips eip)
    (\<lambda>res \<sigma>. res = Inr () \<and> ok (fst \<sigma>)) (s, w)"
  using wp_DelPeer_ok [of s t eip] by (auto simp: addPod_old_def wp_simps as_FoUTunnel_def elim!: wp_conseq)

text \<open>A loop none of whose rounds fails does not fail.\<close>

lemma for_each_ok:
  assumes "\<And>x \<sigma>. x \<in> set xs \<Longrightarrow> ok (fst \<sigma>) \<Longrightarrow> wp (body x) (\<lambda>res \<sigma>. res = Inr () \<and> ok (fst \<sigma>)) \<sigma>"
    and "ok (fst \<sigma>)"
  shows "wp (for_each body xs) (\<lambda>res \<sigma>. res = Inr () \<and> ok (fst \<sigma>)) \<sigma>"
  using assms
proof (induction xs arbitrary: \<sigma>)
  case (Cons x xs)
  show ?case
    unfolding for_each.simps wp_bindE
    by (rule wp_conseq [OF Cons.prems(1) [OF _ Cons.prems(2)]]) (use Cons in auto)
qed (simp add: wp_return)

lemma addPod_ok:
  assumes "\<And>a. supports t a \<Longrightarrow> eg_serves e (ip_family a)" "ok s"
  shows "wp (addPod (founat_watcher nl Get ns name t e) p) (\<lambda>res \<sigma>. res = Inr () \<and> ok (fst \<sigma>)) (s, w)"
proof -
  let ?r = "founat_watcher nl Get ns name t e"
  have add: "wp (for_each (addPod_new ?r ex) ips) (\<lambda>res \<sigma>. res = Inr () \<and> ok (fst \<sigma>)) (s, w)"
    for ex ips
    by (rule for_each_ok) (use addPod_new_ok [OF assms(1)] assms(2) in \<open>simp_all add: split_paired_all\<close>)
  have old: "wp (for_each (addPod_old ?r ips) ex) (\<lambda>res \<sigma>. res = Inr () \<and> ok (fst \<sigma>)) \<sigma>"
    if "ok (fst \<sigma>)" for ex ips \<sigma>
    by (rule for_each_ok) (use addPod_old_ok that in \<open>simp_all add: split_paired_all\<close>)
  show ?thesis
    unfolding addPod_def wp_bindE wp_get_watch sum.case Let_def
    by (rule add [THEN wp_conseq]) (auto simp: wp_simps split_paired_all intro!: old [THEN wp_conseq])
qed

lemma delPeer_step_ok:
  assumes "ok s" "consistent K w" "has_key w key (IP_String ip)"
  shows "wp (delPeer_step (founat_watcher nl Get ns name t e) key ip)
    (\<lambda>res \<sigma>. res = Inr () \<and> ok (fst \<sigma>) \<and> snd \<sigma> = drop_key key (IP_String ip) w) (s, w)"
proof -
  obtain live where "existsOtherLivePeers w key (IP_String ip) = Inr live"
    using existsOther_iff [OF assms(2), of key "IP_String ip"] assms(3) by blast
  then show ?thesis
    using wp_DelPeer_ok [OF assms(1), of t ip] assms(1)
    by (auto simp: delPeer_step_def wp_simps as_FoUTunnel_def elim!: wp_conseq split: sum.splits)
qed

lemma delPeer_loop_ok:
  assumes "ok s" "consistent K w" "\<forall>ip \<in> set ips. has_key w key (IP_String ip)"
    "distinct (map IP_String ips)"
  shows "wp (for_each (delPeer_step (founat_watcher nl Get ns name t e) key) ips)
    (\<lambda>res \<sigma>. res = Inr () \<and> ok (fst \<sigma>)) (s, w)"
  using assms
proof (induction ips arbitrary: s w K)
  case (Cons ip ips)
  have "consistent (insert key K) (drop_key key (IP_String ip) w)"
    by (rule consistent_drop [OF Cons.prems(2)])
  moreover have "\<forall>x \<in> set ips. has_key (drop_key key (IP_String ip) w) key (IP_String x)"
    using Cons.prems(3,4) by (auto simp: has_key_drop) (metis imageI)
  ultimately show ?case
    unfolding for_each.simps wp_bindE
    by (intro wp_conseq [OF delPeer_step_ok [OF Cons.prems(1,2)]])
      (use Cons in \<open>auto simp: split_paired_all\<close>)
qed (simp add: wp_return)

lemma delPeer_ok:
  assumes "ok s" "consistent {} w" "\<And>ips. podAddrs w key = Some ips \<Longrightarrow> distinct (map IP_String ips)"
  shows "wp (delPeer (founat_watcher nl Get ns name t e) key) (\<lambda>res \<sigma>. res = Inr () \<and> ok (fst \<sigma>)) (s, w)"
proof -
  let ?ips = "case podAddrs w key of None \<Rightarrow> [] | Some xs \<Rightarrow> xs"
  have "\<forall>ip \<in> set ?ips. has_key w key (IP_String ip)" "distinct (map IP_String ?ips)"
    using assms(2,3) by (cases "podAddrs w key"; simp add: consistent_def registered_def; blast)+
  from delPeer_loop_ok [OF assms(1,2) this] show ?thesis
    unfolding delPeer_def wp_bindE wp_get_watch sum.case
    by (rule wp_conseq) (auto simp: wp_simps split_paired_all)
qed

lemma Reconcile_ok:
  assumes "\<And>a. supports t a \<Longrightarrow> eg_serves e (ip_family a)" "ok s" "consistent {} w"
    "\<And>key ips. podAddrs w key = Some ips \<Longrightarrow> distinct (map IP_String ips)"
  shows "wp (Reconcile (founat_watcher nl Get ns name t e) req) (\<lambda>res \<sigma>. res = Inr () \<and> ok (fst \<sigma>)) (s, w)"
  unfolding Reconcile_def wp_bind wp_on_kernel founat_watcher_simps
  by (rule Get_ok [OF assms(2), THEN wp_conseq])
    (use addPod_ok [OF assms(1)] delPeer_ok [OF _ assms(3,4)] in
      \<open>auto simp: wp_simps delTerminatedPod_def delPod_def split: sum.splits\<close>)

end

section \<open>The lemmas of the interface for this program's watcher\<close>

context netlink_api
begin

lemmas watcher_addPod = gw.wp_addPod
lemmas watcher_delPeer = gw.wp_delPeer
lemmas watcher_Reconcile = gw.wp_Reconcile_consistent

end

section \<open>The watcher on the in-memory kernel\<close>

text \<open>An API client that answers from a list of pods.\<close>

definition mem_Get :: "(NamespacedName \<times> pod) list \<Rightarrow> NamespacedName \<Rightarrow> (mem, pod) go" where
  "mem_Get pods req = State_Monad.return
    (case map_of pods req of None \<Rightarrow> Inl (APINotFound (snd req)) | Some p \<Rightarrow> Inr p)"

interpretation mem_api: reliable_api mem_ops mem_view mem_ok "mem_Get pods" for pods
  by unfold_locales (simp_all add: mem_Get_def wp_return)

definition podA :: pod where
  "podA = \<lparr>pod_Namespace = ''default'', pod_Name = ''a'', HostNetwork = False,
    Annotations = [(''egress.ysksuzuki.com/gw'', ''nat,other'')], PodIPs = [''10.1.2.3''],
    Phase = PodRunning\<rparr>"

definition ipA :: ip where "ipA = v4InV6Prefix @ [10, 1, 2, 3]"
definition ipB :: ip where "ipB = v4InV6Prefix @ [10, 1, 2, 4]"

abbreviation mem_watcher :: "(NamespacedName \<times> pod) list \<Rightarrow> mem podWatcher" where
  "mem_watcher pods \<equiv> founat_watcher mem_ops (mem_Get pods) ''gw'' ''nat'' tun4 egress4"

definition podsA :: "(NamespacedName \<times> pod) list" where
  "podsA = [((''default'', ''a''), podA)]"

lemma ParseIP_A: "ParseIP ''10.1.2.3'' = ipA" "ParseIP ''10.1.2.4'' = ipB"
  by (simp_all add: parse_eval ipA_def ipB_def)

lemma ip_AB:
  "To4 ipA = [10, 1, 2, 3]" "To4 ipB = [10, 1, 2, 4]" "supports tun4 ipA" "supports tun4 ipB"
  "\<not> Equal ipA ipB" "\<not> Equal ipB ipA" "Equal ipA ipA" "IP_String ipA \<noteq> IP_String ipB"
  by (simp_all add: ipA_def ipB_def To4_def v4InV6Prefix_def supports_def tun4_def Equal_def IP_String_def
      IPv4_String_def dec_string.simps)


lemma founat_watcher_handles: "shouldHandle (mem_watcher pods) podA"
  by (simp add: shouldHandle_def podA_def AnnEgressPrefix_def HasPrefix_def)

text \<open>The first reconciliation of the pod, on a fresh kernel.\<close>

lemma mem_reconcile_A:
  obtains s where
    "run_state (Reconcile (mem_watcher podsA) (''default'', ''a'')) (mem_init, new_watch) =
      (Inr (), (s, register ''default/a'' [ipA] new_watch))" "mem_ok s"
    "fouName ipA \<in> fou_links (mem_view s)"
proof -
  let ?r = "mem_watcher podsA"
  have eq: "run_state (Reconcile ?r (''default'', ''a'')) (mem_init, new_watch) =
      run_state (addPod ?r podA) (mem_init, new_watch)"
    using founat_watcher_handles [of podsA]
    by (simp add: Reconcile_def on_kernel_def mem_Get_def podsA_def isTerminated_def podA_def)
  have "wp (addPod ?r podA) (\<lambda>res \<sigma>. (res = Inr () \<and> mem_ok (fst \<sigma>)) \<and>
      (case res of Inl e \<Rightarrow> snd \<sigma> = new_watch
       | Inr _ \<Rightarrow> snd \<sigma> = register ''default/a'' [ipA] new_watch \<and> fou_links (mem_view (fst \<sigma>)) =
           fou_links (mem_view mem_init) \<union> added (supports tun4) [] [ipA] - dropped [] [ipA])) (mem_init, new_watch)"
    by (rule wp_conj [OF mem_api.addPod_ok mem_api.gw.wp_addPod])
      (auto simp: supports_def tun4_def eg_serves_def egress4_def ip_family_def podA_def pod_key_def
        new_watch_def ParseIP_A split: if_splits)
  then obtain s where "run_state (addPod ?r podA) (mem_init, new_watch) =
      (Inr (), (s, register ''default/a'' [ipA] new_watch))" "mem_ok s"
      "fou_links (mem_view s) = fou_links (mem_view mem_init) \<union> added (supports tun4) [] [ipA] - dropped [] [ipA]"
    by (auto dest!: wp_ex)
  moreover from this(3) have "fouName ipA \<in> fou_links (mem_view s)"
    by (simp add: added_def dropped_def ip_AB)
  ultimately show ?thesis using that eq by simp
qed

section \<open>Properties\<close>

text \<open>
  C26. \<^verbatim>\<open>addPod\<close> leaves the maps alone when it fails.  When it succeeds the pod is registered with
  its current addresses, and the tunnels are the former ones with those of its new served
  addresses and without those of the addresses it no longer has.
\<close>

theorem addPod_spec:
  assumes "netlink_api nl view Get"
    and "run_state (addPod (founat_watcher nl Get ns name t e) p) (s, w) = (res, (s', w'))"
    and "key = pod_key (pod_Namespace p) (pod_Name p)" "ips = map ParseIP (PodIPs p)"
    and "existing = (case podAddrs w key of None \<Rightarrow> [] | Some xs \<Rightarrow> xs)"
  shows "case res of
      Inl _ \<Rightarrow> w' = w
    | Inr _ \<Rightarrow> podAddrs w' = (podAddrs w)(key \<mapsto> ips) \<and>
        (\<forall>k a. has_key w' k a \<longleftrightarrow> has_key w k a \<or> k = key \<and> a \<in> IP_String ` set ips) \<and>
        fou_links (view s') = fou_links (view s) \<union>
          fouName ` {ip \<in> set ips. supports t ip \<and> \<not> (\<exists>eip \<in> set existing. Equal ip eip)} -
          fouName ` {eip \<in> set existing. \<not> (\<exists>ip \<in> set ips. Equal eip ip)}"
  using wp_runD [OF netlink_api.watcher_addPod [OF assms(1,3-5)] assms(2)] has_key_register [of key ips w]
  by (cases res) (simp_all add: added_def dropped_def register_def Let_def)

theorem addPod_spec_witness:
  "\<exists>s s' w'. run_state (addPod (mem_watcher podsA) (podA\<lparr>PodIPs := [''10.1.2.4'']\<rparr>))
      (s, register ''default/a'' [ipA] new_watch) = (Inr (), (s', w')) \<and>
    fouName ipA \<in> fou_links (mem_view s) \<and> fouName ipA \<notin> fou_links (mem_view s') \<and>
    fouName ipB \<in> fou_links (mem_view s')"
proof -
  let ?p = "podA\<lparr>PodIPs := [''10.1.2.4'']\<rparr>" and ?w = "register ''default/a'' [ipA] new_watch"
  obtain s where s: "mem_ok s" "fouName ipA \<in> fou_links (mem_view s)" by (rule mem_reconcile_A)
  have "wp (addPod (mem_watcher podsA) ?p) (\<lambda>res \<sigma>. res = Inr () \<and> mem_ok (fst \<sigma>)) (s, ?w)"
    by (rule mem_api.addPod_ok [OF _ s(1)])
      (auto simp: supports_def tun4_def eg_serves_def egress4_def ip_family_def split: if_splits)
  then obtain s' w' where run: "run_state (addPod (mem_watcher podsA) ?p) (s, ?w) = (Inr (), (s', w'))"
    by (auto dest!: wp_ex)
  have addrs: "podAddrs ?w (pod_key (pod_Namespace ?p) (pod_Name ?p)) = Some [ipA]"
      "map ParseIP (PodIPs ?p) = [ipB]"
    by (simp_all add: podA_def pod_key_def register_def ParseIP_A)
  have "fou_links (mem_view s') = insert (fouName ipB) (fou_links (mem_view s)) - {fouName ipA}"
    using addPod_spec [OF mem_api.netlink_api_axioms run refl refl refl] unfolding addrs sum.case
    by (simp add: ip_AB conj_commute cong: conj_cong)
  moreover have "fouName ipA \<noteq> fouName ipB" by (simp add: fouName_v4 ip_AB)
  ultimately show ?thesis using run s(2) by (intro exI conjI) (assumption | simp)+
qed

text \<open>
  C13. When \<^verbatim>\<open>delPod\<close> succeeds on consistent maps, the pod and its keys are gone, every other pod
  keeps its entries, and the tunnels that are gone are exactly those of the pod's addresses that
  no other pod is listed for.
\<close>

theorem delPod_spec:
  assumes "netlink_api nl view Get" "consistent {} w"
    and "run_state (delPod (founat_watcher nl Get ns name t e) n) (s, w) = (Inr (), (s', w'))"
    and "key = pod_key (fst n) (snd n)" "ips = (case podAddrs w key of None \<Rightarrow> [] | Some xs \<Rightarrow> xs)"
  shows "consistent {} w' \<and> podAddrs w' = (podAddrs w)(key := None) \<and>
    (\<forall>k a. has_key w' k a \<longleftrightarrow> has_key w k a \<and> \<not> (k = key \<and> a \<in> IP_String ` set ips)) \<and>
    fou_links (view s') = fou_links (view s) -
      fouName ` {ip \<in> set ips. \<not> (\<exists>k. k \<noteq> key \<and> has_key w k (IP_String ip))}"
proof -
  have run: "run_state (delPeer (founat_watcher nl Get ns name t e) key) (s, w) = (Inr (), (s', w'))"
    using assms(3,4) by (simp add: delPod_def)
  show ?thesis
    using wp_runD [OF netlink_api.watcher_delPeer [OF assms(1,2,5)] run] by (simp add: sole_def)
qed

lemma two_pods:
  assumes "w = register ''default/b'' [ipA] (register ''default/a'' [ipA] new_watch)"
  shows "consistent {} w" "podAddrs w ''default/a'' = Some [ipA]" "has_key w ''default/b'' (IP_String ipA)"
    "\<And>key ips. podAddrs w key = Some ips \<Longrightarrow> distinct (map IP_String ips)"
proof -
  show "consistent {} w"
    unfolding assms using consistent_register [of "{}"] consistent_new by (metis empty_Diff)
  show "podAddrs w ''default/a'' = Some [ipA]" by (simp add: assms register_def Let_def)
  show "has_key w ''default/b'' (IP_String ipA)" by (simp add: assms has_key_register)
  show "\<And>key ips. podAddrs w key = Some ips \<Longrightarrow> distinct (map IP_String ips)"
    by (auto simp: assms register_def new_watch_def Let_def split: if_splits)
qed

theorem delPod_spec_witness:
  "\<exists>s s' w'. run_state (delPod (mem_watcher []) (''default'', ''a''))
      (s, register ''default/b'' [ipA] (register ''default/a'' [ipA] new_watch)) = (Inr (), (s', w')) \<and>
    podAddrs w' ''default/a'' = None \<and> fouName ipA \<in> fou_links (mem_view s')"
proof -
  let ?w = "register ''default/b'' [ipA] (register ''default/a'' [ipA] new_watch)"
  obtain s where s: "mem_ok s" "fouName ipA \<in> fou_links (mem_view s)" by (rule mem_reconcile_A)
  note w = two_pods [OF refl]
  have "wp (delPod (mem_watcher []) (''default'', ''a'')) (\<lambda>res \<sigma>. res = Inr () \<and> mem_ok (fst \<sigma>)) (s, ?w)"
    unfolding delPod_def by (rule mem_api.delPeer_ok [OF s(1) w(1)]) (rule w(4))
  then obtain s' w' where run: "run_state (delPod (mem_watcher []) (''default'', ''a'')) (s, ?w) = (Inr (), (s', w'))"
    by (auto dest!: wp_ex)
  have key: "pod_key (fst (''default'', ''a'')) (snd (''default'', ''a'')) = ''default/a''"
    by (simp add: pod_key_def)
  have "fouName ipA \<in> fou_links (mem_view s')" "podAddrs w' ''default/a'' = None"
    using delPod_spec [OF mem_api.netlink_api_axioms w(1) run refl refl] s(2) w(3)
    unfolding key w(2) by auto
  with run show ?thesis by blast
qed

text \<open>
  When \<^verbatim>\<open>addPod\<close> succeeds for a pod that has lost an address, the tunnel of that address is
  gone even if another registered pod has it, and the pod stays listed as a peer of the address.
\<close>

lemma addPod_drops_shared:
  assumes "netlink_api nl view Get"
    and "run_state (addPod (founat_watcher nl Get ns name t e) p) (s, w) = (Inr (), (s', w'))"
    and "key = pod_key (pod_Namespace p) (pod_Name p)"
    and "registered w key ip" "has_key w key (IP_String ip)" "\<forall>x \<in> set (PodIPs p). \<not> Equal ip (ParseIP x)"
    and "k \<noteq> key" "registered w k ip"
  shows "fouName ip \<notin> fou_links (view s') \<and> registered w' k ip \<and> has_key w' key (IP_String ip)"
proof -
  obtain ips where "podAddrs w key = Some ips" "ip \<in> set ips"
    using assms(4) by (auto simp: registered_def)
  then have "fouName ip \<in> dropped (case podAddrs w key of None \<Rightarrow> [] | Some xs \<Rightarrow> xs) (map ParseIP (PodIPs p))"
    using assms(6) by (auto simp: dropped_def)
  then show ?thesis
    using wp_runD [OF netlink_api.watcher_addPod [OF assms(1,3) refl refl] assms(2)] assms(5,7,8)
    by (simp add: registered_register has_key_register)
qed

text \<open>
  C27. A deletion that fails after it has released at least one address can never be completed: the
  pod's key is gone from the peers of its first address, so every later attempt fails at once,
  without any effect, whatever the kernel does.
\<close>

theorem delPod_never_recovers:
  assumes "run_state (delPod r n) (s, w) = (Inl e, (s', w'))" "w' \<noteq> w"
  shows "\<exists>e'. run_state (delPod r n) (s2, w') = (Inl e', (s2, w'))"
proof -
  obtain ip ips where "podAddrs w' (pod_key (fst n) (snd n)) = Some (ip # ips)"
      "\<not> has_key w' (pod_key (fst n) (snd n)) (IP_String ip)"
    using delPeer_error_progress [OF assms(1) [unfolded delPod_def] assms(2)] by blast
  from delPeer_stuck [OF this] show ?thesis by (simp add: delPod_def)
qed

theorem delPod_never_recovers_witness:
  "\<exists>e s' w'. run_state (delPod (mem_watcher []) (''default'', ''a''))
      (mem_init\<lparr>m_fault := [False, True]\<rparr>, register ''default/a'' [ipA, ipB] new_watch) = (Inl e, (s', w')) \<and>
    (\<exists>e'. run_state (delPod (mem_watcher []) (''default'', ''a'')) (mem_init, w') = (Inl e', (mem_init, w')))"
proof -
  let ?s = "mem_init\<lparr>m_fault := [False, True]\<rparr>" and ?w = "register ''default/a'' [ipA, ipB] new_watch"
  let ?run = "run_state (delPod (mem_watcher []) (''default'', ''a'')) (?s, ?w)"
  have key: "pod_key ''default'' ''a'' = ''default/a''" by (simp add: pod_key_def)
  have w: "podAddrs ?w ''default/a'' = Some [ipA, ipB]" "peers ?w (IP_String ipA) = Some {''default/a''}"
      "peers ?w (IP_String ipB) = Some {''default/a''}"
    using ip_AB(8) by (simp_all add: register_def new_watch_def Let_def)
  have drop: "drop_key ''default/a'' (IP_String ipA) ?w = ?w\<lparr>peers := (peers ?w)(IP_String ipA := None)\<rparr>"
    using w(2) by (simp add: drop_key_def)
  have "\<exists>e s'. ?run = (Inl e, (s', drop_key ''default/a'' (IP_String ipA) ?w))"
    using w ip_AB(8) unfolding drop
    by (simp add: delPod_def key delPeer_def delPeer_step_def run_bindE get_watch_def upd_watch_def
        on_kernel_def existsOtherLivePeers_def as_FoUTunnel_def DelPeer_def mem_ops_def mem_op_def
        mem_LinkByName_def mem_init_def drop)
  then obtain e s' where run: "?run = (Inl e, (s', drop_key ''default/a'' (IP_String ipA) ?w))" by blast
  have "peers (drop_key ''default/a'' (IP_String ipA) ?w) \<noteq> peers ?w"
    unfolding drop using w(2) by (auto dest: fun_cong [of _ _ "IP_String ipA"])
  then have "drop_key ''default/a'' (IP_String ipA) ?w \<noteq> ?w" by metis
  with run show ?thesis using delPod_never_recovers [OF run] by blast
qed

text \<open>
  C28. \<^verbatim>\<open>Reconcile\<close> succeeds, whatever pod or error the API server returns, on a kernel that
  refuses nothing it need not refuse, if the maps are consistent, no registered pod has an
  address twice, and tunnels and egress are set up for the same families.
\<close>

theorem Reconcile_succeeds:
  assumes "reliable_api nl view ok Get" "ok s" "consistent {} w"
    and "\<And>a. supports t a \<Longrightarrow> eg_serves e (ip_family a)"
    and "\<And>key ips. podAddrs w key = Some ips \<Longrightarrow> distinct (map IP_String ips)"
  shows "\<exists>s' w'. run_state (Reconcile (founat_watcher nl Get ns name t e) req) (s, w) = (Inr (), (s', w')) \<and>
    ok s' \<and> consistent {} w'"
proof -
  have api: "netlink_api nl view Get" by (rule reliable_api.axioms(2) [OF assms(1)])
  show ?thesis
    using wp_ex [OF wp_conj [OF reliable_api.Reconcile_ok [OF assms(1,4,2,3,5)]
        netlink_api.watcher_Reconcile [OF api assms(3)]]]
    by (fastforce simp: split_paired_all)
qed

theorem Reconcile_succeeds_witness:
  "\<exists>s' w'. run_state (Reconcile (mem_watcher podsA) (''default'', ''b''))
      (mem_init, register ''default/b'' [ipA] (register ''default/a'' [ipA] new_watch)) = (Inr (), (s', w')) \<and>
    mem_ok s' \<and> consistent {} w'"
  by (rule Reconcile_succeeds [OF mem_api.reliable_api_axioms])
    (use two_pods [OF refl] in \<open>auto simp: supports_def tun4_def eg_serves_def egress4_def ip_family_def split: if_splits\<close>)

end
