(* ===== verification/Agent_Spec.thy ===== *)
theory Agent_Spec
  imports Agent_Setup Watcher_Spec
begin

text \<open>
  The properties of the node agent: which gateways a pod gets, which addresses it is taken to have,
  what \<^verbatim>\<open>Add\<close> leaves in its network namespace and which errors it returns.
\<close>

section \<open>Names in annotations\<close>

text \<open>
  The agent and the watcher of an egress pod read the same annotations; the shortcut of
  \<^verbatim>\<open>shouldHandle\<close> for an annotation that is just the name makes no difference.
\<close>

lemma shouldHandle_loop_iff:
  assumes "CHR '','' \<notin> set name"
  shows "shouldHandle_loop ns name anns \<longleftrightarrow> (ns, name) \<in> set (egNames anns)"
proof (induction anns)
  case (Cons a anns)
  have "name \<in> set (Split CHR '','' name)" using Split_noop [OF assms] by simp
  with Cons show ?case by (cases a) auto
qed simp

section \<open>Gateways\<close>

lemma set_nets_of:
  "n \<in> set (nets_of v4 ds) \<longleftrightarrow> (To4 (IP n) \<noteq> nil_IP) = v4 \<and> (\<exists>d \<in> set ds. \<exists>a. ParseCIDR d = Inr (a, n))"
proof -
  have one: "n \<in> set (case ParseCIDR d of Inl _ \<Rightarrow> [] | Inr (_, m) \<Rightarrow> [m]) \<longleftrightarrow> (\<exists>a. ParseCIDR d = Inr (a, n))" for d
    by (cases "ParseCIDR d") auto
  show ?thesis by (simp only: nets_of_def set_filter set_concat set_map mem_Collect_eq UN_iff bex_simps one) blast
qed

lemma gateway_of_family:
  assumes "g \<in> set (gateway_of eg svc)"
  shows "Networks g \<noteq> []" "\<forall>n \<in> set (Networks g). ip_family (IP n) = ip_family (Gateway g)"
    "\<forall>n \<in> set (Networks g). \<exists>d \<in> set (Destinations (Spec eg)). \<exists>a. ParseCIDR d = Inr (a, n)"
  using assms
  by (auto simp: gateway_of_def set_nets_of Let_def ip_family_def split: if_splits)

context agent_api
begin

lemma wp_getGWNets:
  "wp (getGWNets e lib p) (\<lambda>r s'. view s' = view s \<and> (case r of
      Inl err \<Rightarrow> cni_status {(FailedPrecondition, INTERNAL), (Internal, INTERNAL)} err
    | Inr l \<Rightarrow> l = (if HostNetwork p then [] else gateways egs svcs (egNames (Annotations p))) \<and>
        (\<not> HostNetwork p \<longrightarrow> (\<forall>n \<in> set (egNames (Annotations p)). complete egs svcs n)))) s"
  unfolding getGWNets_def
  by (auto simp: wp_simps gateways_def intro!: wp_gwlist [THEN wp_conseq] split: sum.splits)

end

section \<open>Configuration\<close>

text \<open>Documented of \<^verbatim>\<open>NetConf\<close>: the field \<^verbatim>\<open>PrevResult\<close> is not decoded from JSON.\<close>

definition json_ok :: "'p cni_lib \<Rightarrow> bool" where
  "json_ok lib \<longleftrightarrow> (\<forall>x nc. Unmarshal lib x = Inr nc \<longrightarrow> PrevResult nc = None)"

lemma parseConfig_Inr:
  assumes "parseConfig lib stdin ifName = Inr (conf, result)"
  shows "pod_addrs (IP (ContIPv4 conf)) (IP (ContIPv6 conf))"
    "PrevResult conf \<noteq> None \<Longrightarrow> \<exists>res. result = Some res \<and>
      IP (ContIPv4 conf) = first_addr True ifName (Interfaces res) (IPs res) \<and>
      IP (ContIPv6 conf) = first_addr False ifName (Interfaces res) (IPs res)"
    "PrevResult conf = None \<Longrightarrow> IP (ContIPv4 conf) = nil_IP \<and> IP (ContIPv6 conf) = nil_IP"
proof -
  have fst: "IP (fst (contIPs ifName ifs ips zero_net zero_net)) = first_addr True ifName ifs ips"
    and snd: "IP (snd (contIPs ifName ifs ips zero_net zero_net)) = first_addr False ifName ifs ips" for ifs ips
    using contIPs_first [of ifName ifs ips zero_net zero_net] by (simp_all add: zero_net_def)
  note * = assms [unfolded parseConfig_def Let_def]
  show "PrevResult conf \<noteq> None \<Longrightarrow> \<exists>res. result = Some res \<and>
      IP (ContIPv4 conf) = first_addr True ifName (Interfaces res) (IPs res) \<and>
      IP (ContIPv6 conf) = first_addr False ifName (Interfaces res) (IPs res)"
    using * by (auto simp: fst [symmetric] snd [symmetric] split_beta split: sum.splits if_splits option.splits)
  moreover show "PrevResult conf = None \<Longrightarrow> IP (ContIPv4 conf) = nil_IP \<and> IP (ContIPv6 conf) = nil_IP"
    using * by (auto simp: zero_net_def split_beta split: sum.splits if_splits option.splits)
  ultimately show "pod_addrs (IP (ContIPv4 conf)) (IP (ContIPv6 conf))"
    unfolding pod_addrs_def using first_addr_family by (cases "PrevResult conf = None") (simp, metis)
qed

lemma parseConfig_no_panic:
  "json_ok lib \<Longrightarrow> parseConfig lib stdin ifName \<noteq> Inl (Panic p)"
  by (auto simp: parseConfig_def Let_def json_ok_def split_beta split: sum.splits if_splits option.splits)

section \<open>Add\<close>

text \<open>
  Documented of \<^verbatim>\<open>ns.WithNetNSPath\<close>: it runs the function in the namespace and returns its error, or
  an error of its own without having run it.
\<close>

definition netns_runs :: "('s \<Rightarrow> kview) \<Rightarrow> (string \<Rightarrow> ('s, unit) go \<Rightarrow> ('s, unit) go) \<Rightarrow> bool" where
  "netns_runs view W \<longleftrightarrow> (\<forall>path m Q s.
    (\<forall>err s'. \<not> is_panic err \<and> view s' = view s \<longrightarrow> Q (Inl err) s') \<longrightarrow>
    (\<forall>s1. view s1 = view s \<longrightarrow> wp m Q s1) \<longrightarrow> wp (W path m) Q s)"

text \<open>What a successful \<^verbatim>\<open>Add\<close> has done: nothing, or the setup for the pod's gateways.\<close>

definition setup_post :: "int \<Rightarrow> 'p PluginConf \<Rightarrow> GWNets list \<Rightarrow> kview \<Rightarrow> kview \<Rightarrow> bool" where
  "setup_post port conf gws v v' \<longleftrightarrow>
    (let ipv4 = IP (ContIPv4 conf); ipv6 = IP (ContIPv6 conf);
         d = (if ipv4 \<noteq> nil_IP then ipip6Device else ipip4Device); c = agent_client ipv4 ipv6
     in if gws = [] then v' = v
        else (ipv4 = nil_IP \<or> ipv6 = nil_IP) \<longrightarrow> v_links v d = None \<longrightarrow>
          gw_done (agent_tunnel port ipv4 ipv6) c d (init_view c v) gws v')"

definition pod_gateways :: "(NamespacedName \<Rightarrow> EgressObj option) \<Rightarrow>
    (NamespacedName \<Rightarrow> ServiceIP option) \<Rightarrow> pod \<Rightarrow> GWNets list" where
  "pod_gateways egs svcs p = (if HostNetwork p then [] else gateways egs svcs (egNames (Annotations p)))"

definition Add_codes :: "(grpc_code \<times> ErrorCode) set" where
  "Add_codes = {(InvalidArgument, INVALID_ENVIRONMENT_VARIABLES), (NotFound, UNKNOWN_CONTAINER),
    (InvalidArgument, DECODING_FAILURE), (Internal, INTERNAL)}"

context agent_api
begin

lemma wp_Add_setup:
  assumes W: "netns_runs view W" and conf: "parseConfig lib stdin ifName = Inr (conf, prevRes)"
  shows "wp (bindE (if g \<noteq> [] then
        map_err (\<lambda>err. newInternalError lib err msg)
          (W path (setupEgressGW nl port (IP (ContIPv4 conf)) (IP (ContIPv6 conf)) g))
      else ret ()) (\<lambda>_. case Marshal lib prevRes of
        Inl err \<Rightarrow> fail (newInternalError lib err msg') | Inr data \<Rightarrow> ret data))
    (\<lambda>r s'. case r of
      Inl err \<Rightarrow> cni_status {(Internal, INTERNAL)} err
    | Inr data \<Rightarrow> Marshal lib prevRes = Inr data \<and> setup_post port conf g (view s) (view s')) s"
proof (cases "g = []")
  case True
  then show ?thesis by (simp add: wp_simps setup_post_def split: sum.splits)
next
  case False
  let ?ipv4 = "IP (ContIPv4 conf)" and ?ipv6 = "IP (ContIPv6 conf)"
  let ?d = "if ?ipv4 \<noteq> nil_IP then ipip6Device else ipip4Device"
  note addrs = parseConfig_Inr(1) [OF conf]
  have sets: "wp (setupEgressGW nl port ?ipv4 ?ipv6 g)
      (\<lambda>r s'. (\<forall>e. r = Inl e \<longrightarrow> \<not> is_panic e) \<and> (r = Inr () \<longrightarrow> setup_post port conf g (view s) (view s'))) s1"
    if s1: "view s1 = view s" for s1
  proof (cases "(?ipv4 = nil_IP \<or> ?ipv6 = nil_IP) \<and> v_links (view s) ?d = None")
    case True
    then have "v_links (view s1) ?d = None" using s1 by simp
    with True have "wp (setupEgressGW nl port ?ipv4 ?ipv6 g) (\<lambda>r s'. r = Inr () \<longrightarrow>
        gw_done (agent_tunnel port ?ipv4 ?ipv6) (agent_client ?ipv4 ?ipv6) ?d
          (init_view (agent_client ?ipv4 ?ipv6) (view s)) g (view s')) s1"
      using wp_setupEgressGW [OF addrs _ refl, of s1 port g] s1 by simp
    then show ?thesis
      by (rule wp_conj [OF env_setupEgressGW [OF addrs], THEN wp_conseq])
        (auto simp: setup_post_def Let_def False)
  next
    case 2: False
    show ?thesis
      by (rule env_setupEgressGW [OF addrs, THEN wp_conseq]) (use 2 False in \<open>auto simp: setup_post_def Let_def\<close>)
  qed
  have "wp (W path (setupEgressGW nl port ?ipv4 ?ipv6 g))
      (\<lambda>r s'. (\<forall>e. r = Inl e \<longrightarrow> \<not> is_panic e) \<and> (r = Inr () \<longrightarrow> setup_post port conf g (view s) (view s'))) s"
    using W [unfolded netns_runs_def, rule_format, OF _ sets] by simp
  then show ?thesis
    using False unfolding wp_bindE if_P [OF False] wp_map_err
    by (elim wp_conseq) (auto simp: wp_return split: sum.splits)
qed

lemma wp_Add:
  assumes W: "netns_runs view W" and json: "json_ok lib"
  shows "wp (Add e lib nl W args) (\<lambda>r s'. case r of
      Inl err \<Rightarrow> cni_status Add_codes err
    | Inr data \<Rightarrow> \<exists>p conf prevRes.
        pods (map_get (Args args) PodNamespaceKey, map_get (Args args) PodNameKey) = Some p \<and>
        parseConfig lib (StdinData args) (Ifname args) = Inr (conf, prevRes) \<and>
        Marshal lib prevRes = Inr data \<and>
        setup_post (egressPort e) conf (pod_gateways egs svcs p) (view s) (view s')) s"
proof -
  let ?name = "map_get (Args args) PodNameKey" and ?ns = "map_get (Args args) PodNamespaceKey"
  show ?thesis
  proof (cases "?name = '''' \<or> ?ns = ''''")
    case True
    then show ?thesis by (simp add: Add_def Let_def wp_return Add_codes_def)
  next
    case False
    show ?thesis
      unfolding Add_def Let_def if_not_P [OF False] wp_bindE wp_map_err
    proof (rule GetPod [THEN wp_conseq], goal_cases)
      case (1 r s1)
      show ?case
      proof (cases r)
        case (Inr p)
        then have p: "pods (?ns, ?name) = Some p" "view s1 = view s" using 1 by auto
        show ?thesis
          unfolding Inr sum.case wp_bindE [of "map_err _ (getGWNets _ _ _)"] wp_map_err
        proof (rule wp_getGWNets [THEN wp_conseq], goal_cases)
          case (1 r s2)
          show ?case
          proof (cases r)
            case (Inl err)
            with 1 show ?thesis by (auto simp: cni_status_def Add_codes_def newInternalError_def newError_def)
          next
            case (Inr g)
            then have g: "g = pod_gateways egs svcs p" "view s2 = view s"
              using 1 p(2) by (auto simp: pod_gateways_def)
            show ?thesis
            proof (cases "parseConfig lib (StdinData args) (Ifname args)")
              case 2: (Inl err)
              then have "\<not> is_panic err" using parseConfig_no_panic [OF json] by (auto elim: is_panicE)
              then have "(case err of Panic q \<Rightarrow> fail (Panic q) | _ \<Rightarrow> fail x) = (fail x :: ('s, string) go)" for x
                by (cases err) simp_all
              with 2 Inr show ?thesis by (simp add: wp_return Add_codes_def)
            next
              case 2: (Inr c)
              obtain conf prevRes where c: "c = (conf, prevRes)" by (cases c)
              show ?thesis
                unfolding Inr 2 c sum.case prod.case
                by (rule wp_Add_setup [OF W 2 [unfolded c], THEN wp_conseq])
                  (use p g 2 c in \<open>auto simp: cni_status_def Add_codes_def split: sum.splits\<close>)
            qed
          qed
        qed
      qed (use 1 in \<open>auto simp: Add_codes_def\<close>)
    qed
  qed
qed

end

section \<open>An agent on the in-memory kernel\<close>

definition mem_lookup :: "(NamespacedName \<times> 'a) list \<Rightarrow> NamespacedName \<Rightarrow> (mem, 'a) go" where
  "mem_lookup xs n = State_Monad.return
    (case map_of xs n of None \<Rightarrow> Inl (APINotFound (snd n)) | Some x \<Rightarrow> Inr x)"

definition mem_agent :: "(NamespacedName \<times> pod) list \<Rightarrow> (NamespacedName \<times> EgressObj) list \<Rightarrow>
    (NamespacedName \<times> ServiceIP) list \<Rightarrow> mem egressGwAgent" where
  "mem_agent pods egs svcs = \<lparr>apiReader_GetPod = mem_lookup pods, client_GetEgress = mem_lookup egs,
    client_GetService = mem_lookup svcs, egressPort = 5555\<rparr>"

interpretation mem_agent: agent_api mem_ops mem_view "mem_agent pods egs svcs" "map_of pods" "map_of egs"
    "map_of svcs" for pods egs svcs
  by unfold_locales (auto simp: mem_agent_def mem_lookup_def wp_return split: option.splits)

text \<open>A pod that asks for the gateway of \<^const>\<open>eg_nat\<close>, and a configuration with its address.\<close>

definition client_pod :: pod where
  "client_pod = podA\<lparr>Annotations := [(''egress.ysksuzuki.com/gw'', ''nat'')]\<rparr>"

definition svc_nat :: ServiceIP where "svc_nat = \<lparr>ClusterIP = ''10.1.2.3''\<rparr>"

definition gw_nat :: GWNets where
  "gw_nat = \<lparr>Gateway = [10, 1, 2, 3], Networks = [\<lparr>IP = [8, 8, 0, 0], Mask = [255, 255, 0, 0]\<rparr>,
     \<lparr>IP = [10, 0, 0, 0], Mask = [255, 0, 0, 0]\<rparr>]\<rparr>"

definition prev_result :: Result where
  "prev_result = \<lparr>Interfaces = [\<lparr>if_Name = ''lxc1'', if_Sandbox = ''''\<rparr>, \<lparr>if_Name = ''eth0'', if_Sandbox = ''/ns''\<rparr>],
    IPs = [\<lparr>ic_Interface = Some 0, ic_Address = \<lparr>IP = [10, 1, 1, 1], Mask = [255, 255, 255, 0]\<rparr>\<rparr>,
      \<lparr>ic_Interface = Some 1, ic_Address = \<lparr>IP = [10, 1, 1, 9], Mask = [255, 255, 255, 0]\<rparr>\<rparr>], res_rest = ''''\<rparr>"

definition lib1 :: "Result cni_lib" where
  "lib1 = \<lparr>Unmarshal = (\<lambda>x. if x = '''' then Inl (OtherError ''unexpected end of JSON input'')
      else Inr \<lparr>RawPrevResult = Some x, PrevResult = None, CNIVersion = ''1.0.0''\<rparr>),
    ParsePrevResult = (\<lambda>nc. Inr (nc\<lparr>PrevResult := Some prev_result\<rparr>)),
    NewResultFromResult = (\<lambda>p. case p of None \<Rightarrow> Inl (OtherError ''no result'') | Some r \<Rightarrow> Inr r),
    Marshal = (\<lambda>r. Inr ''result''), Error = (\<lambda>e. ''error'')\<rparr>"

lemma lib1_json [simp]: "json_ok lib1"
  by (auto simp: json_ok_def lib1_def split: if_splits)

lemma egNames_client: "egNames (Annotations client_pod) = [(''gw'', ''nat'')]" "\<not> HostNetwork client_pod"
  by (simp_all add: client_pod_def podA_def AnnEgressPrefix_def HasPrefix_def)

lemma gateways_client:
  "pod_gateways (map_of [((''gw'', ''nat''), eg_nat)]) (map_of [((''gw'', ''nat''), svc_nat)]) client_pod = [gw_nat]"
  by (simp add: pod_gateways_def egNames_client gateways_def gateway_of_def Let_def nets_of_def svc_nat_def
      ParseIP_A ip_AB eg_nat_parses gw_nat_def) (simp add: eg_nat_def eg_nat_parses To4_def)

lemma getGWNets_client:
  "run_state (getGWNets (mem_agent pods [((''gw'', ''nat''), eg_nat)] [((''gw'', ''nat''), svc_nat)]) lib1 client_pod) s =
    (Inr [gw_nat], s)"
proof -
  have "To4 [a, b, c, d] = [a, b, c, d]" for a b c d :: byte by (simp add: To4_def)
  moreover have "ipA \<noteq> nil_IP" by (simp add: ipA_def)
  ultimately show ?thesis
    by (simp add: getGWNets_def egNames_client run_bindE map_err_def mem_agent_def mem_lookup_def svc_nat_def
        ParseIP_A ip_AB Let_def gw_nat_def) (simp add: eg_nat_def eg_nat_parses ParseIP_A ip_AB)
qed

lemma conf_client:
  "x \<noteq> '''' \<Longrightarrow> \<exists>conf. parseConfig lib1 x ''eth0'' = Inr (conf, Some prev_result) \<and>
    IP (ContIPv4 conf) = [10, 1, 1, 9] \<and> IP (ContIPv6 conf) = nil_IP"
  by (simp add: parseConfig_def lib1_def prev_result_def non_sandbox_def To4_def zero_net_def)

text \<open>
  The agent and the egress pods agree on which pods use which egress: an egress pod handles a pod
  exactly if the agent looks its egress up for that pod (a name contains no comma).
\<close>

lemma shouldHandle_iff:
  assumes "CHR '','' \<notin> set (myName r)"
  shows "shouldHandle r p \<longleftrightarrow> \<not> HostNetwork p \<and> (myNS r, myName r) \<in> set (egNames (Annotations p))"
  using shouldHandle_loop_iff [OF assms] by (simp add: shouldHandle_def)

section \<open>Properties\<close>

text \<open>
  C30. The gateways \<^verbatim>\<open>getGWNets\<close> returns are, in the order of the names in the annotations, those
  whose Egress has a network of the family of its Service's address; each comes with exactly these
  networks, and nothing changes in the pod's network namespace.
\<close>

theorem getGWNets_spec:
  assumes "agent_api nl view e pods egs svcs" "run_state (getGWNets e lib p) s = (Inr gws, s')"
  shows "view s' = view s \<and> gws = pod_gateways egs svcs p \<and>
    (\<forall>g \<in> set gws. Networks g \<noteq> [] \<and> (\<forall>n \<in> set (Networks g). ip_family (IP n) = ip_family (Gateway g)))"
proof -
  have "view s' = view s" "gws = pod_gateways egs svcs p"
    using wp_runD [OF agent_api.wp_getGWNets [OF assms(1)] assms(2)] by (simp_all add: pod_gateways_def)
  moreover have "Networks g \<noteq> [] \<and> (\<forall>n \<in> set (Networks g). ip_family (IP n) = ip_family (Gateway g))"
    if "g \<in> set (pod_gateways egs svcs p)" for g
    using that gateway_of_family(1,2) by (fastforce simp: pod_gateways_def gateways_def split: if_splits)
  ultimately show ?thesis by blast
qed

theorem getGWNets_spec_witness:
  "\<exists>s'. run_state (getGWNets (mem_agent [] [((''gw'', ''nat''), eg_nat)] [((''gw'', ''nat''), svc_nat)]) lib1 client_pod)
      mem_init = (Inr [gw_nat], s') \<and> mem_view s' = mem_view mem_init"
proof -
  let ?e = "mem_agent [] [((''gw'', ''nat''), eg_nat)] [((''gw'', ''nat''), svc_nat)]"
  have run: "run_state (getGWNets ?e lib1 client_pod) mem_init = (Inr [gw_nat], mem_init)"
    by (rule getGWNets_client)
  from getGWNets_spec [OF mem_agent.agent_api_axioms run] run gateways_client show ?thesis by auto
qed

text \<open>
  C31. The addresses \<^verbatim>\<open>parseConfig\<close> takes for the container: with a previous result, for each
  family the first address that is not on a known interface outside the sandbox; without one, none.
  They are of the families they are stored under, so that \<^verbatim>\<open>NewFoUTunnel\<close> and \<^verbatim>\<open>NewNatClient\<close> do not
  panic.
\<close>

theorem parseConfig_addresses:
  assumes "parseConfig lib stdin ifName = Inr (conf, result)"
  shows "(IP (ContIPv4 conf) = nil_IP \<or> To4 (IP (ContIPv4 conf)) \<noteq> nil_IP) \<and> To4 (IP (ContIPv6 conf)) = nil_IP \<and>
    (case PrevResult conf of
       None \<Rightarrow> IP (ContIPv4 conf) = nil_IP \<and> IP (ContIPv6 conf) = nil_IP
     | Some _ \<Rightarrow> (\<exists>res. result = Some res \<and>
         IP (ContIPv4 conf) = first_addr True ifName (Interfaces res) (IPs res) \<and>
         IP (ContIPv6 conf) = first_addr False ifName (Interfaces res) (IPs res)))"
  using parseConfig_Inr [OF assms] by (cases "PrevResult conf") (simp_all add: pod_addrs_def)

theorem parseConfig_addresses_witness:
  "\<exists>conf. parseConfig lib1 ''{}'' ''eth0'' = Inr (conf, Some prev_result) \<and>
    IP (ContIPv4 conf) = first_addr True ''eth0'' (Interfaces prev_result) (IPs prev_result) \<and>
    IP (ContIPv4 conf) = [10, 1, 1, 9]"
proof -
  obtain conf where conf: "parseConfig lib1 ''{}'' ''eth0'' = Inr (conf, Some prev_result)"
      "IP (ContIPv4 conf) = [10, 1, 1, 9]" using conf_client [of "''{}''"] by auto
  with parseConfig_addresses [OF conf(1)] show ?thesis by (cases "PrevResult conf") auto
qed

text \<open>
  C3. The policy routing of a pod with addresses of one family after \<^verbatim>\<open>setupEgressGW\<close>: every gateway of
  that family has its tunnel, and for every destination the kernel's rule lookup selects the table
  that the policy for the networks of these gateways together names.
\<close>

theorem setupEgressGW_policy:
  assumes "netlink_laws nl view" "run_state (setupEgressGW nl port ipv4 ipv6 gws) s = (Inr (), s')"
    and "pod_addrs ipv4 ipv6" "ipv4 = nil_IP \<or> ipv6 = nil_IP"
    and "v_links (view s) ipip4Device = None" "v_links (view s) ipip6Device = None"
    and "\<forall>g \<in> set gws. \<forall>n \<in> set (Networks g). net_ok (ip_family (IP n)) n"
    and "length a = 4 \<or> length a = 16" "if ip_family a = FAMILY_V4 then ipv4 \<noteq> nil_IP else ipv6 \<noteq> nil_IP"
    and "supported = filter (\<lambda>g. ip_family (Gateway g) = ip_family a) gws"
  shows "(\<forall>g \<in> set supported. v_links (view s') (fouName (Gateway g)) \<noteq> None) \<and>
    (selects (view s') (ip_family a) a t \<longleftrightarrow>
      egress_policy (agent_client ipv4 ipv6) (concat (map Networks supported)) a = Some t)"
proof -
  let ?t = "agent_tunnel port ipv4 ipv6" and ?c = "agent_client ipv4 ipv6"
  let ?d = "if ipv4 \<noteq> nil_IP then ipip6Device else ipip4Device"
  have serves: "nat_serves ?c (ip_family a)"
    using assms(9) by (cases "ip_family a") (simp_all add: nat_serves_def agent_client_def)
  have sup: "supports ?t b \<longleftrightarrow> ip_family b = ip_family a" for b
    using assms(4,9) by (auto simp: supports_def agent_tunnel_def ip_family_def split: if_splits)
  have gws: "gw_done ?t ?c ?d (init_view ?c (view s)) gws (view s')"
    using wp_runD [OF netlink_laws.wp_setupEgressGW [OF assms(1,3,4) refl] assms(2)] assms(5,6) by simp
  then obtain ls where ls: "map fst ls = filter (\<lambda>g. supports ?t (Gateway g)) gws"
      "\<forall>(g, l) \<in> set ls. v_links (view s') (fouName (Gateway g)) = Some l" by (auto simp: gw_done_def)
  have "\<exists>l. (g, l) \<in> set ls" if "g \<in> set supported" for g
  proof -
    have "g \<in> set (map fst ls)" using that ls(1) by (simp add: assms(10) sup)
    then show ?thesis by auto
  qed
  then have "\<forall>g \<in> set supported. v_links (view s') (fouName (Gateway g)) \<noteq> None" using ls(2) by fastforce
  moreover have "selects (view s') (ip_family a) a t \<longleftrightarrow> egress_policy ?c (concat (map Networks supported)) a = Some t"
    by (rule gw_done_selects [OF gws serves assms(8,7) refl]) (simp add: assms(10) sup)
  ultimately show ?thesis by blast
qed

text \<open>
  C32. \<^verbatim>\<open>setupEgressGW\<close> succeeds for a pod with addresses of one family, on a kernel that refuses
  nothing it need not refuse, in a namespace without a listener on the port and without the other
  family's IPIP device, if no two networks of the gateways of that family are the same.
\<close>

theorem setupEgressGW_succeeds:
  assumes "netlink_reliable nl view ok" "ok s" "pod_addrs ipv4 ipv6" "ipv4 = nil_IP \<or> ipv6 = nil_IP"
    and "v_links (view s) ipip4Device = None" "v_links (view s) ipip6Device = None"
    and "\<forall>z \<in># v_fou (view s). fou_Port z \<noteq> port"
    and "nets = concat (map Networks (filter (\<lambda>g. supports (agent_tunnel port ipv4 ipv6) (Gateway g)) gws))"
    and "distinct (map (\<lambda>n. (ip_family (IP n), kernel_dst (Some n))) nets)"
    and "\<forall>g \<in> set gws. \<forall>n \<in> set (Networks g). ip_family (IP n) = ip_family (Gateway g)"
  shows "\<exists>s'. run_state (setupEgressGW nl port ipv4 ipv6 gws) s = (Inr (), s') \<and> ok s'"
proof -
  have "\<forall>n \<in> set nets. nat_serves (agent_client ipv4 ipv6) (ip_family (IP n))"
    using assms(8,10)
    by (auto simp: supports_def agent_tunnel_def nat_serves_def agent_client_def ip_family_def
        split: if_splits)
  moreover have "v_links (view s) (if ipv4 \<noteq> nil_IP then ipip6Device else ipip4Device) = None"
    using assms(5,6) by simp
  ultimately show ?thesis
    using wp_ex [OF netlink_reliable.setupEgressGW_ok [OF assms(1-4) refl _ assms(7,8,9)]] by blast
qed

lemma client_setup:
  "pod_addrs [10, 1, 1, 9] nil_IP" "v_links (mem_view mem_init) n = None" "v_fou (mem_view mem_init) = {#}"
  "\<forall>n \<in> set (Networks gw_nat). ip_family (IP n) = FAMILY_V4 \<and> net_ok FAMILY_V4 n"
  "ip_family (Gateway gw_nat) = FAMILY_V4"
  "distinct (map (\<lambda>n. (ip_family (IP n), kernel_dst (Some n))) (Networks gw_nat))"
  by (simp_all add: pod_addrs_def To4_def mem_view_def mem_init_def gw_nat_def ip_family_def net_ok_def
      kernel_dst_def)

theorem setupEgressGW_succeeds_witness:
  "\<exists>s'. run_state (setupEgressGW mem_ops 5555 [10, 1, 1, 9] nil_IP [gw_nat]) mem_init = (Inr (), s') \<and> mem_ok s'"
  by (rule setupEgressGW_succeeds [OF memr.netlink_reliable_axioms mem_init_ok4 client_setup(1) _ _ _ _ refl])
    (use client_setup in simp_all)

lemma client_setup_run:
  "\<exists>s'. run_state (setupEgressGW mem_ops 5555 [10, 1, 1, 9] nil_IP [gw_nat]) mem_init = (Inr (), s')"
proof -
  have "wp (setupEgressGW mem_ops 5555 [10, 1, 1, 9] nil_IP [gw_nat]) (\<lambda>r s'. r = Inr () \<and> mem_ok s') mem_init"
    by (rule memr.setupEgressGW_ok [OF mem_init_ok4 client_setup(1) _ refl _ _ refl])
      (use client_setup in \<open>auto simp: nat_serves_def agent_client_def\<close>)
  then show ?thesis by (auto dest!: wp_ex)
qed

theorem setupEgressGW_policy_witness:
  "\<exists>s'. run_state (setupEgressGW mem_ops 5555 [10, 1, 1, 9] nil_IP [gw_nat]) mem_init = (Inr (), s') \<and>
    v_links (mem_view s') (fouName [10, 1, 2, 3]) \<noteq> None \<and>
    (\<forall>t. selects (mem_view s') FAMILY_V4 [8, 8, 8, 8] t \<longleftrightarrow> t = ncWideTableID)"
proof -
  obtain s' where run: "run_state (setupEgressGW mem_ops 5555 [10, 1, 1, 9] nil_IP [gw_nat]) mem_init = (Inr (), s')"
    using client_setup_run by blast
  have fam: "ip_family [8, 8, 8, 8] = FAMILY_V4" by (simp add: ip_family_def To4_def)
  have pol: "egress_policy (agent_client [10, 1, 1, 9] nil_IP) (Networks gw_nat) [8, 8, 8, 8] = Some ncWideTableID"
    by (simp add: egress_policy_def gw_nat_def egress_table_def local_nets_def ip_family_def agent_client_def
        v4PrivateList_def parse_eval v4InV6Prefix_def CIDRMask_def mask_byte_def upt_rec Contains_def
        networkNumberAndMask_def and_bytes_def To4_def nc_consts linkLocal_def v4LinkLocal_def)
  have "(\<forall>g \<in> set [gw_nat]. v_links (mem_view s') (fouName (Gateway g)) \<noteq> None) \<and>
      (selects (mem_view s') (ip_family [8, 8, 8, 8]) [8, 8, 8, 8] t \<longleftrightarrow>
        egress_policy (agent_client [10, 1, 1, 9] nil_IP) (concat (map Networks [gw_nat])) [8, 8, 8, 8] = Some t)" for t
    by (rule setupEgressGW_policy [OF mem.netlink_laws_axioms run client_setup(1)])
      (use client_setup in \<open>simp_all add: fam\<close>)
  then have "v_links (mem_view s') (fouName (Gateway gw_nat)) \<noteq> None"
      "\<And>t. selects (mem_view s') FAMILY_V4 [8, 8, 8, 8] t \<longleftrightarrow> t = ncWideTableID"
    by (auto simp: fam pol)
  then show ?thesis using run by (auto simp: gw_nat_def)
qed


definition args_client :: CNIArgs where
  "args_client = \<lparr>ContainerId = ''c1'', Netns = ''/ns'', Ifname = ''eth0'',
    Args = [(''K8S_POD_NAMESPACE'', ''default''), (''K8S_POD_NAME'', ''a'')], Path = '''', StdinData = ''{}''\<rparr>"

text \<open>The agent of the example succeeds for its pod.\<close>

abbreviation agent1 :: "mem egressGwAgent" where
  "agent1 \<equiv> mem_agent [((''default'', ''a''), client_pod)] [((''gw'', ''nat''), eg_nat)] [((''gw'', ''nat''), svc_nat)]"

lemma Add_client_run:
  assumes "map_get (Args args) PodNameKey = ''a''" "map_get (Args args) PodNamespaceKey = ''default''"
    "StdinData args \<noteq> ''''" "Ifname args = ''eth0''"
  shows "\<exists>s'. run_state (Add agent1 lib1 mem_ops (\<lambda>path m. m) args) mem_init = (Inr ''result'', s')"
proof -
  obtain conf where conf: "parseConfig lib1 (StdinData args) ''eth0'' = Inr (conf, Some prev_result)"
      "IP (ContIPv4 conf) = [10, 1, 1, 9]" "IP (ContIPv6 conf) = nil_IP" using conf_client [OF assms(3)] by blast
  have "apiReader_GetPod agent1 (''default'', ''a'') = ret client_pod" "egressPort agent1 = 5555"
      "Marshal lib1 x = Inr ''result''" for x
    by (simp_all add: mem_agent_def mem_lookup_def lib1_def)
  then show ?thesis
    using getGWNets_client client_setup_run conf assms
    by (auto simp: Add_def run_bindE map_err_def Let_def)
qed


end
