(* ===== verification/Cni_Plugin.thy ===== *)
theory Cni_Plugin
  imports Agent_Spec
begin

text \<open>
  \<^verbatim>\<open>cmd/egress-gw-cni\<close>: the CNI plugin that the container runtime executes.  It forwards its
  commands to the agent of the node by gRPC and turns the errors it gets back into CNI errors.
  Parameters: JSON and the CNI library, the gRPC client, and the printing of the result
  (\<open>plugin_lib\<close>).  The time limit of the calls is left to the client.
\<close>

section \<open>Types\<close>

text \<open>
  The plugin returns errors of \<^verbatim>\<open>types.NewError(code, msg, details)\<close>, other Go errors, or panics.
\<close>

datatype cni_error = NewError nat string string | Plain err | Panicked string

text \<open>The number of an error code of \<^verbatim>\<open>cnirpc\<close>, which mirrors the codes of \<^verbatim>\<open>cni/pkg/types\<close>.\<close>

fun code_num :: "ErrorCode \<Rightarrow> nat" where
  "code_num UNKNOWN = 0"
| "code_num INCOMPATIBLE_CNI_VERSION = 1"
| "code_num UNSUPPORTED_FIELD = 2"
| "code_num UNKNOWN_CONTAINER = 3"
| "code_num INVALID_ENVIRONMENT_VARIABLES = 4"
| "code_num IO_FAILURE = 5"
| "code_num DECODING_FAILURE = 6"
| "code_num INVALID_NETWORK_CONFIG = 7"
| "code_num TRY_AGAIN_LATER = 11"
| "code_num INTERNAL = 999"

record PluginEnvArgs =
  K8S_POD_NAMESPACE :: string
  K8S_POD_NAME :: string
  K8S_POD_INFRA_CONTAINER_ID :: string

definition PluginEnvArgs_Map :: "PluginEnvArgs \<Rightarrow> (string \<times> string) list" where
  "PluginEnvArgs_Map e = [(PodNamespaceKey, K8S_POD_NAMESPACE e), (PodNameKey, K8S_POD_NAME e),
    (PodContainerKey, K8S_POD_INFRA_CONTAINER_ID e)]"

text \<open>\<^verbatim>\<open>PluginConf\<close> of the plugin (the agent has a type of the same name).\<close>

record 'p cni_PluginConf = "'p NetConf" +
  Socket :: string

definition DefaultSocketPath :: string where "DefaultSocketPath = ''/run/egress-gw.sock''"

record CmdArgs =
  cmd_ContainerID :: string
  cmd_Netns :: string
  cmd_IfName :: string
  cmd_Args :: string
  cmd_Path :: string
  cmd_StdinData :: string

text \<open>
  \<^verbatim>\<open>json.Unmarshal\<close> into a configuration with defaults, \<^verbatim>\<open>ParsePrevResult\<close>, \<^verbatim>\<open>types.LoadArgs\<close>,
  \<^verbatim>\<open>grpc.Dial\<close> and \<^verbatim>\<open>Close\<close>, the calls of the client, \<^verbatim>\<open>current.NewResult\<close>, \<^verbatim>\<open>types.PrintResult\<close>
  and \<^verbatim>\<open>err.Error()\<close>.
\<close>

record ('s, 'p, 'c) plugin_lib =
  UnmarshalConf :: "string \<Rightarrow> 'p cni_PluginConf \<Rightarrow> err + 'p cni_PluginConf"
  pl_ParsePrevResult :: "'p NetConf \<Rightarrow> err + 'p NetConf"
  LoadArgs :: "string \<Rightarrow> PluginEnvArgs \<Rightarrow> err + PluginEnvArgs"
  Dial :: "string \<Rightarrow> ('s, 'c) go"
  Close :: "'c \<Rightarrow> ('s, unit) state"
  client_Add :: "'c \<Rightarrow> CNIArgs \<Rightarrow> ('s, string) go"
  client_Del :: "'c \<Rightarrow> CNIArgs \<Rightarrow> ('s, unit) go"
  client_Check :: "'c \<Rightarrow> CNIArgs \<Rightarrow> ('s, unit) go"
  NewResult :: "string \<Rightarrow> err + Result"
  PrintResult :: "Result \<Rightarrow> string \<Rightarrow> ('s, unit) go"
  pl_Error :: "err \<Rightarrow> string"

section \<open>Functions\<close>

definition cni_parseConfig :: "('s, 'p, 'c) plugin_lib \<Rightarrow> string \<Rightarrow> cni_error + 'p cni_PluginConf" where
  "cni_parseConfig lib stdin =
    (case UnmarshalConf lib stdin \<lparr>RawPrevResult = None, PrevResult = None, CNIVersion = '''',
        Socket = DefaultSocketPath\<rparr> of
       Inl e \<Rightarrow> Inl (Plain (wrap ''failed to parse network configuration'' e))
     | Inr conf \<Rightarrow>
         (case pl_ParsePrevResult lib \<lparr>RawPrevResult = RawPrevResult conf, PrevResult = PrevResult conf,
             CNIVersion = CNIVersion conf\<rparr> of
            Inl e \<Rightarrow> Inl (Plain (wrap ''failed to parse prev result'' e))
          | Inr nc \<Rightarrow> Inr (conf\<lparr>RawPrevResult := RawPrevResult nc, PrevResult := PrevResult nc,
              CNIVersion := CNIVersion nc\<rparr>)))"

definition makeCNIArgs :: "('s, 'p, 'c) plugin_lib \<Rightarrow> CmdArgs \<Rightarrow> cni_error + CNIArgs" where
  "makeCNIArgs lib args =
    (case LoadArgs lib (cmd_Args args) \<lparr>K8S_POD_NAMESPACE = '''', K8S_POD_NAME = '''',
        K8S_POD_INFRA_CONTAINER_ID = ''''\<rparr> of
       Inl e \<Rightarrow> Inl (NewError (code_num INVALID_ENVIRONMENT_VARIABLES) ''failed to load CNI_ARGS'' (pl_Error lib e))
     | Inr env \<Rightarrow> Inr \<lparr>ContainerId = cmd_ContainerID args, Netns = cmd_Netns args, Ifname = cmd_IfName args,
         Args = PluginEnvArgs_Map env, Path = cmd_Path args, StdinData = cmd_StdinData args\<rparr>)"

definition connect :: "('s, 'p, 'c) plugin_lib \<Rightarrow> string \<Rightarrow> ('s, cni_error + 'c) state" where
  "connect lib sock = do {
    r \<leftarrow> Dial lib sock;
    State_Monad.return (case r of
      Inl e \<Rightarrow> Inl (NewError (code_num TRY_AGAIN_LATER) (''failed to connect to '' @ sock) (pl_Error lib e))
    | Inr conn \<Rightarrow> Inr conn)
  }"

text \<open>
  \<^verbatim>\<open>status.Convert\<close> makes a status without details of an error that is none.  When the only detail
  is not a \<^verbatim>\<open>CNIError\<close> the code makes an error, drops it, and goes on with the nil \<^verbatim>\<open>cniErr\<close>.
\<close>

definition convertError :: "('s, 'p, 'c) plugin_lib \<Rightarrow> err \<Rightarrow> cni_error" where
  "convertError lib err =
    (let (message, details) = (case err of StatusError c m ds \<Rightarrow> (m, ds) | _ \<Rightarrow> (pl_Error lib err, []))
     in if length details \<noteq> 1 then NewError (code_num INTERNAL) message (pl_Error lib err)
        else case hd details of
            CNIError code msg dets \<Rightarrow> NewError (code_num code) msg dets
          | OtherDetail _ \<Rightarrow> Panicked ''nil pointer dereference'')"

text \<open>What the three commands share: configuration, arguments, connection and its closing.\<close>

definition with_conn :: "('s, 'p, 'c) plugin_lib \<Rightarrow> 'p cni_PluginConf \<Rightarrow> CmdArgs \<Rightarrow>
    ('c \<Rightarrow> CNIArgs \<Rightarrow> ('s, cni_error + unit) state) \<Rightarrow> ('s, cni_error + unit) state" where
  "with_conn lib conf args f =
    (case makeCNIArgs lib args of
       Inl e \<Rightarrow> State_Monad.return (Inl e)
     | Inr cniArgs \<Rightarrow> do {
         r \<leftarrow> connect lib (Socket conf);
         case r of
           Inl e \<Rightarrow> State_Monad.return (Inl e)
         | Inr conn \<Rightarrow> do {
             res \<leftarrow> f conn cniArgs;
             _ \<leftarrow> Close lib conn;
             State_Monad.return res
           }
       })"

definition cmdAdd :: "('s, 'p, 'c) plugin_lib \<Rightarrow> CmdArgs \<Rightarrow> ('s, cni_error + unit) state" where
  "cmdAdd lib args =
    (case cni_parseConfig lib (cmd_StdinData args) of
       Inl e \<Rightarrow> State_Monad.return (Inl e)
     | Inr conf \<Rightarrow>
         if PrevResult conf = None then
           State_Monad.return (Inl (NewError (code_num INVALID_NETWORK_CONFIG)
             ''egress-gw must be called next to the cilium-cni'' ''''))
         else with_conn lib conf args (\<lambda>conn cniArgs. do {
           resp \<leftarrow> client_Add lib conn cniArgs;
           case resp of
             Inl e \<Rightarrow> State_Monad.return (Inl (convertError lib e))
           | Inr data \<Rightarrow>
               (case NewResult lib data of
                  Inl e \<Rightarrow> State_Monad.return (Inl (NewError (code_num DECODING_FAILURE)
                    ''failed to unmarshal result'' (pl_Error lib e)))
                | Inr result \<Rightarrow> do {
                    p \<leftarrow> PrintResult lib result (CNIVersion conf);
                    State_Monad.return (case p of Inl e \<Rightarrow> Inl (Plain e) | Inr _ \<Rightarrow> Inr ())
                  })
         }))"

definition cmdDel :: "('s, 'p, 'c) plugin_lib \<Rightarrow> CmdArgs \<Rightarrow> ('s, cni_error + unit) state" where
  "cmdDel lib args =
    (case cni_parseConfig lib (cmd_StdinData args) of
       Inl e \<Rightarrow> State_Monad.return (Inl e)
     | Inr conf \<Rightarrow> with_conn lib conf args (\<lambda>conn cniArgs. do {
         r \<leftarrow> client_Del lib conn cniArgs;
         State_Monad.return (case r of Inl e \<Rightarrow> Inl (convertError lib e) | Inr _ \<Rightarrow> Inr ())
       }))"

definition cmdCheck :: "('s, 'p, 'c) plugin_lib \<Rightarrow> CmdArgs \<Rightarrow> ('s, cni_error + unit) state" where
  "cmdCheck lib args =
    (case cni_parseConfig lib (cmd_StdinData args) of
       Inl e \<Rightarrow> State_Monad.return (Inl e)
     | Inr conf \<Rightarrow> with_conn lib conf args (\<lambda>conn cniArgs. do {
         r \<leftarrow> client_Check lib conn cniArgs;
         State_Monad.return (case r of Inl e \<Rightarrow> Inl (convertError lib e) | Inr _ \<Rightarrow> Inr ())
       }))"

section \<open>Conversion of errors\<close>

lemma code_num_inj: "code_num c = code_num d \<longleftrightarrow> c = d"
  by (cases c; cases d) simp_all

lemma convertError_CNIError:
  "convertError lib (StatusError c m [CNIError code msg dets]) = NewError (code_num code) msg dets"
  by (simp add: convertError_def)

lemma convertError_panics:
  "convertError lib e = Panicked p \<Longrightarrow> \<exists>c m x. e = StatusError c m [OtherDetail x]"
  by (auto simp: convertError_def length_Suc_conv split: err.splits if_splits status_detail.splits)

lemma makeCNIArgs_names:
  assumes "makeCNIArgs lib args = Inr cniArgs"
    and "LoadArgs lib (cmd_Args args) \<lparr>K8S_POD_NAMESPACE = '''', K8S_POD_NAME = '''',
        K8S_POD_INFRA_CONTAINER_ID = ''''\<rparr> = Inr env"
  shows "map_get (Args cniArgs) PodNameKey = K8S_POD_NAME env"
    "map_get (Args cniArgs) PodNamespaceKey = K8S_POD_NAMESPACE env"
    "StdinData cniArgs = cmd_StdinData args" "Ifname cniArgs = cmd_IfName args"
  using assms
  by (auto simp: makeCNIArgs_def map_get_def PluginEnvArgs_Map_def PodNameKey_def PodNamespaceKey_def)

section \<open>The plugin and the agent together\<close>

text \<open>
  The plugin's client calls the agent: dialling and closing leave the pod's namespace alone, and a
  call runs the agent's handler and delivers its answer, or fails in the transport, with a status
  without details, before or after that.
\<close>

definition transport_err :: "err \<Rightarrow> bool" where
  "transport_err e \<longleftrightarrow> (\<exists>c m. e = StatusError c m [])"

locale plugin_agent = agent_api nl view e pods egs svcs
  for nl :: "'s netlink" and view :: "'s \<Rightarrow> kview" and e :: "'s egressGwAgent"
    and pods :: "NamespacedName \<Rightarrow> pod option" and egs :: "NamespacedName \<Rightarrow> EgressObj option"
    and svcs :: "NamespacedName \<Rightarrow> ServiceIP option" +
  fixes W :: "string \<Rightarrow> ('s, unit) go \<Rightarrow> ('s, unit) go" and alib :: "'a cni_lib"
    and lib :: "('s, 'p, 'c) plugin_lib"
  assumes netns: "netns_runs view W" and json: "json_ok alib"
    and dial: "wp (Dial lib sock) (\<lambda>r s'. view s' = view s) s"
    and close: "wp (Close lib conn) (\<lambda>r s'. view s' = view s) s"
    and print: "wp (PrintResult lib res v) (\<lambda>r s'. view s' = view s) s"
    and call_Add: "(\<And>r s'. (case r of Inl err \<Rightarrow> transport_err err | Inr _ \<Rightarrow> False) \<Longrightarrow> Q r s') \<Longrightarrow>
      (\<And>s1. view s1 = view s \<Longrightarrow> wp (Add e alib nl W args) Q s1) \<Longrightarrow> wp (client_Add lib conn args) Q s"
begin

lemma wp_cmdAdd:
  assumes conf: "cni_parseConfig lib (cmd_StdinData args) = Inr conf" "PrevResult conf \<noteq> None"
    and env: "LoadArgs lib (cmd_Args args) \<lparr>K8S_POD_NAMESPACE = '''', K8S_POD_NAME = '''',
        K8S_POD_INFRA_CONTAINER_ID = ''''\<rparr> = Inr env"
  shows "wp (cmdAdd lib args) (\<lambda>r s'. case r of
      Inl err \<Rightarrow> \<nexists>p. err = Panicked p
    | Inr _ \<Rightarrow> \<exists>p aconf prevRes. pods (K8S_POD_NAMESPACE env, K8S_POD_NAME env) = Some p \<and>
        parseConfig alib (cmd_StdinData args) (cmd_IfName args) = Inr (aconf, prevRes) \<and>
        setup_post (egressPort e) aconf (pod_gateways egs svcs p) (view s) (view s')) s"
proof -
  obtain a where a: "makeCNIArgs lib args = Inr a" using env by (simp add: makeCNIArgs_def)
  note names = makeCNIArgs_names [OF a env]
  let ?ok = "\<lambda>s'. \<exists>p aconf prevRes. pods (K8S_POD_NAMESPACE env, K8S_POD_NAME env) = Some p \<and>
        parseConfig alib (cmd_StdinData args) (cmd_IfName args) = Inr (aconf, prevRes) \<and>
        setup_post (egressPort e) aconf (pod_gateways egs svcs p) (view s) (view s')"
  have call: "wp (client_Add lib conn a) (\<lambda>r s'. case r of
      Inl err \<Rightarrow> \<nexists>p. convertError lib err = Panicked p | Inr _ \<Rightarrow> ?ok s') s1" if "view s1 = view s" for conn s1
  proof (rule call_Add, goal_cases)
    case (1 r s')
    then show ?case by (auto simp: transport_err_def convertError_def split: sum.splits)
  next
    case (2 s2)
    show ?case
      by (rule wp_Add [OF netns json, THEN wp_conseq])
        (use 2 that names in \<open>auto simp: cni_status_def convertError_CNIError split: sum.splits\<close>)
  qed
  show ?thesis
    unfolding cmdAdd_def conf(1) sum.case if_not_P [OF conf(2)] with_conn_def a connect_def wp_bind wp_return
    by (auto intro!: dial [THEN wp_conseq] call [THEN wp_conseq] close [THEN wp_conseq] print [THEN wp_conseq]
        simp: wp_simps split: sum.splits)
qed

end

section \<open>A plugin on the in-memory kernel\<close>

definition mem_plugin :: "mem egressGwAgent \<Rightarrow> (mem, Result, unit) plugin_lib" where
  "mem_plugin e = \<lparr>UnmarshalConf = (\<lambda>x conf. Inr (conf\<lparr>RawPrevResult := (if x = ''{}'' then None else Some x)\<rparr>)),
    pl_ParsePrevResult = (\<lambda>nc. Inr (nc\<lparr>PrevResult := map_option (\<lambda>_. prev_result) (RawPrevResult nc)\<rparr>)),
    LoadArgs = (\<lambda>x env. if x = '''' then Inr env
      else Inr (env\<lparr>K8S_POD_NAMESPACE := ''default'', K8S_POD_NAME := x\<rparr>)),
    Dial = (\<lambda>sock. ret ()), Close = (\<lambda>c. State_Monad.return ()),
    client_Add = (\<lambda>c. Add e lib1 mem_ops (\<lambda>path m. m)), client_Del = (\<lambda>c. Del), client_Check = (\<lambda>c. Check),
    NewResult = (\<lambda>x. Inr prev_result), PrintResult = (\<lambda>r v. ret ()), pl_Error = (\<lambda>e. ''error'')\<rparr>"

interpretation mem_plugin: plugin_agent mem_ops mem_view "mem_agent pods egs svcs" "map_of pods" "map_of egs"
    "map_of svcs" "\<lambda>path m. m" lib1 "mem_plugin (mem_agent pods egs svcs)" for pods egs svcs
  by unfold_locales (simp_all add: mem_plugin_def wp_return netns_runs_def)

section \<open>Properties\<close>




definition cmd_args :: CmdArgs where
  "cmd_args = \<lparr>cmd_ContainerID = ''c1'', cmd_Netns = ''/ns'', cmd_IfName = ''eth0'', cmd_Args = ''a'', cmd_Path = '''',
    cmd_StdinData = ''{...}''\<rparr>"


end
