(* ===== verification/Cni_Rpc.thy ===== *)
theory Cni_Rpc
  imports Cni_Plugin
begin

text \<open>
  \<^verbatim>\<open>pkg/cnirpc/cni_grpc.pb.go\<close>: the generated client and server sides of the RPC between plugin and agent,
  over a connection of the gRPC library, a parameter.  With it the plugin and the agent are put
  together without assuming that a call of the client runs the handler of its name.
\<close>

section \<open>Messages and interfaces\<close>

datatype rpc_msg = MArgs (mArgs: CNIArgs) | MAddResponse (mResult: string) | MEmpty

definition zero_CNIArgs :: CNIArgs where
  "zero_CNIArgs = \<lparr>ContainerId = '''', Netns = '''', Ifname = '''', Args = [], Path = '''', StdinData = ''''\<rparr>"

definition CNI_Add_FullMethodName :: string where "CNI_Add_FullMethodName = ''/pkg.cnirpc.CNI/Add''"
definition CNI_Del_FullMethodName :: string where "CNI_Del_FullMethodName = ''/pkg.cnirpc.CNI/Del''"
definition CNI_Check_FullMethodName :: string where "CNI_Check_FullMethodName = ''/pkg.cnirpc.CNI/Check''"

text \<open>
  \<^verbatim>\<open>grpc.ClientConnInterface\<close>: a call with the name of the method, the request, and the message that the
  reply is decoded into.
\<close>

record 's ClientConn =
  Invoke :: "string \<Rightarrow> rpc_msg \<Rightarrow> rpc_msg \<Rightarrow> ('s, rpc_msg) go"

record 's CNIServer =
  srv_Add :: "CNIArgs \<Rightarrow> ('s, string) go"
  srv_Del :: "CNIArgs \<Rightarrow> ('s, unit) go"
  srv_Check :: "CNIArgs \<Rightarrow> ('s, unit) go"

text \<open>\<^verbatim>\<open>grpc.UnaryServerInterceptor\<close>: the request, the full name of the method, and the handler it wraps.\<close>

type_synonym 's interceptor = "rpc_msg \<Rightarrow> string \<Rightarrow> (rpc_msg \<Rightarrow> ('s, rpc_msg) go) \<Rightarrow> ('s, rpc_msg) go"

text \<open>A handler gets the server, the decoder of the request and the interceptor, which can be nil.\<close>

type_synonym 's rpc_handler =
  "'s CNIServer \<Rightarrow> (rpc_msg \<Rightarrow> ('s, rpc_msg) go) \<Rightarrow> 's interceptor option \<Rightarrow> ('s, rpc_msg) go"

record 's ServiceDesc =
  ServiceName :: string
  Methods :: "(string \<times> 's rpc_handler) list"

section \<open>Definitions\<close>

definition cNIClient_Add :: "'s ClientConn \<Rightarrow> CNIArgs \<Rightarrow> ('s, string) go" where
  "cNIClient_Add cc args =
    bindE (Invoke cc CNI_Add_FullMethodName (MArgs args) (MAddResponse '''')) (\<lambda>out. ret (mResult out))"

definition cNIClient_Del :: "'s ClientConn \<Rightarrow> CNIArgs \<Rightarrow> ('s, unit) go" where
  "cNIClient_Del cc args = bindE (Invoke cc CNI_Del_FullMethodName (MArgs args) MEmpty) (\<lambda>out. ret ())"

definition cNIClient_Check :: "'s ClientConn \<Rightarrow> CNIArgs \<Rightarrow> ('s, unit) go" where
  "cNIClient_Check cc args = bindE (Invoke cc CNI_Check_FullMethodName (MArgs args) MEmpty) (\<lambda>out. ret ())"

text \<open>\<^verbatim>\<open>codes.Unimplemented\<close> is 12.\<close>

definition UnimplementedCNIServer :: "'s CNIServer" where
  "UnimplementedCNIServer =
    \<lparr>srv_Add = (\<lambda>_. fail (StatusError (OtherCode 12) ''method Add not implemented'' [])),
     srv_Del = (\<lambda>_. fail (StatusError (OtherCode 12) ''method Del not implemented'' [])),
     srv_Check = (\<lambda>_. fail (StatusError (OtherCode 12) ''method Check not implemented'' []))\<rparr>"

text \<open>The methods of the server as they return a message; the assertion on the type of a request can panic.\<close>

definition with_args :: "(CNIArgs \<Rightarrow> ('s, rpc_msg) go) \<Rightarrow> rpc_msg \<Rightarrow> ('s, rpc_msg) go" where
  "with_args f req = (case req of MArgs a \<Rightarrow> f a | _ \<Rightarrow> fail (Panic ''interface conversion''))"

definition CNI_Add_Handler :: "'s rpc_handler" where
  "CNI_Add_Handler srv dec interceptor =
    bindE (dec (MArgs zero_CNIArgs)) (\<lambda>req.
      let f = (\<lambda>a. bindE (srv_Add srv a) (\<lambda>r. ret (MAddResponse r)))
      in case interceptor of
           None \<Rightarrow> f (mArgs req)
         | Some i \<Rightarrow> i req CNI_Add_FullMethodName (with_args f))"

definition CNI_Del_Handler :: "'s rpc_handler" where
  "CNI_Del_Handler srv dec interceptor =
    bindE (dec (MArgs zero_CNIArgs)) (\<lambda>req.
      let f = (\<lambda>a. bindE (srv_Del srv a) (\<lambda>r. ret MEmpty))
      in case interceptor of
           None \<Rightarrow> f (mArgs req)
         | Some i \<Rightarrow> i req CNI_Del_FullMethodName (with_args f))"

definition CNI_Check_Handler :: "'s rpc_handler" where
  "CNI_Check_Handler srv dec interceptor =
    bindE (dec (MArgs zero_CNIArgs)) (\<lambda>req.
      let f = (\<lambda>a. bindE (srv_Check srv a) (\<lambda>r. ret MEmpty))
      in case interceptor of
           None \<Rightarrow> f (mArgs req)
         | Some i \<Rightarrow> i req CNI_Check_FullMethodName (with_args f))"

definition CNI_ServiceDesc :: "'s ServiceDesc" where
  "CNI_ServiceDesc = \<lparr>ServiceName = ''pkg.cnirpc.CNI'',
    Methods = [(''Add'', CNI_Add_Handler), (''Del'', CNI_Del_Handler), (''Check'', CNI_Check_Handler)]\<rparr>"

text \<open>\<^verbatim>\<open>RegisterService\<close> is a method of the library's server.\<close>

definition RegisterCNIServer :: "('s ServiceDesc \<Rightarrow> 's CNIServer \<Rightarrow> 'r) \<Rightarrow> 's CNIServer \<Rightarrow> 'r" where
  "RegisterCNIServer RegisterService srv = RegisterService CNI_ServiceDesc srv"

text \<open>The agent as a server.  Its own methods hide all those of the embedded \<^const>\<open>UnimplementedCNIServer\<close>.\<close>

definition agent_CNIServer ::
  "'s egressGwAgent \<Rightarrow> 'p cni_lib \<Rightarrow> 's netlink \<Rightarrow> (string \<Rightarrow> ('s, unit) go \<Rightarrow> ('s, unit) go) \<Rightarrow> 's CNIServer" where
  "agent_CNIServer e lib nl W = UnimplementedCNIServer\<lparr>srv_Add := Add e lib nl W, srv_Del := Del, srv_Check := Check\<rparr>"

section \<open>The start of the server\<close>

text \<open>
  What \<^verbatim>\<open>Start\<close> of the agent uses of the library: the interceptors for tags, metrics and logs and their
  chain, a server \<open>'g\<close>, and the goroutine that stops it when the context is done.
\<close>

record ('s, 'g) grpc_lib =
  gl_ctxtags :: "(CNIArgs option \<Rightarrow> (string \<times> string) list option) \<Rightarrow> 's interceptor"
  gl_metrics :: "'s interceptor"
  gl_zap :: "'s interceptor"
  gl_ChainUnaryServer :: "'s interceptor list \<Rightarrow> 's interceptor"
  gl_NewServer :: "'s interceptor \<Rightarrow> ('s, 'g) state"
  gl_RegisterService :: "'g \<Rightarrow> 's ServiceDesc \<Rightarrow> 's CNIServer \<Rightarrow> ('s, unit) state"
  gl_InitializeMetrics :: "'g \<Rightarrow> ('s, unit) state"
  gl_reflection_Register :: "'g \<Rightarrow> ('s, unit) state"
  gl_GracefulStop :: "'g \<Rightarrow> ('s, unit) state"
  gl_go_when_done :: "('s, unit) state \<Rightarrow> ('s, unit) state"
  gl_Serve :: "'g \<Rightarrow> string \<Rightarrow> ('s, unit) go"

definition agent_Start :: "('s, 'g) grpc_lib \<Rightarrow> 's CNIServer \<Rightarrow> string \<Rightarrow> ('s, unit) go" where
  "agent_Start g e listener = do {
    grpcServer \<leftarrow> gl_NewServer g (gl_ChainUnaryServer g [gl_ctxtags g fieldExtractor, gl_metrics g, gl_zap g]);
    RegisterCNIServer (gl_RegisterService g grpcServer) e;
    gl_InitializeMetrics g grpcServer;
    gl_reflection_Register g grpcServer;
    gl_go_when_done g (gl_GracefulStop g grpcServer);
    gl_Serve g grpcServer listener
  }"

text \<open>The service of the agent is registered before the server listens.\<close>

locale grpc_server =
  fixes g :: "('s, 'g) grpc_lib" and services :: "'s \<Rightarrow> 'g \<Rightarrow> string set"
  assumes register: "wp (gl_RegisterService g x d e) (\<lambda>_ s'. services s' x = insert (ServiceName d) (services s x)) s"
    and metrics: "wp (gl_InitializeMetrics g x) (\<lambda>_ s'. services s' x = services s x) s"
    and reflect: "wp (gl_reflection_Register g x) (\<lambda>_ s'. services s x \<subseteq> services s' x) s"
    and spawn: "wp (gl_go_when_done g m) (\<lambda>_ s'. services s' = services s) s"
begin

lemma wp_agent_Start:
  assumes "\<And>x s1. ServiceName (CNI_ServiceDesc :: 's ServiceDesc) \<in> services s1 x \<Longrightarrow> wp (gl_Serve g x l) Q s1"
  shows "wp (agent_Start g e l) Q s"
  unfolding agent_Start_def wp_bind RegisterCNIServer_def
  by (rule wp_conseq [OF wp_True], rule wp_conseq [OF register], rule wp_conseq [OF metrics], rule wp_conseq [OF reflect],
      rule wp_conseq [OF spawn], rule assms) auto

end

definition mem_grpc :: "(string set, unit) grpc_lib" where
  "mem_grpc = \<lparr>gl_ctxtags = (\<lambda>f req m k. k req), gl_metrics = (\<lambda>req m k. k req), gl_zap = (\<lambda>req m k. k req),
    gl_ChainUnaryServer = (\<lambda>is req m k. foldr (\<lambda>i k req. i req m k) is k req),
    gl_NewServer = (\<lambda>i. State (\<lambda>s. ((), {}))), gl_RegisterService = (\<lambda>x d e. State (\<lambda>s. ((), insert (ServiceName d) s))),
    gl_InitializeMetrics = (\<lambda>x. State_Monad.return ()), gl_reflection_Register = (\<lambda>x. State (\<lambda>s. ((), insert ''grpc.reflection'' s))),
    gl_GracefulStop = (\<lambda>x. State_Monad.return ()), gl_go_when_done = (\<lambda>m. State_Monad.return ()), gl_Serve = (\<lambda>x l. ret ())\<rparr>"

interpretation mem_grpc: grpc_server mem_grpc "\<lambda>s x. s"
  by unfold_locales (auto simp: mem_grpc_def wp_def)

section \<open>The library's part\<close>

text \<open>
  What the library does with a call: it fails with a status without details, at any time, or runs the
  handler of the registered service that the name of the method designates, with a decoder that
  yields the request, and delivers the answer, provided that it is a status or a message
  of the type the client decodes into.  Interceptors run the handler on the request and return its answer.
\<close>

definition delivers :: "('s \<Rightarrow> 'v) \<Rightarrow> (rpc_msg \<Rightarrow> ('s, rpc_msg) go) \<Rightarrow> rpc_msg \<Rightarrow> bool" where
  "delivers view dec req \<longleftrightarrow> (\<forall>z s. wp (dec z) (\<lambda>r s'. view s' = view s \<and>
    (case r of Inl e \<Rightarrow> transport_err e | Inr m \<Rightarrow> m = req)) s)"

fun same_type :: "rpc_msg \<Rightarrow> rpc_msg \<Rightarrow> bool" where
  "same_type (MArgs a) (MArgs b) = True"
| "same_type (MAddResponse a) (MAddResponse b) = True"
| "same_type MEmpty MEmpty = True"
| "same_type a b = False"

definition answer_ok :: "rpc_msg \<Rightarrow> err + rpc_msg \<Rightarrow> bool" where
  "answer_ok out r = (case r of Inl e \<Rightarrow> (\<exists>c m ds. e = StatusError c m ds) | Inr m \<Rightarrow> same_type m out)"

definition status_only :: "err + 'a \<Rightarrow> bool" where
  "status_only r = (case r of Inl e \<Rightarrow> (\<exists>c m ds. e = StatusError c m ds) | Inr _ \<Rightarrow> True)"

locale grpc_conn =
  fixes cc :: "'s ClientConn" and view :: "'s \<Rightarrow> 'v" and reg :: "('s ServiceDesc \<times> 's CNIServer)"
    and icpt :: "'s interceptor option"
  assumes invoke: "(m, h) \<in> set (Methods (fst reg)) \<Longrightarrow> meth = ''/'' @ ServiceName (fst reg) @ ''/'' @ m \<Longrightarrow>
      (\<And>e s'. transport_err e \<Longrightarrow> Q (Inl e) s') \<Longrightarrow>
      (\<And>dec s1. view s1 = view s \<Longrightarrow> delivers view dec req \<Longrightarrow>
        wp (h (snd reg) dec icpt) (\<lambda>r s'. answer_ok out r \<and> Q r s') s1) \<Longrightarrow>
      wp (Invoke cc meth req out) Q s"
    and interceptor: "icpt = Some i \<Longrightarrow> (\<And>s1. view s1 = view s \<Longrightarrow> wp (k req) Q s1) \<Longrightarrow> wp (i req meth k) Q s"

section \<open>A call of the client runs that of the server\<close>

lemma transport_status: "transport_err e \<Longrightarrow> \<exists>c m ds. e = StatusError c m ds"
  by (auto simp: transport_err_def)

locale cni_conn = grpc_conn cc view "RegisterCNIServer Pair srv" icpt
  for cc :: "'s ClientConn" and view :: "'s \<Rightarrow> 'v" and srv :: "'s CNIServer" and icpt
begin

text \<open>What the three handlers share.\<close>

lemma wp_handler:
  assumes "delivers view dec (MArgs a)" "view s1 = view s" "\<And>e s'. transport_err e \<Longrightarrow> Q (Inl e) s'"
    and f: "\<And>s1. view s1 = view s \<Longrightarrow> wp (f a) Q s1"
  shows "wp (bindE (dec z) (\<lambda>req. case icpt of None \<Rightarrow> f (mArgs req) | Some i \<Rightarrow> i req name (with_args f))) Q s1"
  unfolding wp_bindE
proof (rule wp_conseq [OF assms(1) [unfolded delivers_def, rule_format]], goal_cases)
  case (1 r s2)
  show ?case
  proof (cases r)
    case (Inl e)
    with 1 assms(3) show ?thesis by simp
  next
    case (Inr m)
    with 1 have m: "m = MArgs a" and s2: "view s2 = view s" using assms(2) by simp_all
    show ?thesis
    proof (cases icpt)
      case None
      with Inr m f [OF s2] show ?thesis by simp
    next
      case (Some i)
      have "wp (i m name (with_args f)) Q s2"
        by (rule interceptor [OF Some]) (use f s2 m in \<open>simp add: with_args_def\<close>)
      with Inr Some show ?thesis by simp
    qed
  qed
qed

lemma wp_call:
  assumes "(n, h) \<in> set (Methods CNI_ServiceDesc)" "name = ''/pkg.cnirpc.CNI/'' @ n"
    and h: "\<And>dec. h srv dec icpt = bindE (dec (MArgs zero_CNIArgs)) (\<lambda>req.
      case icpt of None \<Rightarrow> bindE (f (mArgs req)) (\<lambda>r. ret (mk r))
      | Some i \<Rightarrow> i req name (with_args (\<lambda>a. bindE (f a) (\<lambda>r. ret (mk r)))))"
    and mk: "\<And>r. same_type (mk r) out" "\<And>r. proj (mk r) = r"
    and err: "\<And>e s'. transport_err e \<Longrightarrow> Q (Inl e) s'"
    and f: "\<And>s1. view s1 = view s \<Longrightarrow> wp (f a) (\<lambda>r s'. status_only r \<and> Q r s') s1"
  shows "wp (bindE (Invoke cc name (MArgs a) out) (\<lambda>m. ret (proj m))) Q s"
  unfolding wp_bindE
proof (rule invoke [where m = n and h = h], goal_cases)
  case (4 dec s1)
  show ?case
    unfolding RegisterCNIServer_def snd_conv h
    by (rule wp_handler [OF 4(2,1)])
      (auto simp: err transport_status answer_ok_def wp_bindE wp_return status_only_def mk intro!: f [THEN wp_conseq]
        split: sum.splits)
qed (use assms(1,2) err in \<open>auto simp: RegisterCNIServer_def CNI_ServiceDesc_def\<close>)

lemma wp_client_Add:
  assumes "\<And>e s'. transport_err e \<Longrightarrow> Q (Inl e) s'"
    and "\<And>s1. view s1 = view s \<Longrightarrow> wp (srv_Add srv a) (\<lambda>r s'. status_only r \<and> Q r s') s1"
  shows "wp (cNIClient_Add cc a) Q s"
  unfolding cNIClient_Add_def
  by (rule wp_call [where h = CNI_Add_Handler and n = "''Add''" and mk = MAddResponse and f = "srv_Add srv"])
    (auto simp: CNI_ServiceDesc_def CNI_Add_FullMethodName_def CNI_Add_Handler_def Let_def intro: assms)

lemma wp_client_Del:
  assumes "\<And>e s'. transport_err e \<Longrightarrow> Q (Inl e) s'"
    and "\<And>s1. view s1 = view s \<Longrightarrow> wp (srv_Del srv a) (\<lambda>r s'. status_only r \<and> Q r s') s1"
  shows "wp (cNIClient_Del cc a) Q s"
  unfolding cNIClient_Del_def
  by (rule wp_call [where h = CNI_Del_Handler and n = "''Del''" and mk = "\<lambda>_. MEmpty" and f = "srv_Del srv"])
    (auto simp: CNI_ServiceDesc_def CNI_Del_FullMethodName_def CNI_Del_Handler_def Let_def intro: assms)

lemma wp_client_Check:
  assumes "\<And>e s'. transport_err e \<Longrightarrow> Q (Inl e) s'"
    and "\<And>s1. view s1 = view s \<Longrightarrow> wp (srv_Check srv a) (\<lambda>r s'. status_only r \<and> Q r s') s1"
  shows "wp (cNIClient_Check cc a) Q s"
  unfolding cNIClient_Check_def
  by (rule wp_call [where h = CNI_Check_Handler and n = "''Check''" and mk = "\<lambda>_. MEmpty" and f = "srv_Check srv"])
    (auto simp: CNI_ServiceDesc_def CNI_Check_FullMethodName_def CNI_Check_Handler_def Let_def intro: assms)

end

section \<open>The plugin and the agent over the RPC\<close>

locale rpc_agent = agent_api nl view e pods egs svcs + cni_conn cc view "agent_CNIServer e alib nl W" icpt
  for nl :: "'s netlink" and view :: "'s \<Rightarrow> kview" and e :: "'s egressGwAgent"
    and pods :: "NamespacedName \<Rightarrow> pod option" and egs :: "NamespacedName \<Rightarrow> EgressObj option"
    and svcs :: "NamespacedName \<Rightarrow> ServiceIP option"
    and W :: "string \<Rightarrow> ('s, unit) go \<Rightarrow> ('s, unit) go" and alib :: "'a cni_lib"
    and cc :: "'s ClientConn" and icpt :: "'s interceptor option" +
  assumes netns: "netns_runs view W" and json: "json_ok alib"
begin

lemma Add_status: "wp (Add e alib nl W args) (\<lambda>r s'. status_only r) s"
  by (rule wp_conseq [OF wp_Add [OF netns json]]) (auto simp: status_only_def cni_status_def split: sum.splits)

lemma client_Add_agent:
  assumes "\<And>r s'. (case r of Inl err \<Rightarrow> transport_err err | Inr _ \<Rightarrow> False) \<Longrightarrow> Q r s'"
    and "\<And>s1. view s1 = view s \<Longrightarrow> wp (Add e alib nl W args) Q s1"
  shows "wp (cNIClient_Add cc args) Q s"
  by (rule wp_client_Add) (auto simp: agent_CNIServer_def intro: assms wp_conj Add_status)

lemma client_Del_agent:
  assumes "\<And>e s'. transport_err e \<Longrightarrow> Q (Inl e) s'" and "\<And>s1. view s1 = view s \<Longrightarrow> Q (Inr ()) s1"
  shows "wp (cNIClient_Del cc args) Q s"
  by (rule wp_client_Del) (auto simp: agent_CNIServer_def Del_def wp_return status_only_def intro: assms)

lemma client_Check_agent:
  assumes "\<And>e s'. transport_err e \<Longrightarrow> Q (Inl e) s'" and "\<And>s1. view s1 = view s \<Longrightarrow> Q (Inr ()) s1"
  shows "wp (cNIClient_Check cc args) Q s"
  by (rule wp_client_Check) (auto simp: agent_CNIServer_def Check_def wp_return status_only_def intro: assms)

end

text \<open>The plugin with the generated client on every connection that it dials.\<close>

locale rpc_plugin =
  fixes nl :: "'s netlink" and view :: "'s \<Rightarrow> kview" and e :: "'s egressGwAgent"
    and pods :: "NamespacedName \<Rightarrow> pod option" and egs :: "NamespacedName \<Rightarrow> EgressObj option"
    and svcs :: "NamespacedName \<Rightarrow> ServiceIP option"
    and W :: "string \<Rightarrow> ('s, unit) go \<Rightarrow> ('s, unit) go" and alib :: "'a cni_lib"
    and lib :: "('s, 'p, 'c) plugin_lib" and cc :: "'c \<Rightarrow> 's ClientConn" and icpt :: "'s interceptor option"
  assumes agent: "rpc_agent nl view e pods egs svcs W alib (cc conn) icpt"
    and stub: "client_Add lib conn = cNIClient_Add (cc conn)"
    and dial: "wp (Dial lib sock) (\<lambda>r s'. view s' = view s) s"
    and close: "wp (Close lib conn) (\<lambda>r s'. view s' = view s) s"
    and print: "wp (PrintResult lib res v) (\<lambda>r s'. view s' = view s) s"

sublocale rpc_plugin \<subseteq> over: plugin_agent nl view e pods egs svcs W alib lib
proof -
  fix conn
  note a = agent [of conn]
  show "plugin_agent nl view e pods egs svcs W alib lib"
    by (intro plugin_agent.intro plugin_agent_axioms.intro rpc_agent.axioms(1) [OF a] rpc_agent.netns [OF a]
        rpc_agent.json [OF a] dial close print)
      (use rpc_agent.client_Add_agent [OF agent] in \<open>simp add: stub\<close>)
qed

section \<open>A connection in memory\<close>

definition mem_icpt :: "'s interceptor" where
  "mem_icpt req meth k = k req"

definition mem_cc :: "'s ServiceDesc \<times> 's CNIServer \<Rightarrow> 's ClientConn" where
  "mem_cc reg = \<lparr>Invoke = (\<lambda>meth req out.
    case map_of (map (\<lambda>(m, h). (''/'' @ ServiceName (fst reg) @ ''/'' @ m, h)) (Methods (fst reg))) meth of
      None \<Rightarrow> fail (StatusError (OtherCode 12) ''unknown method'' [])
    | Some h \<Rightarrow> h (snd reg) (\<lambda>z. ret req) (Some mem_icpt))\<rparr>"

interpretation mem_conn: cni_conn "mem_cc (RegisterCNIServer Pair srv)" view srv "Some mem_icpt" for view srv
proof (unfold_locales, goal_cases)
  case (1 m h meth Q s req out)
  have "delivers view (\<lambda>z. ret req) req" by (simp add: delivers_def wp_return)
  then have "wp (h srv (\<lambda>z. ret req) (Some mem_icpt)) Q s"
    using wp_conseq [OF 1(4) [OF refl]] by (simp add: RegisterCNIServer_def)
  with 1(1,2) show ?case by (auto simp: mem_cc_def RegisterCNIServer_def CNI_ServiceDesc_def)
qed (simp add: mem_icpt_def)

definition mem_rpc_plugin :: "mem egressGwAgent \<Rightarrow> (mem, Result, unit) plugin_lib" where
  "mem_rpc_plugin e = (mem_plugin e)\<lparr>client_Add :=
    (\<lambda>c. cNIClient_Add (mem_cc (RegisterCNIServer Pair (agent_CNIServer e lib1 mem_ops (\<lambda>path m. m)))))\<rparr>"

interpretation mem_rpc: rpc_agent mem_ops mem_view "mem_agent pods egs svcs" "map_of pods" "map_of egs" "map_of svcs"
    "\<lambda>path m. m" lib1 "mem_cc (RegisterCNIServer Pair (agent_CNIServer (mem_agent pods egs svcs) lib1 mem_ops (\<lambda>path m. m)))"
    "Some mem_icpt" for pods egs svcs
  by unfold_locales (simp_all add: netns_runs_def)

interpretation mem_rpc_plugin: rpc_plugin mem_ops mem_view "mem_agent pods egs svcs" "map_of pods" "map_of egs" "map_of svcs"
    "\<lambda>path m. m" lib1 "mem_rpc_plugin (mem_agent pods egs svcs)"
    "\<lambda>c. mem_cc (RegisterCNIServer Pair (agent_CNIServer (mem_agent pods egs svcs) lib1 mem_ops (\<lambda>path m. m)))"
    "Some mem_icpt" for pods egs svcs
  by (intro rpc_plugin.intro mem_rpc.rpc_agent_axioms) (simp_all add: mem_rpc_plugin_def mem_plugin_def wp_return)

section \<open>Property\<close>

text \<open>
  C36. Over a connection to the server that the agent registers, each call of the generated client
  either fails in the transport or is exactly one run of the agent's handler of that name on the
  same arguments, with the answer of the handler; a call of \<^verbatim>\<open>Del\<close> or \<^verbatim>\<open>Check\<close> leaves the kernel alone
  unless the transport fails.
\<close>

theorem client_calls_agent:
  assumes "rpc_agent nl view e pods egs svcs W alib cc icpt"
  shows "(\<forall>r s'. run_state (cNIClient_Add cc args) s = (r, s') \<longrightarrow>
      (\<exists>err. r = Inl err \<and> transport_err err) \<or>
      (\<exists>s1. view s1 = view s \<and> run_state (Add e alib nl W args) s1 = (r, s'))) \<and>
    (\<forall>r s'. run_state (cNIClient_Del cc args) s = (r, s') \<longrightarrow>
      (\<exists>err. r = Inl err \<and> transport_err err) \<or> r = Inr () \<and> view s' = view s) \<and>
    (\<forall>r s'. run_state (cNIClient_Check cc args) s = (r, s') \<longrightarrow>
      (\<exists>err. r = Inl err \<and> transport_err err) \<or> r = Inr () \<and> view s' = view s)"
proof (intro conjI allI impI, goal_cases)
  case (1 r s')
  show ?case
    by (rule wp_runD [OF rpc_agent.client_Add_agent [OF assms] 1]) (auto intro: wp_runI split: sum.splits)
next
  case (2 r s')
  show ?case by (rule wp_runD [OF rpc_agent.client_Del_agent [OF assms] 2]) auto
next
  case (3 r s')
  show ?case by (rule wp_runD [OF rpc_agent.client_Check_agent [OF assms] 3]) auto
qed

theorem client_calls_agent_witness:
  "\<exists>a s1 s'. run_state (cNIClient_Add (mem_cc (RegisterCNIServer Pair (agent_CNIServer agent1 lib1 mem_ops (\<lambda>path m. m)))) a) mem_init =
      (Inr ''result'', s') \<and>
    mem_view s1 = mem_view mem_init \<and> run_state (Add agent1 lib1 mem_ops (\<lambda>path m. m) a) s1 = (Inr ''result'', s')"
proof -
  let ?lib = "mem_plugin agent1" and ?cc = "mem_cc (RegisterCNIServer Pair (agent_CNIServer agent1 lib1 mem_ops (\<lambda>path m. m)))"
  have env: "LoadArgs ?lib (cmd_Args cmd_args) \<lparr>K8S_POD_NAMESPACE = '''', K8S_POD_NAME = '''',
      K8S_POD_INFRA_CONTAINER_ID = ''''\<rparr> =
    Inr \<lparr>K8S_POD_NAMESPACE = ''default'', K8S_POD_NAME = ''a'', K8S_POD_INFRA_CONTAINER_ID = ''''\<rparr>"
    by (simp add: mem_plugin_def cmd_args_def)
  obtain a where a: "makeCNIArgs ?lib cmd_args = Inr a" using env by (simp add: makeCNIArgs_def)
  obtain s' where "run_state (Add agent1 lib1 mem_ops (\<lambda>path m. m) a) mem_init = (Inr ''result'', s')"
    using Add_client_run [of a] makeCNIArgs_names [OF a env] by (auto simp: cmd_args_def)
  then have run: "run_state (cNIClient_Add ?cc a) mem_init = (Inr ''result'', s')"
    by (simp add: cNIClient_Add_def run_bindE mem_cc_def RegisterCNIServer_def CNI_ServiceDesc_def CNI_Add_FullMethodName_def
        CNI_Add_Handler_def mem_icpt_def with_args_def agent_CNIServer_def)
  from client_calls_agent [OF mem_rpc.rpc_agent_axioms, THEN conjunct1, rule_format, OF run] run show ?thesis
    by auto
qed

end
