(* ===== verification/Cluster.thy ===== *)
theory Cluster
  imports Agent
begin

text \<open>
  The API server as the controllers of \<^verbatim>\<open>controllers/\<close> see it: the objects they read and write, the
  calls of the controller-runtime client (a record of parameters), what the program relies on of
  them (the locale \<open>k8s_laws\<close>), and an in-memory cluster that meets it.
\<close>

section \<open>Objects\<close>

record Subject =
  sub_APIGroup :: string
  sub_Kind :: string
  sub_Name :: string
  sub_Namespace :: string

record ClusterRoleBinding =
  crb_Name :: string
  Subjects :: "Subject list"
  crb_rest :: string

text \<open>A nil map and an empty one are told apart where the code does.\<close>

record PodTemplate =
  tp_Labels :: "labels option"
  tp_Annotations :: "labels option"
  tp_Spec :: PodSpec

record Deployment =
  dp_DeletionTimestamp :: bool
  dp_Created :: bool
  dp_Labels :: "labels option"
  dp_Owner :: "string option"
  dp_Selector :: "labels option"
  dp_Replicas :: "int option"
  dp_Strategy :: DeploymentStrategy
  dp_Template :: PodTemplate
  dp_AvailableReplicas :: int

definition zero_Deployment :: Deployment where
  "zero_Deployment = \<lparr>dp_DeletionTimestamp = False, dp_Created = False, dp_Labels = None, dp_Owner = None,
    dp_Selector = None, dp_Replicas = None, dp_Strategy = \<lparr>ds_Type = '''', ds_rest = ''''\<rparr>,
    dp_Template = \<lparr>tp_Labels = None, tp_Annotations = None, tp_Spec = zero_PodSpec\<rparr>, dp_AvailableReplicas = 0\<rparr>"

record ServicePort =
  sp_Port :: int
  sp_TargetPort :: int
  sp_Protocol :: string

record Service = ServiceIP +
  svc_DeletionTimestamp :: bool
  svc_Created :: bool
  svc_Labels :: "labels option"
  svc_Owner :: "string option"
  svc_Type :: string
  svc_Selector :: "labels option"
  svc_Ports :: "ServicePort list"
  svc_SessionAffinity :: string
  svc_SessionAffinityConfig :: "string option"

definition zero_Service :: Service where
  "zero_Service = \<lparr>ClusterIP = '''', svc_DeletionTimestamp = False, svc_Created = False, svc_Labels = None,
    svc_Owner = None, svc_Type = '''', svc_Selector = None, svc_Ports = [], svc_SessionAffinity = '''',
    svc_SessionAffinityConfig = None\<rparr>"

section \<open>The client\<close>

text \<open>
  The calls: reads, writes, \<^verbatim>\<open>ctrl.CreateOrUpdate\<close> with its callback, the status subresource; and the
  library functions \<^verbatim>\<open>equality.Semantic.DeepDerivative\<close>, \<^verbatim>\<open>ctrl.SetControllerReference\<close> (from the old
  controller to the new one) and the string of \<^verbatim>\<open>metav1.LabelSelectorAsSelector\<close>.
\<close>

record 's k8s =
  GetEgress :: "NamespacedName \<Rightarrow> ('s, EgressObj) go"
  ListEgresses :: "('s, EgressObj list) go"
  GetServiceAccount :: "NamespacedName \<Rightarrow> ('s, unit) go"
  CreateServiceAccount :: "NamespacedName \<Rightarrow> ('s, unit) go"
  GetCRB :: "string \<Rightarrow> ('s, ClusterRoleBinding) go"
  UpdateCRB :: "ClusterRoleBinding \<Rightarrow> ('s, unit) go"
  GetDeployment :: "NamespacedName \<Rightarrow> ('s, Deployment) go"
  CreateOrUpdateDeployment :: "NamespacedName \<Rightarrow> (Deployment \<Rightarrow> err + Deployment) \<Rightarrow> ('s, unit) go"
  CreateOrUpdateService :: "NamespacedName \<Rightarrow> (Service \<Rightarrow> err + Service) \<Rightarrow> ('s, unit) go"
  UpdateStatus :: "EgressObj \<Rightarrow> ('s, unit) go"
  DeepDerivative :: "Subject list \<Rightarrow> Subject list \<Rightarrow> bool"
  SetControllerReference :: "EgressObj \<Rightarrow> string option \<Rightarrow> err + string"
  SelectorString :: "labels option \<Rightarrow> err + string"

text \<open>What is stored.\<close>

record cluster =
  cl_egresses :: "NamespacedName \<Rightarrow> EgressObj option"
  cl_SAs :: "NamespacedName set"
  cl_CRBs :: "string \<Rightarrow> ClusterRoleBinding option"
  cl_depls :: "NamespacedName \<Rightarrow> Deployment option"
  cl_svcs :: "NamespacedName \<Rightarrow> Service option"

definition eg_key :: "EgressObj \<Rightarrow> NamespacedName" where
  "eg_key eg = (eg_Namespace eg, eg_Name eg)"

section \<open>The contract\<close>

text \<open>
  A read returns what is stored, or an error; a not-found error only if it is not stored.  A write
  stores what it is given, or fails and stores nothing.  \<^verbatim>\<open>CreateOrUpdate\<close> calls back with the stored
  object, or a new one, and stores the result; the server gives a new object its creation time, fills
  in fields that are unset (an empty strategy or session affinity, what the program leaves alone),
  reads an empty map back as nil, and keeps the status.
\<close>

definition server_fields :: "PodSpec \<Rightarrow> PodSpec" where
  "server_fields p = p\<lparr>ps_rest := '''', Containers := map (c_rest_update (\<lambda>_. '''')) (Containers p)\<rparr>"

definition map_of_opt :: "labels option \<Rightarrow> labels" where
  "map_of_opt m = (case m of None \<Rightarrow> Map.empty | Some m \<Rightarrow> m)"

definition stored_depl :: "Deployment \<Rightarrow> Deployment \<Rightarrow> bool" where
  "stored_depl d d' \<longleftrightarrow> (\<exists>p ann st. server_fields p = server_fields (tp_Spec (dp_Template d)) \<and>
    map_of_opt ann = map_of_opt (tp_Annotations (dp_Template d)) \<and>
    (ds_Type (dp_Strategy d) \<noteq> '''' \<longrightarrow> ds_Type st = ds_Type (dp_Strategy d)) \<and>
    d' = d\<lparr>dp_Created := True, dp_Strategy := st,
      dp_Template := (dp_Template d)\<lparr>tp_Spec := p, tp_Annotations := ann\<rparr>\<rparr>)"

definition stored_svc :: "Service \<Rightarrow> Service \<Rightarrow> bool" where
  "stored_svc x x' \<longleftrightarrow> (\<exists>a sa sac. (svc_SessionAffinity x \<noteq> '''' \<longrightarrow> sa = svc_SessionAffinity x) \<and>
    (svc_SessionAffinityConfig x \<noteq> None \<longrightarrow> sac = svc_SessionAffinityConfig x) \<and>
    x' = x\<lparr>svc_Created := True, ClusterIP := a, svc_SessionAffinity := sa, svc_SessionAffinityConfig := sac\<rparr>)"

lemma stored_depl_refl: "stored_depl d (d\<lparr>dp_Created := True\<rparr>)"
  unfolding stored_depl_def
  by (rule exI [of _ "tp_Spec (dp_Template d)"], rule exI [of _ "tp_Annotations (dp_Template d)"],
      rule exI [of _ "dp_Strategy d"]) (cases d, simp)

lemma stored_svc_refl: "stored_svc x (x\<lparr>svc_Created := True, ClusterIP := a\<rparr>)"
  unfolding stored_svc_def
  by (rule exI [of _ a], rule exI [of _ "svc_SessionAffinity x"],
      rule exI [of _ "svc_SessionAffinityConfig x"]) (cases x, simp)

locale k8s_laws =
  fixes k :: "'s k8s" and cview :: "'s \<Rightarrow> cluster"
  assumes law_GetEgress: "wp (GetEgress k n) (\<lambda>r s'. env_err r \<and> cview s' = cview s \<and> (case r of
      Inl e \<Rightarrow> IsNotFound e \<longrightarrow> cl_egresses (cview s) n = None
    | Inr eg \<Rightarrow> cl_egresses (cview s) n = Some eg \<and> eg_key eg = n)) s"
    and law_ListEgresses: "wp (ListEgresses k) (\<lambda>r s'. env_err r \<and> cview s' = cview s \<and>
      (\<forall>xs. r = Inr xs \<longrightarrow> set xs = ran (cl_egresses (cview s)))) s"
    and law_GetServiceAccount: "wp (GetServiceAccount k n) (\<lambda>r s'. env_err r \<and> cview s' = cview s \<and>
      (case r of Inl e \<Rightarrow> IsNotFound e \<longrightarrow> n \<notin> cl_SAs (cview s) | Inr _ \<Rightarrow> n \<in> cl_SAs (cview s))) s"
    and law_CreateServiceAccount: "wp (CreateServiceAccount k n) (\<lambda>r s'. env_err r \<and>
      cview s' = (if r = Inr () then (cview s)\<lparr>cl_SAs := insert n (cl_SAs (cview s))\<rparr> else cview s)) s"
    and law_GetCRB: "wp (GetCRB k name) (\<lambda>r s'. env_err r \<and> cview s' = cview s \<and> (\<forall>c. r = Inr c \<longrightarrow>
      cl_CRBs (cview s) name = Some c \<and> crb_Name c = name)) s"
    and law_UpdateCRB: "wp (UpdateCRB k c) (\<lambda>r s'. env_err r \<and>
      cview s' = (if r = Inr () then (cview s)\<lparr>cl_CRBs := (cl_CRBs (cview s))(crb_Name c \<mapsto> c)\<rparr> else cview s)) s"
    and law_GetDeployment: "wp (GetDeployment k n) (\<lambda>r s'. env_err r \<and> cview s' = cview s \<and>
      (\<forall>d. r = Inr d \<longrightarrow> cl_depls (cview s) n = Some d)) s"
    and law_CreateOrUpdateDeployment: "wp (CreateOrUpdateDeployment k n f) (\<lambda>r s'.
      case r of Inl e \<Rightarrow> cview s' = cview s
      | Inr _ \<Rightarrow> \<exists>d d'. f (case cl_depls (cview s) n of None \<Rightarrow> zero_Deployment | Some x \<Rightarrow> x) = Inr d \<and>
          stored_depl d d' \<and> cview s' = (cview s)\<lparr>cl_depls := (cl_depls (cview s))(n \<mapsto> d')\<rparr>) s"
    and law_CreateOrUpdateService: "wp (CreateOrUpdateService k n g) (\<lambda>r s'.
      case r of Inl e \<Rightarrow> cview s' = cview s
      | Inr _ \<Rightarrow> \<exists>x x'. g (case cl_svcs (cview s) n of None \<Rightarrow> zero_Service | Some x \<Rightarrow> x) = Inr x \<and>
          stored_svc x x' \<and> cview s' = (cview s)\<lparr>cl_svcs := (cl_svcs (cview s))(n \<mapsto> x')\<rparr>) s"
    and law_UpdateStatus: "wp (UpdateStatus k eg) (\<lambda>r s'. env_err r \<and>
      cview s' = (if r = Inr () then (cview s)\<lparr>cl_egresses := (cl_egresses (cview s))
        (eg_key eg := map_option (Status_update (\<lambda>_. Status eg)) (cl_egresses (cview s) (eg_key eg)))\<rparr>
        else cview s)) s"
begin

lemmas k8s_wp [wp_ops] =
  law_GetEgress [THEN wp_conseq] law_ListEgresses [THEN wp_conseq] law_GetServiceAccount [THEN wp_conseq]
  law_CreateServiceAccount [THEN wp_conseq] law_GetCRB [THEN wp_conseq] law_UpdateCRB [THEN wp_conseq]
  law_GetDeployment [THEN wp_conseq] law_CreateOrUpdateDeployment [THEN wp_conseq]
  law_CreateOrUpdateService [THEN wp_conseq] law_UpdateStatus [THEN wp_conseq]

end

section \<open>An in-memory cluster\<close>

definition cl_get :: "(cluster \<Rightarrow> 'a option) \<Rightarrow> string \<Rightarrow> (cluster, 'a) go" where
  "cl_get f name = State (\<lambda>s. (case f s of None \<Rightarrow> Inl (APINotFound name) | Some x \<Rightarrow> Inr x, s))"

definition cl_put :: "(cluster \<Rightarrow> cluster) \<Rightarrow> (cluster, unit) go" where
  "cl_put f = State (\<lambda>s. (Inr (), f s))"

definition cl_store :: "(cluster \<Rightarrow> err + cluster) \<Rightarrow> (cluster, unit) go" where
  "cl_store f = State (\<lambda>s. case f s of Inl e \<Rightarrow> (Inl e, s) | Inr s' \<Rightarrow> (Inr (), s'))"

text \<open>Set fields of the first list have to be in the second, which may be longer.\<close>

definition subject_derives :: "Subject \<Rightarrow> Subject \<Rightarrow> bool" where
  "subject_derives x y \<longleftrightarrow> (\<forall>f \<in> {sub_APIGroup, sub_Kind, sub_Name, sub_Namespace}. f x = '''' \<or> f x = f y)"

definition mem_DeepDerivative :: "Subject list \<Rightarrow> Subject list \<Rightarrow> bool" where
  "mem_DeepDerivative xs ys \<longleftrightarrow> length xs \<le> length ys \<and> list_all2 subject_derives xs (take (length xs) ys)"

definition mem_k8s :: "EgressObj list \<Rightarrow> cluster k8s" where
  "mem_k8s egs = \<lparr>GetEgress = (\<lambda>n. State (\<lambda>s. (case cl_egresses s n of None \<Rightarrow> Inl (APINotFound (snd n))
        | Some eg \<Rightarrow> if eg_key eg = n then Inr eg else Inl (OtherError ''get''), s))),
    ListEgresses = State (\<lambda>s. (if set egs = ran (cl_egresses s) then Inr egs else Inl (OtherError ''list''), s)),
    GetServiceAccount = (\<lambda>n. cl_get (\<lambda>s. if n \<in> cl_SAs s then Some () else None) (snd n)),
    CreateServiceAccount = (\<lambda>n. cl_put (\<lambda>s. s\<lparr>cl_SAs := insert n (cl_SAs s)\<rparr>)),
    GetCRB = (\<lambda>n. cl_get (\<lambda>s. case cl_CRBs s n of
        Some c \<Rightarrow> if crb_Name c = n then Some c else None | None \<Rightarrow> None) n),
    UpdateCRB = (\<lambda>c. cl_put (\<lambda>s. s\<lparr>cl_CRBs := (cl_CRBs s)(crb_Name c \<mapsto> c)\<rparr>)),
    GetDeployment = (\<lambda>n. cl_get (\<lambda>s. cl_depls s n) (snd n)),
    CreateOrUpdateDeployment = (\<lambda>n f. cl_store (\<lambda>s.
      case f (case cl_depls s n of None \<Rightarrow> zero_Deployment | Some d \<Rightarrow> d) of Inl e \<Rightarrow> Inl e
      | Inr d \<Rightarrow> Inr (s\<lparr>cl_depls := (cl_depls s)(n \<mapsto> d\<lparr>dp_Created := True\<rparr>)\<rparr>))),
    CreateOrUpdateService = (\<lambda>n f. cl_store (\<lambda>s.
      case f (case cl_svcs s n of None \<Rightarrow> zero_Service | Some x \<Rightarrow> x) of Inl e \<Rightarrow> Inl e
      | Inr x \<Rightarrow> Inr (s\<lparr>cl_svcs := (cl_svcs s)(n \<mapsto> x\<lparr>svc_Created := True, ClusterIP := ''10.1.2.3''\<rparr>)\<rparr>))),
    UpdateStatus = (\<lambda>eg. cl_put (\<lambda>s. s\<lparr>cl_egresses := (cl_egresses s)
      (eg_key eg := map_option (Status_update (\<lambda>_. Status eg)) (cl_egresses s (eg_key eg)))\<rparr>)),
    DeepDerivative = mem_DeepDerivative,
    SetControllerReference = (\<lambda>eg owner. case owner of None \<Rightarrow> Inr (Name_String (eg_key eg))
      | Some ow \<Rightarrow> if ow = Name_String (eg_key eg) then Inr ow else Inl (OtherError ''already owned'')),
    SelectorString = (\<lambda>ls. Inr ''selector'')\<rparr>"

interpretation mem_k8s: k8s_laws "mem_k8s egs" "\<lambda>s. s" for egs
  by unfold_locales
    (auto simp: mem_k8s_def cl_get_def cl_put_def cl_store_def wp_def stored_depl_refl stored_svc_refl
      split: option.splits sum.splits intro!: exI conjI [OF stored_depl_refl refl] conjI [OF stored_svc_refl refl])

text \<open>The calls on it evaluated.\<close>

lemma mem_k8s_run:
  "run_state (GetEgress (mem_k8s egs) n) s = (case cl_egresses s n of None \<Rightarrow> Inl (APINotFound (snd n))
    | Some eg \<Rightarrow> if eg_key eg = n then Inr eg else Inl (OtherError ''get''), s)"
  "run_state (ListEgresses (mem_k8s egs)) s =
    (if set egs = ran (cl_egresses s) then Inr egs else Inl (OtherError ''list''), s)"
  "run_state (GetServiceAccount (mem_k8s egs) n) s =
    (if n \<in> cl_SAs s then Inr () else Inl (APINotFound (snd n)), s)"
  "run_state (CreateServiceAccount (mem_k8s egs) n) s = (Inr (), s\<lparr>cl_SAs := insert n (cl_SAs s)\<rparr>)"
  "run_state (GetCRB (mem_k8s egs) m) s = (case cl_CRBs s m of None \<Rightarrow> Inl (APINotFound m)
    | Some c \<Rightarrow> if crb_Name c = m then Inr c else Inl (APINotFound m), s)"
  "run_state (UpdateCRB (mem_k8s egs) c) s = (Inr (), s\<lparr>cl_CRBs := (cl_CRBs s)(crb_Name c \<mapsto> c)\<rparr>)"
  "run_state (GetDeployment (mem_k8s egs) n) s =
    (case cl_depls s n of None \<Rightarrow> Inl (APINotFound (snd n)) | Some d \<Rightarrow> Inr d, s)"
  "run_state (UpdateStatus (mem_k8s egs) eg) s = (Inr (), s\<lparr>cl_egresses := (cl_egresses s)
      (eg_key eg := map_option (Status_update (\<lambda>_. Status eg)) (cl_egresses s (eg_key eg)))\<rparr>)"
  "run_state (CreateOrUpdateDeployment (mem_k8s egs) n f) s =
    (case f (case cl_depls s n of None \<Rightarrow> zero_Deployment | Some d \<Rightarrow> d) of Inl e \<Rightarrow> (Inl e, s)
     | Inr d \<Rightarrow> (Inr (), s\<lparr>cl_depls := (cl_depls s)(n \<mapsto> d\<lparr>dp_Created := True\<rparr>)\<rparr>))"
  "run_state (CreateOrUpdateService (mem_k8s egs) n g) s =
    (case g (case cl_svcs s n of None \<Rightarrow> zero_Service | Some x \<Rightarrow> x) of Inl e \<Rightarrow> (Inl e, s)
     | Inr x \<Rightarrow> (Inr (), s\<lparr>cl_svcs := (cl_svcs s)(n \<mapsto> x\<lparr>svc_Created := True, ClusterIP := ''10.1.2.3''\<rparr>)\<rparr>))"
  by (simp_all add: mem_k8s_def cl_get_def cl_put_def cl_store_def split: option.splits sum.splits)

end
