(* ===== verification/Crb_Controller.thy ===== *)
theory Crb_Controller
  imports Cluster
begin

text \<open>
  \<^verbatim>\<open>controllers/clusterrolebinding_controller.go\<close>: the reconciler that grants the service account of
  every namespace with an \<^verbatim>\<open>Egress\<close> the cluster role of the egress pods.
\<close>

section \<open>Definitions\<close>

definition egress_subject :: "string \<Rightarrow> Subject" where
  "egress_subject n = \<lparr>sub_APIGroup = '''', sub_Kind = ''ServiceAccount'', sub_Name = SAEgress, sub_Namespace = n\<rparr>"

text \<open>
  The keys of the map \<^verbatim>\<open>nsMap\<close>, sorted: the order in which the loop over the map meets them is lost
  in the sorting.
\<close>

definition namespaces :: "EgressObj list \<Rightarrow> string list" where
  "namespaces egresses = sort (remdups (map eg_Namespace egresses))"

definition reconcileCRB :: "'s k8s \<Rightarrow> string \<Rightarrow> ('s, unit) go" where
  "reconcileCRB cl name =
    bindE (GetCRB cl name) (\<lambda>crb.
    bindE (ListEgresses cl) (\<lambda>egresses.
    let subjects = map egress_subject (namespaces egresses)
    in if DeepDerivative cl subjects (Subjects crb) then ret ()
       else UpdateCRB cl (crb\<lparr>Subjects := subjects\<rparr>)))"

definition crb_Reconcile :: "'s k8s \<Rightarrow> string \<Rightarrow> ('s, unit) go" where
  "crb_Reconcile cl name = (if name = CRBEgress then reconcileCRB cl name else ret ())"

section \<open>What it does\<close>

definition egress_namespaces :: "cluster \<Rightarrow> string set" where
  "egress_namespaces v = eg_Namespace ` ran (cl_egresses v)"

text \<open>The binding names the service account of a namespace (a server may fill in the API group).\<close>

definition grants :: "ClusterRoleBinding \<Rightarrow> string \<Rightarrow> bool" where
  "grants c n \<longleftrightarrow> (\<exists>x \<in> set (Subjects c). sub_Kind x = ''ServiceAccount'' \<and> sub_Name x = SAEgress \<and> sub_Namespace x = n)"

text \<open>Documented of \<^verbatim>\<open>DeepDerivative\<close>: the fields that are set in the first argument are so in the second.\<close>

definition derivative_ok :: "'s k8s \<Rightarrow> bool" where
  "derivative_ok cl \<longleftrightarrow> (\<forall>xs ys. DeepDerivative cl xs ys \<longrightarrow> (\<forall>x \<in> set xs. \<exists>y \<in> set ys. subject_derives x y))"

lemma namespaces_set [simp]: "set (namespaces egs) = eg_Namespace ` set egs"
  by (simp add: namespaces_def)

lemma namespaces_sorted: "sorted (namespaces egs)" "distinct (namespaces egs)"
  by (simp_all add: namespaces_def)

lemma namespaces_eq: "namespaces egs = sorted_list_of_set (eg_Namespace ` set egs)"
  by (rule sorted_distinct_set_unique) (simp_all add: namespaces_sorted)

lemma grants_subjects: "grants (c\<lparr>Subjects := map egress_subject ns\<rparr>) n \<longleftrightarrow> n \<in> set ns"
  by (auto simp: grants_def egress_subject_def)

lemma grants_derivative:
  assumes "derivative_ok cl" "DeepDerivative cl (map egress_subject ns) (Subjects c)" "n \<in> set ns" "n \<noteq> ''''"
  shows "grants c n"
proof -
  obtain y where "y \<in> set (Subjects c)" "subject_derives (egress_subject n) y"
    using assms by (fastforce simp: derivative_ok_def)
  then show ?thesis
    using assms(4) by (auto simp: grants_def subject_derives_def egress_subject_def SAEgress_def)
qed

lemma finite_of_set: "set xs = A \<Longrightarrow> finite (f ` A)"
  by auto

context k8s_laws
begin

lemma wp_reconcileCRB:
  "wp (reconcileCRB k name) (\<lambda>r s'. case r of
      Inl _ \<Rightarrow> cview s' = cview s
    | Inr _ \<Rightarrow> finite (egress_namespaces (cview s)) \<and> (\<exists>c. cl_CRBs (cview s) name = Some c \<and> crb_Name c = name \<and>
        (let subjects = map egress_subject (sorted_list_of_set (egress_namespaces (cview s)))
         in if DeepDerivative k subjects (Subjects c) then cview s' = cview s
            else cview s' = (cview s)\<lparr>cl_CRBs := (cl_CRBs (cview s))(name \<mapsto> c\<lparr>Subjects := subjects\<rparr>)\<rparr>))) s"
  unfolding reconcileCRB_def
  by (auto intro!: k8s_wp simp: wp_simps Let_def namespaces_eq egress_namespaces_def split: sum.splits
      dest: finite_of_set [where f = eg_Namespace])

lemma wp_reconcileCRB_grants:
  assumes "derivative_ok k" "'''' \<notin> egress_namespaces (cview s)"
  shows "wp (reconcileCRB k name) (\<lambda>r s'. r = Inr () \<longrightarrow> (\<exists>c. cl_CRBs (cview s') name = Some c \<and>
    (\<forall>n \<in> egress_namespaces (cview s). grants c n)) \<and>
    cview s' = (cview s)\<lparr>cl_CRBs := (cl_CRBs (cview s))(name := cl_CRBs (cview s') name)\<rparr>) s"
proof (rule wp_reconcileCRB [THEN wp_conseq], goal_cases)
  case (1 r s')
  let ?ns = "sorted_list_of_set (egress_namespaces (cview s))"
  show ?case
  proof (cases r)
    case (Inr u)
    then have set: "set ?ns = egress_namespaces (cview s)" using 1 by simp
    from Inr 1 obtain c where c: "cl_CRBs (cview s) name = Some c"
        "if DeepDerivative k (map egress_subject ?ns) (Subjects c) then cview s' = cview s
         else cview s' = (cview s)\<lparr>cl_CRBs := (cl_CRBs (cview s))(name \<mapsto> c\<lparr>Subjects := map egress_subject ?ns\<rparr>)\<rparr>"
      using 1 by (auto simp: Let_def)
    show ?thesis
    proof (cases "DeepDerivative k (map egress_subject ?ns) (Subjects c)")
      case True
      then show ?thesis
        using c grants_derivative [OF assms(1) True] set assms(2) by (auto simp: fun_upd_idem)
    next
      case False
      then show ?thesis using c set by (auto simp: grants_subjects)
    qed
  qed simp
qed

end

section \<open>Properties\<close>

lemma mem_derivative_ok: "derivative_ok (mem_k8s egs)"
proof -
  have "\<exists>y \<in> set ys. subject_derives x y"
    if "list_all2 subject_derives xs (take (length xs) ys)" "x \<in> set xs" for xs ys x
  proof -
    from that(2) obtain i where i: "i < length xs" "x = xs ! i" by (auto simp: in_set_conv_nth)
    then have "i < length ys" using list_all2_lengthD [OF that(1)] by simp
    with list_all2_nthD [OF that(1) i(1)] i show ?thesis by auto
  qed
  then show ?thesis by (auto simp: derivative_ok_def mem_k8s_def mem_DeepDerivative_def)
qed


definition crb0 :: ClusterRoleBinding where
  "crb0 = \<lparr>crb_Name = CRBEgress, Subjects = [egress_subject ''old''], crb_rest = ''''\<rparr>"

definition cluster0 :: "EgressObj list \<Rightarrow> cluster" where
  "cluster0 egs = \<lparr>cl_egresses = map_of (map (\<lambda>eg. (eg_key eg, eg)) egs), cl_SAs = {},
    cl_CRBs = [CRBEgress \<mapsto> crb0], cl_depls = Map.empty, cl_svcs = Map.empty\<rparr>"

lemma cluster0_nat: "ran (cl_egresses (cluster0 [eg_nat])) = {eg_nat}" "egress_namespaces (cluster0 [eg_nat]) = {''gw''}"
  by (simp_all add: cluster0_def egress_namespaces_def eg_nat_def)

lemma cluster0_crb: "cl_CRBs (cluster0 egs) CRBEgress = Some crb0" "crb_Name crb0 = CRBEgress"
  by (simp_all add: cluster0_def crb0_def)


text \<open>
  Where \<^verbatim>\<open>DeepDerivative\<close> ignores an empty list, as unset fields are ignored, the binding keeps its
  subjects when the last \<^verbatim>\<open>Egress\<close> is gone.
\<close>

lemma reconcileCRB_stale:
  assumes "k8s_laws k cview" "\<And>ys. DeepDerivative k [] ys" "cl_egresses (cview s) = Map.empty"
    and "run_state (reconcileCRB k name) s = (Inr (), s')"
  shows "cview s' = cview s"
  using wp_runD [OF k8s_laws.wp_reconcileCRB [OF assms(1)] assms(4)] assms(2,3)
  by (auto simp: egress_namespaces_def)

end
