(* ===== verification/Egress_Controller.thy ===== *)
theory Egress_Controller
  imports Crb_Controller "HOL-Library.Sublist"
begin

text \<open>
  \<^verbatim>\<open>controllers/egress_controller.go\<close>: the reconciler that keeps, for every \<^verbatim>\<open>Egress\<close>, a service account,
  the cluster role binding, a Deployment of egress pods, a Service in front of them, and the status.
\<close>

section \<open>Definitions\<close>

record EgressReconciler =
  Image :: string
  Port :: int

text \<open>Assigning the entries of a map one by one.\<close>

definition put_all :: "labels \<Rightarrow> (string \<times> string) list \<Rightarrow> labels" where
  "put_all m kvs = foldl (\<lambda>m (k, v). m(k \<mapsto> v)) m kvs"

definition selectorLabels :: "string \<Rightarrow> (string \<times> string) list" where
  "selectorLabels name =
    [(LabelAppName, ''egress-cni''), (LabelAppInstance, name), (LabelAppComponent, ''egress'')]"

definition addVolumes :: "Volume list \<Rightarrow> Volume list" where
  "addVolumes vols =
    (let noRun = (\<forall>vol \<in> set vols. vol_Name vol \<noteq> ''run'');
         vols1 = (if noRun then vols @ [\<lparr>vol_Name = ''run'', vol_Source = EmptyDir\<rparr>] else vols)
     in vols1 @ [\<lparr>vol_Name = ''modules'', vol_Source = HostPath ''/lib/modules''\<rparr>])"

definition addVolumeMounts :: "VolumeMount list \<Rightarrow> VolumeMount list" where
  "addVolumeMounts mounts =
    (let noRun = (\<forall>m \<in> set mounts. vm_Name m \<noteq> ''run'');
         mounts1 = (if noRun then mounts @ [\<lparr>vm_MountPath = ''/run'', vm_Name = ''run'', vm_ReadOnly = False\<rparr>]
                    else mounts)
     in mounts1 @ [\<lparr>vm_MountPath = ''/lib/modules'', vm_Name = ''modules'', vm_ReadOnly = True\<rparr>])"

text \<open>The loop over the containers keeps the last one named \<^verbatim>\<open>egress-gw\<close>.\<close>

fun egress_index :: "Container list \<Rightarrow> nat \<Rightarrow> nat option \<Rightarrow> nat option" where
  "egress_index [] i found = found"
| "egress_index (c # cs) i found =
    egress_index cs (Suc i) (if c_Name c \<noteq> ''egress-gw'' then found else Some i)"

definition requests_with :: "string \<Rightarrow> string \<Rightarrow> labels \<Rightarrow> labels" where
  "requests_with res q m = (case m res of None \<Rightarrow> m(res \<mapsto> q) | Some _ \<Rightarrow> m)"

definition egressContainer :: "EgressReconciler \<Rightarrow> EgressObj \<Rightarrow> Container \<Rightarrow> Container" where
  "egressContainer r eg c = c
    \<lparr>c_Name := ''egress-gw'',
     c_Image := (if c_Image c = '''' then Image r else c_Image c),
     c_Command := (if length (c_Command c) = 0 then [''egress-gw''] else c_Command c),
     c_Args := (if length (c_Args c) = 0 then [''--zap-stacktrace-level=panic''] else c_Args c),
     c_Env := c_Env c @ [EnvValue EnvPodNamespace (eg_Namespace eg), EnvValue EnvEgressName (eg_Name eg),
       EnvFieldRef EnvAddresses ''status.podIPs''],
     c_VolumeMounts := addVolumeMounts (c_VolumeMounts c),
     c_SecurityContext := Some \<lparr>Privileged = True, ReadOnlyRootFilesystem = True, AddCapabilities = [''NET_ADMIN'']\<rparr>,
     c_Requests := Some (requests_with ''memory'' ''200Mi'' (requests_with ''cpu'' ''100m''
       (case c_Requests c of None \<Rightarrow> Map.empty | Some m \<Rightarrow> m))),
     c_Ports := [\<lparr>cp_Name = ''metrics'', cp_Port = 8080, cp_Protocol = ''TCP''\<rparr>,
       \<lparr>cp_Name = ''health'', cp_Port = 8081, cp_Protocol = ''TCP''\<rparr>],
     c_LivenessProbe := Some \<lparr>probe_Path = ''/healthz'', probe_Port = ''health'', probe_Scheme = ''HTTP''\<rparr>,
     c_ReadinessProbe := Some \<lparr>probe_Path = ''/readyz'', probe_Port = ''health'', probe_Scheme = ''HTTP''\<rparr>\<rparr>"

definition reconcilePodTemplate :: "EgressReconciler \<Rightarrow> EgressObj \<Rightarrow> Deployment \<Rightarrow> Deployment" where
  "reconcilePodTemplate r eg depl =
    (let target = dp_Template depl;
         ann0 = (case tp_Annotations target of None \<Rightarrow> Map.empty | Some m \<Rightarrow> m);
         (podSpec, ann, lab) = (case Template (Spec eg) of
             None \<Rightarrow> (zero_PodSpec, ann0, Map.empty)
           | Some desired \<Rightarrow> (tmpl_Spec desired, put_all ann0 (md_Annotations desired),
               put_all Map.empty (md_Labels desired)));
         lab = put_all lab (selectorLabels (eg_Name eg));
         cs = Containers podSpec;
         (cs, i) = (case egress_index cs 0 None of None \<Rightarrow> (zero_Container # cs, 0) | Some i \<Rightarrow> (cs, i));
         podSpec = podSpec\<lparr>ServiceAccountName := SAEgress, Volumes := addVolumes (Volumes podSpec),
           Containers := cs[i := egressContainer r eg (cs ! i)]\<rparr>
     in depl\<lparr>dp_Template := target\<lparr>tp_Labels := Some lab, tp_Annotations := Some ann, tp_Spec := podSpec\<rparr>\<rparr>)"

text \<open>The callback of \<^verbatim>\<open>reconcileDeployment\<close>.\<close>

definition mutate_Deployment ::
  "'s k8s \<Rightarrow> EgressReconciler \<Rightarrow> EgressObj \<Rightarrow> Deployment \<Rightarrow> err + Deployment" where
  "mutate_Deployment cl r eg depl =
    (if dp_DeletionTimestamp depl then Inr depl
     else
       let labels = selectorLabels (eg_Name eg);
           depl1 = depl\<lparr>dp_Labels := Some (put_all
             (case dp_Labels depl of None \<Rightarrow> Map.empty | Some m \<Rightarrow> m) labels)\<rparr>
       in case (if \<not> dp_Created depl1 then
             (case SetControllerReference cl eg (dp_Owner depl1) of
                Inl e \<Rightarrow> Inl e
              | Inr ow \<Rightarrow> Inr (depl1\<lparr>dp_Owner := Some ow, dp_Selector := Some (map_of labels)\<rparr>))
           else Inr depl1) of
            Inl e \<Rightarrow> Inl e
          | Inr depl2 \<Rightarrow>
              let depl3 = (if dp_Replicas depl2 \<noteq> Some (Replicas (Spec eg))
                    then depl2\<lparr>dp_Replicas := Some (Replicas (Spec eg))\<rparr> else depl2);
                  depl4 = (case Strategy (Spec eg) of None \<Rightarrow> depl3 | Some st \<Rightarrow> depl3\<lparr>dp_Strategy := st\<rparr>)
              in Inr (reconcilePodTemplate r eg depl4))"

definition reconcileDeployment :: "'s k8s \<Rightarrow> EgressReconciler \<Rightarrow> EgressObj \<Rightarrow> ('s, unit) go" where
  "reconcileDeployment cl r eg =
    bindE (CreateOrUpdateDeployment cl (eg_key eg) (mutate_Deployment cl r eg)) (\<lambda>_. ret ())"

text \<open>The callback of \<^verbatim>\<open>reconcileService\<close>.\<close>

definition mutate_Service ::
  "'s k8s \<Rightarrow> EgressReconciler \<Rightarrow> EgressObj \<Rightarrow> Service \<Rightarrow> err + Service" where
  "mutate_Service cl r eg svc =
    (if svc_DeletionTimestamp svc then Inr svc
     else
       let labels = selectorLabels (eg_Name eg);
           svc1 = svc\<lparr>svc_Labels := Some (put_all
             (case svc_Labels svc of None \<Rightarrow> Map.empty | Some m \<Rightarrow> m) labels)\<rparr>
       in case (if \<not> svc_Created svc1 then
             (case SetControllerReference cl eg (svc_Owner svc1) of
                Inl e \<Rightarrow> Inl e
              | Inr ow \<Rightarrow> Inr (svc1\<lparr>svc_Owner := Some ow\<rparr>))
           else Inr svc1) of
            Inl e \<Rightarrow> Inl e
          | Inr svc2 \<Rightarrow>
              let svc3 = svc2\<lparr>svc_Type := ''ClusterIP'', svc_Selector := Some (map_of labels),
                    svc_Ports := [\<lparr>sp_Port = Port r, sp_TargetPort = Port r, sp_Protocol = ''UDP''\<rparr>],
                    svc_SessionAffinity := SessionAffinity (Spec eg)\<rparr>
              in Inr (case SessionAffinityConfig (Spec eg) of
                   None \<Rightarrow> svc3
                 | Some sac \<Rightarrow> svc3\<lparr>svc_SessionAffinityConfig := Some sac\<rparr>))"

definition reconcileService :: "'s k8s \<Rightarrow> EgressReconciler \<Rightarrow> EgressObj \<Rightarrow> ('s, unit) go" where
  "reconcileService cl r eg =
    bindE (CreateOrUpdateService cl (eg_key eg) (mutate_Service cl r eg)) (\<lambda>_. ret ())"

definition reconcileServiceAccount :: "'s k8s \<Rightarrow> string \<Rightarrow> ('s, unit) go" where
  "reconcileServiceAccount cl ns = do {
    res \<leftarrow> GetServiceAccount cl (ns, SAEgress);
    case res of
      Inr _ \<Rightarrow> ret ()
    | Inl e \<Rightarrow> if IsNotFound e then CreateServiceAccount cl (ns, SAEgress) else fail e
  }"

definition updateStatus :: "'s k8s \<Rightarrow> EgressObj \<Rightarrow> ('s, unit) go" where
  "updateStatus cl eg =
    bindE (GetDeployment cl (eg_key eg)) (\<lambda>depl.
    case SelectorString cl (dp_Selector depl) of
      Inl e \<Rightarrow> fail e
    | Inr selString \<Rightarrow>
        let new = \<lparr>st_Replicas = dp_AvailableReplicas depl, st_Selector = selString\<rparr>;
            changed = (st_Selector (Status eg) \<noteq> selString \<or>
              st_Replicas (Status eg) \<noteq> dp_AvailableReplicas depl)
        in if changed then UpdateStatus cl (eg\<lparr>Status := new\<rparr>) else ret ())"

definition eg_Reconcile :: "'s k8s \<Rightarrow> EgressReconciler \<Rightarrow> NamespacedName \<Rightarrow> ('s, unit) go" where
  "eg_Reconcile cl r req = do {
    res \<leftarrow> GetEgress cl req;
    case res of
      Inl e \<Rightarrow> if IsNotFound e then ret () else fail e
    | Inr eg \<Rightarrow>
        if eg_DeletionTimestamp eg then ret ()
        else
          bindE (reconcileServiceAccount cl (fst req)) (\<lambda>_.
          bindE (reconcileCRB cl CRBEgress) (\<lambda>_.
          bindE (reconcileDeployment cl r eg) (\<lambda>_.
          bindE (reconcileService cl r eg) (\<lambda>_.
          updateStatus cl eg))))
  }"

text \<open>The image of the first container of the controller's own pod; without one the index panics.\<close>

definition GetImage :: "(NamespacedName \<Rightarrow> ('s, PodSpec) go) \<Rightarrow> NamespacedName \<Rightarrow> ('s, string) go" where
  "GetImage apiReader key =
    bindE (apiReader key) (\<lambda>pod.
    case Containers pod of [] \<Rightarrow> fail (Panic ''index out of range'') | c # _ \<Rightarrow> ret (c_Image c))"

section \<open>The pod template\<close>

lemma put_all_simps [simp]:
  "put_all m [] = m" "put_all m ((k, v) # kvs) = put_all (m(k \<mapsto> v)) kvs"
  by (simp_all add: put_all_def)

lemma put_all_map_of: "distinct (map fst kvs) \<Longrightarrow> put_all m kvs = m ++ map_of kvs"
proof (induction kvs arbitrary: m)
  case (Cons kv kvs)
  then have new: "map_of kvs (fst kv) = None" by (simp add: map_of_eq_None_iff)
  have "put_all m (kv # kvs) = m(fst kv \<mapsto> snd kv) ++ map_of kvs"
    using Cons by (cases kv) simp
  also have "\<dots> = m ++ map_of (kv # kvs)"
    using new by (auto simp: map_add_def fun_eq_iff split: option.splits)
  finally show ?case .
qed simp

lemma selectorLabels_distinct [simp]: "distinct (map fst (selectorLabels name))"
  by (simp add: selectorLabels_def LabelAppName_def LabelAppInstance_def LabelAppComponent_def)

lemma put_selector: "put_all m (selectorLabels name) = m ++ map_of (selectorLabels name)"
  by (rule put_all_map_of) simp

lemma map_add_idem [simp]: "(m ++ n) ++ n = m ++ n"
  by (auto simp: map_add_def fun_eq_iff split: option.splits)

lemma put_all_idem: "distinct (map fst kvs) \<Longrightarrow> put_all (put_all m kvs) kvs = put_all m kvs"
  by (simp add: put_all_map_of)

text \<open>The index found: that of the last container with the name.\<close>

lemma egress_index_append:
  "egress_index (cs @ [c]) k found =
    (if c_Name c \<noteq> ''egress-gw'' then egress_index cs k found else Some (k + length cs))"
  by (induction cs arbitrary: k found) simp_all

lemma egress_index_None:
  "egress_index cs k None = None \<longleftrightarrow> (\<forall>c \<in> set cs. c_Name c \<noteq> ''egress-gw'')"
  by (induction cs rule: rev_induct) (auto simp: egress_index_append)

lemma egress_index_Some:
  assumes "egress_index cs 0 None = Some i"
  shows "\<exists>pre c post. cs = pre @ c # post \<and> i = length pre \<and> c_Name c = ''egress-gw'' \<and>
    (\<forall>x \<in> set post. c_Name x \<noteq> ''egress-gw'')"
  using assms
proof (induction cs rule: rev_induct)
  case (snoc c cs)
  show ?case
  proof (cases "c_Name c = ''egress-gw''")
    case True
    then show ?thesis using snoc.prems by (intro exI [of _ cs]) (auto simp: egress_index_append)
  next
    case False
    then obtain pre x post where "cs = pre @ x # post" "i = length pre" "c_Name x = ''egress-gw''"
        "\<forall>x \<in> set post. c_Name x \<noteq> ''egress-gw''"
      using snoc by (auto simp: egress_index_append)
    with False show ?thesis by (intro exI [of _ pre] exI [of _ x] exI [of _ "post @ [c]"]) auto
  qed
qed simp

text \<open>What the user asks for in the template.\<close>

definition user_spec :: "EgressObj \<Rightarrow> PodSpec" where
  "user_spec eg = (case Template (Spec eg) of None \<Rightarrow> zero_PodSpec | Some t \<Rightarrow> tmpl_Spec t)"

definition user_labels :: "EgressObj \<Rightarrow> (string \<times> string) list" where
  "user_labels eg = (case Template (Spec eg) of None \<Rightarrow> [] | Some t \<Rightarrow> md_Labels t)"

definition user_annotations :: "EgressObj \<Rightarrow> (string \<times> string) list" where
  "user_annotations eg = (case Template (Spec eg) of None \<Rightarrow> [] | Some t \<Rightarrow> md_Annotations t)"

text \<open>The entries of a map have different keys.\<close>

definition distinct_keys :: "EgressObj \<Rightarrow> bool" where
  "distinct_keys eg \<longleftrightarrow> distinct (map fst (user_labels eg)) \<and> distinct (map fst (user_annotations eg))"

definition is_gateway :: "Container \<Rightarrow> bool" where
  "is_gateway c \<longleftrightarrow> c_Name c = ''egress-gw''"

text \<open>The containers and the pod specification made of those of the user.\<close>

definition gateway_containers :: "EgressReconciler \<Rightarrow> EgressObj \<Rightarrow> Container list \<Rightarrow> Container list" where
  "gateway_containers r eg cs = (case egress_index cs 0 None of
     None \<Rightarrow> egressContainer r eg zero_Container # cs
   | Some i \<Rightarrow> cs[i := egressContainer r eg (cs ! i)])"

definition gateway_spec :: "EgressReconciler \<Rightarrow> EgressObj \<Rightarrow> PodSpec" where
  "gateway_spec r eg = (user_spec eg)\<lparr>ServiceAccountName := SAEgress, Volumes := addVolumes (Volumes (user_spec eg)),
    Containers := gateway_containers r eg (Containers (user_spec eg))\<rparr>"

lemma reconcilePodTemplate_eq:
  "reconcilePodTemplate r eg d = d\<lparr>dp_Template :=
    \<lparr>tp_Labels = Some (put_all (put_all Map.empty (user_labels eg)) (selectorLabels (eg_Name eg))),
     tp_Annotations = Some (put_all (map_of_opt (tp_Annotations (dp_Template d))) (user_annotations eg)),
     tp_Spec = gateway_spec r eg\<rparr>\<rparr>"
  by (simp add: reconcilePodTemplate_def user_labels_def user_annotations_def gateway_spec_def
      gateway_containers_def user_spec_def map_of_opt_def Let_def split: option.split)

text \<open>The container that is configured: the user's last one of the name, or a new first one.\<close>

definition user_gateway :: "Container list \<Rightarrow> Container" where
  "user_gateway cs = (let gs = filter is_gateway cs in if gs = [] then zero_Container else last gs)"

lemma gateway_containers_cases:
  obtains (found) pre u post where "cs = pre @ u # post" "is_gateway u" "\<forall>x \<in> set post. \<not> is_gateway x"
      "user_gateway cs = u" "gateway_containers r eg cs = pre @ egressContainer r eg u # post"
  | (fresh) "\<forall>x \<in> set cs. \<not> is_gateway x" "user_gateway cs = zero_Container"
      "gateway_containers r eg cs = egressContainer r eg zero_Container # cs"
proof (cases "egress_index cs 0 None")
  case None
  then have "\<forall>x \<in> set cs. \<not> is_gateway x" by (simp add: egress_index_None is_gateway_def)
  moreover from this have "filter is_gateway cs = []" by (simp add: filter_empty_conv)
  ultimately show ?thesis using None that(2) by (simp add: gateway_containers_def user_gateway_def)
next
  case (Some i)
  then obtain pre u post where *: "cs = pre @ u # post" "i = length pre" "is_gateway u"
      "\<forall>x \<in> set post. \<not> is_gateway x"
    using egress_index_Some [OF Some] by (auto simp: is_gateway_def)
  then have "filter is_gateway cs = filter is_gateway pre @ [u]" by (simp add: filter_empty_conv)
  then have "user_gateway cs = u" by (simp add: user_gateway_def)
  with * Some show ?thesis by (intro that(1)) (simp_all add: gateway_containers_def)
qed

lemma egressContainer_is_gateway [simp]: "is_gateway (egressContainer r eg u)"
  by (simp add: is_gateway_def egressContainer_def)

text \<open>The other containers are left alone, and there is one that is the gateway.\<close>

lemma gateway_containers_others:
  "filter (\<lambda>c. \<not> is_gateway c) (gateway_containers r eg cs) = filter (\<lambda>c. \<not> is_gateway c) cs"
  by (cases rule: gateway_containers_cases [of cs r eg]) simp_all

lemma gateway_containers_gateways:
  "filter is_gateway (gateway_containers r eg cs) =
    butlast (filter is_gateway cs) @ [egressContainer r eg (user_gateway cs)]"
  by (cases rule: gateway_containers_cases [of cs r eg]) (simp_all add: filter_empty_conv butlast_append)

lemma gateway_containers_set:
  "set (gateway_containers r eg cs) \<subseteq> insert (egressContainer r eg (user_gateway cs)) (set cs)"
  by (cases rule: gateway_containers_cases [of cs r eg]) auto

lemma user_gateway_in: "user_gateway cs \<in> insert zero_Container (set cs)"
  by (cases rule: gateway_containers_cases [of cs undefined undefined]) auto

text \<open>Every mount names a volume of the pod.\<close>

definition mounts_ok :: "Volume list \<Rightarrow> Container \<Rightarrow> bool" where
  "mounts_ok vols c \<longleftrightarrow> vm_Name ` set (c_VolumeMounts c) \<subseteq> vol_Name ` set vols"

lemma ball_neq_image: "(\<forall>x \<in> A. f x \<noteq> y) \<longleftrightarrow> y \<notin> f ` A"
  by blast

lemma addVolumes_names: "vol_Name ` set (addVolumes vols) = {''run'', ''modules''} \<union> vol_Name ` set vols"
  by (cases "''run'' \<in> vol_Name ` set vols") (simp_all add: addVolumes_def ball_neq_image insert_commute insert_absorb)

lemma addVolumeMounts_names:
  "vm_Name ` set (addVolumeMounts ms) = {''run'', ''modules''} \<union> vm_Name ` set ms"
  by (cases "''run'' \<in> vm_Name ` set ms") (simp_all add: addVolumeMounts_def ball_neq_image insert_commute insert_absorb)

lemma gateway_mounts_ok:
  assumes "\<forall>c \<in> set cs. mounts_ok vols c" "c \<in> set (gateway_containers r eg cs)"
  shows "mounts_ok (addVolumes vols) c"
proof -
  have "mounts_ok (addVolumes vols) x" if "x \<in> set cs" for x
    using assms(1) that by (auto simp: mounts_ok_def addVolumes_names)
  moreover have "mounts_ok (addVolumes vols) (egressContainer r eg (user_gateway cs))"
    using assms(1) user_gateway_in [of cs]
    by (auto simp: mounts_ok_def addVolumes_names egressContainer_def addVolumeMounts_names zero_Container_def)
  ultimately show ?thesis using assms(2) gateway_containers_set by fastforce
qed

text \<open>What a configured container is like.\<close>

definition configured :: "EgressReconciler \<Rightarrow> EgressObj \<Rightarrow> Container \<Rightarrow> bool" where
  "configured r eg c \<longleftrightarrow> is_gateway c \<and> (Image r \<noteq> '''' \<longrightarrow> c_Image c \<noteq> '''') \<and> c_Command c \<noteq> [] \<and>
    {EnvValue EnvPodNamespace (eg_Namespace eg), EnvValue EnvEgressName (eg_Name eg),
     EnvFieldRef EnvAddresses ''status.podIPs''} \<subseteq> set (c_Env c) \<and>
    (\<exists>sc. c_SecurityContext c = Some sc \<and> Privileged sc \<and> ''NET_ADMIN'' \<in> set (AddCapabilities sc)) \<and>
    {''run'', ''modules''} \<subseteq> vm_Name ` set (c_VolumeMounts c) \<and>
    {''cpu'', ''memory''} \<subseteq> dom (map_of_opt (c_Requests c)) \<and>
    (\<exists>lp rp. c_LivenessProbe c = Some lp \<and> c_ReadinessProbe c = Some rp \<and>
      {probe_Port lp, probe_Port rp} \<subseteq> cp_Name ` set (c_Ports c))"

lemma egressContainer_configured: "configured r eg (egressContainer r eg u)"
  by (auto simp: configured_def egressContainer_def is_gateway_def addVolumeMounts_names map_of_opt_def
      requests_with_def dom_def split: option.splits)

text \<open>What the user has set is kept.\<close>

definition keeps :: "Container \<Rightarrow> Container \<Rightarrow> bool" where
  "keeps u c \<longleftrightarrow> (c_Image u \<noteq> '''' \<longrightarrow> c_Image c = c_Image u) \<and> (c_Command u \<noteq> [] \<longrightarrow> c_Command c = c_Command u) \<and>
    (c_Args u \<noteq> [] \<longrightarrow> c_Args c = c_Args u) \<and> prefix (c_Env u) (c_Env c) \<and>
    prefix (c_VolumeMounts u) (c_VolumeMounts c) \<and>
    map_of_opt (c_Requests u) \<subseteq>\<^sub>m map_of_opt (c_Requests c) \<and> c_rest c = c_rest u"

lemma egressContainer_keeps: "keeps u (egressContainer r eg u)"
  by (auto simp: keeps_def egressContainer_def addVolumeMounts_def Let_def map_of_opt_def
      requests_with_def map_le_def dom_def split: option.splits)

lemma gateway_configured:
  "\<exists>pre c post. gateway_containers r eg cs = pre @ c # post \<and> configured r eg c \<and> keeps (user_gateway cs) c"
  using egressContainer_configured egressContainer_keeps
  by (cases rule: gateway_containers_cases [of cs r eg]) (metis append_Nil)+

lemma zero_gateway: "egressContainer r eg (zero_Container\<lparr>c_Name := n\<rparr>) = egressContainer r eg zero_Container"
  by (simp add: egressContainer_def zero_Container_def)

lemma egressContainer_Default [simp]: "egressContainer r (Default eg) = egressContainer r eg"
  by (rule ext) (simp add: egressContainer_def Default_def split: option.split)

lemma gateway_containers_default:
  "gateway_containers r (Default eg) cs = gateway_containers r eg cs"
  "gateway_containers r eg [zero_Container\<lparr>c_Name := ''egress-gw''\<rparr>] = gateway_containers r eg []"
  by (simp_all add: gateway_containers_def zero_gateway split: option.split)

lemma user_spec_Default:
  "user_spec (Default eg) = user_spec eg \<or> Containers (user_spec eg) = [] \<and>
    user_spec (Default eg) = (user_spec eg)\<lparr>Containers := [zero_Container\<lparr>c_Name := ''egress-gw''\<rparr>]\<rparr>"
  by (simp add: user_spec_def Default_def split: option.split)

lemma reconcilePodTemplate_Default: "reconcilePodTemplate r (Default eg) d = reconcilePodTemplate r eg d"
proof -
  have "gateway_spec r (Default eg) = gateway_spec r eg"
    using user_spec_Default [of eg] by (auto simp: gateway_spec_def gateway_containers_default)
  moreover have "user_labels (Default eg) = user_labels eg" "user_annotations (Default eg) = user_annotations eg"
      "eg_Name (Default eg) = eg_Name eg"
    by (auto simp: user_labels_def user_annotations_def Default_def split: option.split)
  ultimately show ?thesis by (simp add: reconcilePodTemplate_eq)
qed

section \<open>Deployment and Service\<close>

lemma mutate_Deployment_created:
  "\<not> dp_DeletionTimestamp d \<Longrightarrow> dp_Created d \<Longrightarrow> mutate_Deployment cl r eg d = Inr (reconcilePodTemplate r eg
    (d\<lparr>dp_Labels := Some (put_all (map_of_opt (dp_Labels d)) (selectorLabels (eg_Name eg))),
       dp_Replicas := Some (Replicas (Spec eg)),
       dp_Strategy := (case Strategy (Spec eg) of None \<Rightarrow> dp_Strategy d | Some st \<Rightarrow> st)\<rparr>))"
  by (cases d) (simp add: mutate_Deployment_def map_of_opt_def Let_def split: option.split)

lemma mutate_Deployment_new:
  "\<not> dp_DeletionTimestamp d \<Longrightarrow> \<not> dp_Created d \<Longrightarrow> mutate_Deployment cl r eg d =
    (case SetControllerReference cl eg (dp_Owner d) of Inl e \<Rightarrow> Inl e | Inr ow \<Rightarrow> Inr (reconcilePodTemplate r eg
    (d\<lparr>dp_Labels := Some (put_all (map_of_opt (dp_Labels d)) (selectorLabels (eg_Name eg))),
       dp_Owner := Some ow, dp_Selector := Some (map_of (selectorLabels (eg_Name eg))),
       dp_Replicas := Some (Replicas (Spec eg)),
       dp_Strategy := (case Strategy (Spec eg) of None \<Rightarrow> dp_Strategy d | Some st \<Rightarrow> st)\<rparr>)))"
  by (cases d) (simp add: mutate_Deployment_def map_of_opt_def Let_def split: option.split sum.split)

text \<open>The Deployment that the callback asks for.\<close>

definition deployed :: "EgressReconciler \<Rightarrow> EgressObj \<Rightarrow> Deployment \<Rightarrow> bool" where
  "deployed r eg d \<longleftrightarrow> dp_Replicas d = Some (Replicas (Spec eg)) \<and>
    (\<forall>st. Strategy (Spec eg) = Some st \<and> ds_Type st \<noteq> '''' \<longrightarrow> ds_Type (dp_Strategy d) = ds_Type st) \<and>
    map_of (selectorLabels (eg_Name eg)) \<subseteq>\<^sub>m map_of_opt (tp_Labels (dp_Template d)) \<and>
    server_fields (tp_Spec (dp_Template d)) = server_fields (gateway_spec r eg)"

lemma mutate_Deployment_deployed:
  assumes "mutate_Deployment cl r eg d = Inr d1" "stored_depl d1 d2"
  shows "dp_DeletionTimestamp d2 = dp_DeletionTimestamp d" "dp_AvailableReplicas d2 = dp_AvailableReplicas d"
    and "\<not> dp_DeletionTimestamp d \<Longrightarrow> deployed r eg d2"
    and "\<not> dp_DeletionTimestamp d \<Longrightarrow> dp_Selector d2 =
      (if dp_Created d then dp_Selector d else Some (map_of (selectorLabels (eg_Name eg))))"
  using assms
  by (cases "dp_DeletionTimestamp d"; cases "dp_Created d";
      auto simp: mutate_Deployment_created mutate_Deployment_new reconcilePodTemplate_eq stored_depl_def
        put_selector deployed_def map_of_opt_def [of "Some _"] split: sum.splits;
      simp add: mutate_Deployment_def)+

text \<open>
  What a server has stored of it is reproduced by the next call, up to what the server fills in: the
  controller does not fight the defaults.
\<close>

lemma mutate_Deployment_again:
  assumes "distinct_keys eg" "mutate_Deployment cl r eg d = Inr d1" "stored_depl d1 d2" "\<not> dp_DeletionTimestamp d"
  shows "mutate_Deployment cl r eg d2 = Inr (d2\<lparr>dp_Template := dp_Template d1,
    dp_Strategy := (case Strategy (Spec eg) of None \<Rightarrow> dp_Strategy d2 | Some st \<Rightarrow> st)\<rparr>)"
proof -
  have l: "dp_Labels d1 = Some (put_all (map_of_opt (dp_Labels d)) (selectorLabels (eg_Name eg)))"
      "dp_Replicas d1 = Some (Replicas (Spec eg))" "\<not> dp_DeletionTimestamp d1"
      "dp_Template d1 = \<lparr>tp_Labels = Some (put_all (put_all Map.empty (user_labels eg)) (selectorLabels (eg_Name eg))),
        tp_Annotations = Some (put_all (map_of_opt (tp_Annotations (dp_Template d))) (user_annotations eg)),
        tp_Spec = gateway_spec r eg\<rparr>"
    using assms(2,4) by (cases "dp_Created d";
      auto simp: mutate_Deployment_created mutate_Deployment_new reconcilePodTemplate_eq split: sum.splits)+
  from assms(3) obtain p ann st where d2: "map_of_opt ann = map_of_opt (tp_Annotations (dp_Template d1))"
      "d2 = d1\<lparr>dp_Created := True, dp_Strategy := st, dp_Template := (dp_Template d1)\<lparr>tp_Spec := p, tp_Annotations := ann\<rparr>\<rparr>"
    by (auto simp: stored_depl_def)
  show ?thesis
    using l d2 assms(1)
    by (auto simp: mutate_Deployment_created reconcilePodTemplate_eq map_of_opt_def [of "Some _"] put_all_idem
        distinct_keys_def)
qed

text \<open>The Service that the callback asks for.\<close>

definition fronted :: "EgressReconciler \<Rightarrow> EgressObj \<Rightarrow> Service \<Rightarrow> bool" where
  "fronted r eg x \<longleftrightarrow> svc_Type x = ''ClusterIP'' \<and> svc_Selector x = Some (map_of (selectorLabels (eg_Name eg))) \<and>
    svc_Ports x = [\<lparr>sp_Port = Port r, sp_TargetPort = Port r, sp_Protocol = ''UDP''\<rparr>] \<and>
    (SessionAffinity (Spec eg) \<noteq> '''' \<longrightarrow> svc_SessionAffinity x = SessionAffinity (Spec eg)) \<and>
    (SessionAffinityConfig (Spec eg) \<noteq> None \<longrightarrow> svc_SessionAffinityConfig x = SessionAffinityConfig (Spec eg))"

lemma mutate_Service_fronted:
  assumes "mutate_Service cl r eg x = Inr x1" "stored_svc x1 x2"
  shows "svc_DeletionTimestamp x2 = svc_DeletionTimestamp x" "\<not> svc_DeletionTimestamp x \<Longrightarrow> fronted r eg x2"
  using assms
  by (cases x; auto simp: mutate_Service_def Let_def stored_svc_def fronted_def split: if_splits sum.splits option.splits)+

section \<open>A reconciliation\<close>

text \<open>What the API server holds for an \<^verbatim>\<open>Egress\<close> after a successful reconciliation.\<close>

definition reconciled :: "'s k8s \<Rightarrow> EgressReconciler \<Rightarrow> EgressObj \<Rightarrow> cluster \<Rightarrow> cluster \<Rightarrow> bool" where
  "reconciled cl r eg v0 v \<longleftrightarrow> (eg_Namespace eg, SAEgress) \<in> cl_SAs v \<and>
    (\<exists>c. cl_CRBs v CRBEgress = Some c \<and> grants c (eg_Namespace eg)) \<and>
    (\<exists>d x sel. cl_depls v (eg_key eg) = Some d \<and> (\<not> dp_DeletionTimestamp d \<longrightarrow> deployed r eg d) \<and>
      (cl_depls v0 (eg_key eg) = None \<longrightarrow> dp_Selector d = Some (map_of (selectorLabels (eg_Name eg)))) \<and>
      cl_svcs v (eg_key eg) = Some x \<and> (\<not> svc_DeletionTimestamp x \<longrightarrow> fronted r eg x) \<and>
      SelectorString cl (dp_Selector d) = Inr sel \<and>
      cl_egresses v (eg_key eg) = Some (eg\<lparr>Status := \<lparr>st_Replicas = dp_AvailableReplicas d, st_Selector = sel\<rparr>\<rparr>))"

text \<open>Nothing of other \<^verbatim>\<open>Egress\<close> resources is touched.\<close>

definition only_for :: "EgressObj \<Rightarrow> cluster \<Rightarrow> cluster \<Rightarrow> bool" where
  "only_for eg v v' \<longleftrightarrow> (\<forall>n. n \<noteq> eg_key eg \<longrightarrow> cl_egresses v' n = cl_egresses v n \<and> cl_depls v' n = cl_depls v n \<and>
      cl_svcs v' n = cl_svcs v n) \<and>
    cl_SAs v' = insert (eg_Namespace eg, SAEgress) (cl_SAs v) \<and> (\<forall>name. name \<noteq> CRBEgress \<longrightarrow> cl_CRBs v' name = cl_CRBs v name)"

context k8s_laws
begin

lemma wp_reconcileServiceAccount:
  "wp (reconcileServiceAccount k ns) (\<lambda>r s'. r = Inr () \<longrightarrow>
    cview s' = (cview s)\<lparr>cl_SAs := insert (ns, SAEgress) (cl_SAs (cview s))\<rparr>) s"
  unfolding reconcileServiceAccount_def
  by (auto intro!: k8s_wp simp: wp_simps insert_absorb split: sum.splits)

lemma wp_reconcileDeployment:
  "wp (reconcileDeployment k r eg) (\<lambda>res s'. res = Inr () \<longrightarrow> (\<exists>d.
    (\<not> dp_DeletionTimestamp d \<longrightarrow> deployed r eg d) \<and>
    (cl_depls (cview s) (eg_key eg) = None \<longrightarrow> dp_Selector d = Some (map_of (selectorLabels (eg_Name eg)))) \<and>
    cview s' = (cview s)\<lparr>cl_depls := (cl_depls (cview s))(eg_key eg \<mapsto> d)\<rparr>)) s"
proof -
  have "(\<not> dp_DeletionTimestamp d2 \<longrightarrow> deployed r eg d2) \<and> (d = zero_Deployment \<longrightarrow>
      dp_Selector d2 = Some (map_of (selectorLabels (eg_Name eg))))"
    if "mutate_Deployment k r eg d = Inr d1" "stored_depl d1 d2" for d d1 d2
    using mutate_Deployment_deployed [OF that] by (auto simp: zero_Deployment_def)
  then show ?thesis
    unfolding reconcileDeployment_def
    by (fastforce intro!: law_CreateOrUpdateDeployment [THEN wp_conseq] simp: wp_simps split: sum.splits option.splits)
qed

lemma wp_reconcileService:
  "wp (reconcileService k r eg) (\<lambda>res s'. res = Inr () \<longrightarrow> (\<exists>x.
    (\<not> svc_DeletionTimestamp x \<longrightarrow> fronted r eg x) \<and>
    cview s' = (cview s)\<lparr>cl_svcs := (cl_svcs (cview s))(eg_key eg \<mapsto> x)\<rparr>)) s"
proof -
  have "\<not> svc_DeletionTimestamp x2 \<longrightarrow> fronted r eg x2"
    if "mutate_Service k r eg x = Inr x1" "stored_svc x1 x2" for x x1 x2
    using mutate_Service_fronted [OF that] by simp
  then show ?thesis
    unfolding reconcileService_def
    by (fastforce intro!: law_CreateOrUpdateService [THEN wp_conseq] simp: wp_simps split: sum.splits)
qed

lemma wp_updateStatus:
  assumes "cl_egresses (cview s) (eg_key eg) = Some eg"
  shows "wp (updateStatus k eg) (\<lambda>res s'. res = Inr () \<longrightarrow> (\<exists>d sel. cl_depls (cview s) (eg_key eg) = Some d \<and>
    SelectorString k (dp_Selector d) = Inr sel \<and> cview s' = (cview s)\<lparr>cl_egresses := (cl_egresses (cview s))
      (eg_key eg \<mapsto> eg\<lparr>Status := \<lparr>st_Replicas = dp_AvailableReplicas d, st_Selector = sel\<rparr>\<rparr>)\<rparr>)) s"
  unfolding updateStatus_def
  using assms
  by (auto intro!: k8s_wp simp: wp_simps Let_def eg_key_def fun_upd_idem split: sum.splits)

lemma wp_eg_Reconcile:
  assumes "derivative_ok k" "'''' \<notin> egress_namespaces (cview s)"
  shows "wp (eg_Reconcile k r n) (\<lambda>res s'. res = Inr () \<longrightarrow> (case cl_egresses (cview s) n of
      None \<Rightarrow> cview s' = cview s
    | Some eg \<Rightarrow> if eg_DeletionTimestamp eg then cview s' = cview s
        else reconciled k r eg (cview s) (cview s') \<and> only_for eg (cview s) (cview s'))) s"
proof -
  have main: "wp (bindE (reconcileServiceAccount k (fst (eg_key eg))) (\<lambda>_. bindE (reconcileCRB k CRBEgress) (\<lambda>_.
      bindE (reconcileDeployment k r eg) (\<lambda>_. bindE (reconcileService k r eg) (\<lambda>_. updateStatus k eg)))))
    (\<lambda>res s'. res = Inr () \<longrightarrow> reconciled k r eg (cview s) (cview s') \<and> only_for eg (cview s) (cview s')) s1"
    if eg: "cl_egresses (cview s) (eg_key eg) = Some eg" and s1: "cview s1 = cview s" for eg s1
  proof -
    have ns: "egress_namespaces (v\<lparr>cl_SAs := x\<rparr>) = egress_namespaces v" for v x
      by (simp add: egress_namespaces_def)
    have "eg_Namespace eg \<in> egress_namespaces (cview s)"
      using eg by (auto simp: egress_namespaces_def dest: ranI)
    then show ?thesis
      using eg s1 assms
      by (auto simp: wp_simps ns reconciled_def only_for_def eg_key_def
          intro!: wp_reconcileServiceAccount [THEN wp_conseq] wp_reconcileCRB_grants [THEN wp_conseq]
            wp_reconcileDeployment [THEN wp_conseq] wp_reconcileService [THEN wp_conseq]
            wp_updateStatus [THEN wp_conseq] split: sum.splits)
  qed
  show ?thesis
    unfolding eg_Reconcile_def
    by (auto intro!: law_GetEgress [THEN wp_conseq] main [THEN wp_conseq]
        simp: wp_bind wp_return wp_case_sum wp_if split: sum.splits)
qed

end

section \<open>Properties\<close>


text \<open>An \<^verbatim>\<open>Egress\<close> with a sidecar.\<close>

definition reconciler1 :: EgressReconciler where
  "reconciler1 = \<lparr>Image = ''gw:1'', Port = 5555\<rparr>"

definition sidecar :: Container where
  "sidecar = zero_Container\<lparr>c_Name := ''sidecar'', c_VolumeMounts := [\<lparr>vm_MountPath = ''/x'', vm_Name = ''data'', vm_ReadOnly = True\<rparr>]\<rparr>"

definition eg_sidecar :: EgressObj where
  "eg_sidecar = eg_nat\<lparr>Spec := (Spec eg_nat)\<lparr>Template := Some \<lparr>md_Annotations = [], md_Labels = [(''app'', ''x'')],
    tmpl_Spec = zero_PodSpec\<lparr>Containers := [sidecar], Volumes := [\<lparr>vol_Name = ''data'', vol_Source = EmptyDir\<rparr>]\<rparr>\<rparr>\<rparr>\<rparr>"

lemma eg_sidecar_keys: "distinct_keys eg_sidecar" "Containers (user_spec eg_sidecar) = [sidecar]"
    "mounts_ok (Volumes (user_spec eg_sidecar)) sidecar" "\<not> is_gateway sidecar"
  by (simp_all add: distinct_keys_def user_labels_def user_annotations_def eg_sidecar_def user_spec_def
      mounts_ok_def sidecar_def is_gateway_def)





lemma reconcile_runs:
  assumes "egs = [eg_nat]"
  shows "\<exists>s'. run_state (eg_Reconcile (mem_k8s egs) reconciler1 (''gw'', ''nat'')) (cluster0 egs) = (Inr (), s') \<and>
    map_option ClusterIP (cl_svcs s' (''gw'', ''nat'')) = Some ''10.1.2.3''"
proof -
  have key: "eg_key eg_nat = (''gw'', ''nat'')" "\<not> eg_DeletionTimestamp eg_nat"
    by (simp_all add: eg_key_def eg_nat_def)
  have c0: "cl_egresses (cluster0 egs) (''gw'', ''nat'') = Some eg_nat" "cl_depls (cluster0 egs) = Map.empty"
      "cl_svcs (cluster0 egs) = Map.empty" "ran (cl_egresses (cluster0 egs)) = {eg_nat}" "cl_SAs (cluster0 egs) = {}"
      "set egs = {eg_nat}"
    using assms key by (simp_all add: cluster0_def)
  have zero: "\<not> dp_DeletionTimestamp zero_Deployment" "\<not> dp_Created zero_Deployment" "dp_Owner zero_Deployment = None"
      "\<not> svc_DeletionTimestamp zero_Service" "\<not> svc_Created zero_Service" "svc_Owner zero_Service = None"
    by (simp_all add: zero_Deployment_def zero_Service_def)
  have lib: "SetControllerReference (mem_k8s egs) eg None = Inr (Name_String (eg_key eg))"
      "SelectorString (mem_k8s egs) l = Inr ''selector''" for eg l
    by (simp_all add: mem_k8s_def)
  show ?thesis
    by (simp add: eg_Reconcile_def reconcileServiceAccount_def reconcileCRB_def reconcileDeployment_def
        reconcileService_def updateStatus_def run_bindE mem_k8s_run Let_def cluster0_crb c0 key zero lib
        mutate_Deployment_new mutate_Service_def split: option.split)
qed


text \<open>A user's volume named \<^verbatim>\<open>modules\<close> is there twice, which the API server refuses.\<close>

lemma addVolumes_duplicate:
  "''modules'' \<in> vol_Name ` set vols \<Longrightarrow> \<not> distinct (map vol_Name (addVolumes vols))"
  by (auto simp: addVolumes_def Let_def)

lemma addVolumes_distinct:
  "''modules'' \<notin> vol_Name ` set vols \<Longrightarrow> distinct (map vol_Name vols) \<Longrightarrow> distinct (map vol_Name (addVolumes vols))"
  by (auto simp: addVolumes_def Let_def)

end
