(* ===== verification/Go_Addr.thy ===== *)
theory Go_Addr
  imports Go_Net
begin

text \<open>
  What the processes use of Go's packages \<^verbatim>\<open>net\<close> and \<^verbatim>\<open>strconv\<close> to read a listen address:
  \<^verbatim>\<open>net.SplitHostPort\<close> and \<^verbatim>\<open>strconv.Atoi\<close> (for the 64-bit \<^verbatim>\<open>int\<close> of the supported platforms).
\<close>

section \<open>Positions of a byte\<close>

fun IndexByte :: "char \<Rightarrow> string \<Rightarrow> nat option" where
  "IndexByte c [] = None"
| "IndexByte c (x # xs) = (if x = c then Some 0 else map_option Suc (IndexByte c xs))"

fun LastIndexByte :: "char \<Rightarrow> string \<Rightarrow> nat option" where
  "LastIndexByte c [] = None"
| "LastIndexByte c (x # xs) =
    (case LastIndexByte c xs of Some i \<Rightarrow> Some (Suc i) | None \<Rightarrow> if x = c then Some 0 else None)"

lemma IndexByte_None [simp]: "IndexByte c s = None \<longleftrightarrow> c \<notin> set s"
  by (induction s) auto

lemma LastIndexByte_None [simp]: "LastIndexByte c s = None \<longleftrightarrow> c \<notin> set s"
  by (induction s) (auto split: option.splits)

lemma IndexByte_Some: "IndexByte c s = Some i \<Longrightarrow> s = take i s @ c # drop (Suc i) s \<and> c \<notin> set (take i s) \<and> i < length s"
  by (induction s arbitrary: i) (auto split: if_splits)

lemma LastIndexByte_Some:
  "LastIndexByte c s = Some i \<Longrightarrow> s = take i s @ c # drop (Suc i) s \<and> c \<notin> set (drop (Suc i) s) \<and> i < length s"
  by (induction s arbitrary: i) (auto split: option.splits if_splits)

lemma IndexByte_append: "c \<notin> set u \<Longrightarrow> IndexByte c (u @ c # v) = Some (length u)"
  by (induction u) auto

lemma LastIndexByte_append: "c \<notin> set v \<Longrightarrow> LastIndexByte c (u @ c # v) = Some (length u)"
  by (induction u) (auto split: option.splits)

section \<open>Host and port\<close>

definition addrErr :: "string \<Rightarrow> string \<Rightarrow> err + 'a" where
  "addrErr addr why = Inl (OtherError (''address '' @ addr @ '': '' @ why))"

text \<open>The checks at the end; \<open>j\<close> and \<open>k\<close> are the positions before which there is no bracket.\<close>

definition split_check :: "string \<Rightarrow> nat \<Rightarrow> nat \<Rightarrow> nat \<Rightarrow> string \<Rightarrow> err + string \<times> string" where
  "split_check hostport i j k host =
    (if CHR ''['' \<in> set (drop j hostport) then addrErr hostport ''unexpected '[' in address''
     else if CHR '']'' \<in> set (drop k hostport) then addrErr hostport ''unexpected ']' in address''
     else Inr (host, drop (Suc i) hostport))"

definition SplitHostPort :: "string \<Rightarrow> err + string \<times> string" where
  "SplitHostPort hostport =
    (case LastIndexByte (CHR '':'') hostport of
       None \<Rightarrow> addrErr hostport ''missing port in address''
     | Some i \<Rightarrow>
         if hostport ! 0 = CHR ''['' then
           (case IndexByte (CHR '']'') hostport of
              None \<Rightarrow> addrErr hostport ''missing ']' in address''
            | Some e \<Rightarrow>
                if e + 1 = length hostport then addrErr hostport ''missing port in address''
                else if e + 1 = i then split_check hostport i 1 (e + 1) (drop 1 (take e hostport))
                else if hostport ! (e + 1) = CHR '':'' then addrErr hostport ''too many colons in address''
                else addrErr hostport ''missing port in address'')
         else
           let host = take i hostport in
           if CHR '':'' \<in> set host then addrErr hostport ''too many colons in address''
           else split_check hostport i 0 0 host)"

text \<open>The two forms of an address.\<close>

definition plain_part :: "string \<Rightarrow> bool" where
  "plain_part s \<longleftrightarrow> CHR ''['' \<notin> set s \<and> CHR '']'' \<notin> set s"

lemma SplitHostPort_plain:
  assumes "plain_part h" "plain_part p" "CHR '':'' \<notin> set h" "CHR '':'' \<notin> set p"
  shows "SplitHostPort (h @ '':'' @ p) = Inr (h, p)"
proof -
  have "(h @ '':'' @ p) ! 0 \<noteq> CHR ''[''" using assms(1) by (cases h) (auto simp: plain_part_def)
  then show ?thesis
    using assms LastIndexByte_append [OF assms(4), of h]
    by (simp add: SplitHostPort_def split_check_def plain_part_def Let_def)
qed

lemma SplitHostPort_bracket:
  assumes "plain_part h" "plain_part p" "CHR '':'' \<notin> set p"
  shows "SplitHostPort (''['' @ h @ '']:'' @ p) = Inr (h, p)"
proof -
  have "LastIndexByte (CHR '':'') ((''['' @ h @ '']'') @ CHR '':'' # p) = Some (length h + 2)"
    using LastIndexByte_append [OF assms(3), of "''['' @ h @ '']''"] by simp
  moreover have "IndexByte (CHR '']'') ((''['' @ h) @ CHR '']'' # '':'' @ p) = Some (length h + 1)"
    using IndexByte_append [of "CHR '']''" "''['' @ h" "'':'' @ p"] assms(1) by (simp add: plain_part_def)
  ultimately show ?thesis
    using assms by (simp add: SplitHostPort_def split_check_def plain_part_def)
qed

lemma SplitHostPort_form:
  assumes "SplitHostPort s = Inr (h, p)"
  shows "plain_part h \<and> plain_part p \<and> CHR '':'' \<notin> set p \<and>
    (s = h @ '':'' @ p \<and> CHR '':'' \<notin> set h \<or> s = ''['' @ h @ '']:'' @ p)"
proof -
  from assms obtain i where i: "LastIndexByte (CHR '':'') s = Some i"
    by (auto simp: SplitHostPort_def addrErr_def split: option.splits)
  note last = LastIndexByte_Some [OF i]
  show ?thesis
  proof (cases "s ! 0 = CHR ''[''")
    case False
    then have "h = take i s" "p = drop (Suc i) s" "CHR '':'' \<notin> set h" "plain_part s"
      using assms i by (auto simp: SplitHostPort_def split_check_def addrErr_def plain_part_def Let_def split: if_splits)
    moreover have "set s = set (take i s) \<union> {CHR '':''} \<union> set (drop (Suc i) s)"
      by (subst conjunct1 [OF last]) auto
    ultimately show ?thesis using last by (auto simp: plain_part_def)
  next
    case True
    then obtain e where e: "IndexByte (CHR '']'') s = Some e"
      using assms i by (auto simp: SplitHostPort_def addrErr_def split: option.splits)
    note first = IndexByte_Some [OF e]
    have r: "i = Suc e" "h = drop 1 (take e s)" "p = drop (Suc i) s" "CHR ''['' \<notin> set (drop 1 s)" "CHR '']'' \<notin> set (drop (Suc e) s)"
      using assms i e True by (auto simp: SplitHostPort_def split_check_def addrErr_def split: if_splits)
    have "e \<noteq> 0"
    proof
      assume "e = 0"
      with first have "s = CHR '']'' # drop 1 s" by simp
      then have "s ! 0 = CHR '']''" by (metis nth_Cons_0)
      with True show False by simp
    qed
    then obtain t where t: "take e s = CHR ''['' # t"
      using True first by (cases s; cases e) auto
    have rest: "drop (Suc e) s = CHR '':'' # p"
      using last r(1,3) by (metis Cons_nth_drop_Suc append_take_drop_id same_append_eq)
    have h: "h = t" using r(2) t by simp
    have "s = take e s @ CHR '']'' # drop (Suc e) s" using first by blast
    with rest h have s: "s = ''['' @ h @ '']:'' @ p" using t by (metis append.simps append_Cons append_assoc)
    have "CHR '']'' \<notin> set h" using first t h by auto
    moreover have "CHR ''['' \<notin> set h" "CHR ''['' \<notin> set p" using r(4) s by simp_all
    moreover have "CHR '']'' \<notin> set p" using r(5) rest by simp
    ultimately have "plain_part h" "plain_part p" by (simp_all add: plain_part_def)
    moreover have "CHR '':'' \<notin> set p" using last unfolding r(3) by blast
    ultimately show ?thesis using s by (intro conjI disjI2)
  qed
qed

section \<open>Numbers\<close>

definition is_digit :: "char \<Rightarrow> bool" where
  "is_digit c \<longleftrightarrow> digit_val c \<noteq> None"

definition dec_value :: "string \<Rightarrow> int" where
  "dec_value ds = foldl (\<lambda>n c. 10 * n + int (the (digit_val c))) 0 ds"

definition Atoi_digits :: "bool \<Rightarrow> string \<Rightarrow> string \<Rightarrow> err + int" where
  "Atoi_digits neg s ds =
    (if ds = '''' \<or> \<not> list_all is_digit ds then Inl (OtherError (''strconv.Atoi: parsing '' @ s @ '': invalid syntax''))
     else let n = (if neg then - dec_value ds else dec_value ds) in
       if - (2 ^ 63) \<le> n \<and> n < 2 ^ 63 then Inr n
       else Inl (OtherError (''strconv.Atoi: parsing '' @ s @ '': value out of range'')))"

fun Atoi :: "string \<Rightarrow> err + int" where
  "Atoi [] = Atoi_digits False [] []"
| "Atoi (c # cs) =
    (if c = CHR ''-'' then Atoi_digits True (c # cs) cs
     else if c = CHR ''+'' then Atoi_digits False (c # cs) cs
     else Atoi_digits False (c # cs) (c # cs))"

lemma Atoi_range: "Atoi s = Inr n \<Longrightarrow> - (2 ^ 63) \<le> n \<and> n < 2 ^ 63"
  by (cases s) (auto simp: Atoi_digits_def Let_def split: if_splits)

lemma digit_val_char_of: "n < 10 \<Longrightarrow> digit_val (char_of (48 + n)) = Some n"
  by (simp add: digit_val_def)

lemma dec_value_snoc: "dec_value (ds @ [c]) = 10 * dec_value ds + int (the (digit_val c))"
  by (simp add: dec_value_def)

lemma dec_string_value: "dec_value (dec_string n) = int n \<and> list_all is_digit (dec_string n) \<and> dec_string n \<noteq> ''''"
proof (induction n rule: dec_string.induct)
  case (1 n)
  show ?case
  proof (cases "n < 10")
    case True
    then show ?thesis by (simp add: dec_string.simps dec_value_def digit_val_char_of is_digit_def)
  next
    case False
    then have IH: "dec_value (dec_string (n div 10)) = int (n div 10)" "list_all is_digit (dec_string (n div 10))"
      using 1 by simp_all
    have "dec_string n = dec_string (n div 10) @ [char_of (48 + n mod 10)]"
      using False by (subst dec_string.simps) simp
    then show ?thesis
      using IH by (simp add: dec_value_snoc digit_val_char_of is_digit_def [of "char_of _"] zmod_int zdiv_int)
  qed
qed

lemma Atoi_dec_string: "int n < 2 ^ 63 \<Longrightarrow> Atoi (dec_string n) = Inr (int n)"
proof -
  assume "int n < 2 ^ 63"
  moreover obtain c cs where ds: "dec_string n = c # cs" using dec_string_value [of n] by (cases "dec_string n") auto
  moreover have "is_digit c" using dec_string_value [of n] ds by simp
  then have "c \<noteq> CHR ''-''" "c \<noteq> CHR ''+''" by (auto simp: is_digit_def digit_val_def)
  ultimately show ?thesis using dec_string_value [of n] by (simp add: Atoi_digits_def)
qed

end
