(* ===== verification/Processes.thy ===== *)
theory Processes
  imports Egress_Controller Agent Go_Addr
begin

text \<open>
  \<^verbatim>\<open>cmd/egress-gw-controller/sub/run.go\<close> and \<^verbatim>\<open>cmd/egress-gw-agent/sub/run.go\<close>: the processes of the
  controller and of the node agent, with the registration functions they call.  The manager of
  controller-runtime and the listener of the agent are parameters.
\<close>

section \<open>The manager\<close>

text \<open>
  What is handed to a manager: the reconciler of \<^verbatim>\<open>Egress\<close> with the kinds of the objects it owns, that of the
  cluster role binding with its event filter, the webhook, or the server of the agent.
\<close>

datatype 's runnable =
    EgressController "'s k8s" EgressReconciler "string list"
  | CRBController "'s k8s" "string \<Rightarrow> bool"
  | EgressWebhook
  | AgentServer string "'s egressGwAgent"

text \<open>The argument of \<open>cm_New\<close> is the address of the webhook server, if there is one.\<close>

record 's ctrl_manager =
  cm_New :: "(string \<times> int) option \<Rightarrow> ('s, unit) go"
  cm_AddHealthzCheck :: "('s, unit) go"
  cm_AddReadyzCheck :: "('s, unit) go"
  cm_GetClient :: "'s k8s"
  cm_PodSpec :: "NamespacedName \<Rightarrow> ('s, PodSpec) go"
  cm_GetPod :: "NamespacedName \<Rightarrow> ('s, pod) go"
  cm_GetService :: "NamespacedName \<Rightarrow> ('s, ServiceIP) go"
  cm_Complete :: "'s runnable \<Rightarrow> ('s, unit) go"
  cm_Start :: "('s, unit) go"

section \<open>The controller\<close>

definition EnvPodName :: string where "EnvPodName = ''EGRESS_GW_POD_NAME''"

definition SetupWithManager :: "EgressReconciler \<Rightarrow> 's ctrl_manager \<Rightarrow> ('s, unit) go" where
  "SetupWithManager r mgr = cm_Complete mgr (EgressController (cm_GetClient mgr) r [''Deployment'', ''Service''])"

definition crb_event_filter :: "string \<Rightarrow> bool" where
  "crb_event_filter name = (if name = CRBEgress then True else False)"

definition SetupCRBReconciler :: "'s ctrl_manager \<Rightarrow> ('s, unit) go" where
  "SetupCRBReconciler mgr = cm_Complete mgr (CRBController (cm_GetClient mgr) crb_event_filter)"

definition SetupWebhookWithManager :: "'s ctrl_manager \<Rightarrow> ('s, unit) go" where
  "SetupWebhookWithManager mgr = cm_Complete mgr EgressWebhook"

text \<open>The part of \<^verbatim>\<open>subMain\<close> that reads the address of the webhook.\<close>

definition webhook_addr :: "string \<Rightarrow> err + string \<times> int" where
  "webhook_addr webhookAddr =
    (case SplitHostPort webhookAddr of
       Inl e \<Rightarrow> Inl (wrap ''invalid webhook address'' e)
     | Inr (host, portStr) \<Rightarrow>
         (case Atoi portStr of
            Inl e \<Rightarrow> Inl (wrap ''invalid webhook address'' e)
          | Inr port \<Rightarrow> Inr (host, port)))"

text \<open>All but the start of the manager.\<close>

definition controller_setup :: "'s ctrl_manager \<Rightarrow> string \<Rightarrow> int \<Rightarrow> (string \<Rightarrow> string) \<Rightarrow> ('s, unit) go" where
  "controller_setup mgr webhookAddr egPort Getenv =
    (case webhook_addr webhookAddr of
       Inl e \<Rightarrow> fail e
     | Inr (host, port) \<Rightarrow>
         bindE (cm_New mgr (Some (host, port))) (\<lambda>_.
         bindE (cm_AddHealthzCheck mgr) (\<lambda>_.
         bindE (cm_AddReadyzCheck mgr) (\<lambda>_.
         bindE (GetImage (cm_PodSpec mgr) (Getenv EnvPodNamespace, Getenv EnvPodName)) (\<lambda>img.
         bindE (SetupWithManager \<lparr>Image = img, Port = egPort\<rparr> mgr) (\<lambda>_.
         bindE (SetupCRBReconciler mgr) (\<lambda>_.
         SetupWebhookWithManager mgr)))))))"

definition controller_subMain :: "'s ctrl_manager \<Rightarrow> string \<Rightarrow> int \<Rightarrow> (string \<Rightarrow> string) \<Rightarrow> ('s, unit) go" where
  "controller_subMain mgr webhookAddr egPort Getenv =
    bindE (controller_setup mgr webhookAddr egPort Getenv) (\<lambda>_. cm_Start mgr)"

section \<open>The agent\<close>

record 's sockets =
  sock_Remove :: "string \<Rightarrow> ('s, unit) go"
  sock_Listen :: "string \<Rightarrow> ('s, string) go"

definition NewEgressGwAgent :: "'s ctrl_manager \<Rightarrow> int \<Rightarrow> 's egressGwAgent" where
  "NewEgressGwAgent mgr port =
    \<lparr>apiReader_GetPod = cm_GetPod mgr, client_GetEgress = GetEgress (cm_GetClient mgr),
     client_GetService = cm_GetService mgr, egressPort = port\<rparr>"

text \<open>The error of the removal of an old socket is ignored.\<close>

definition agent_setup :: "'s ctrl_manager \<Rightarrow> 's sockets \<Rightarrow> string \<Rightarrow> int \<Rightarrow> ('s, unit) go" where
  "agent_setup mgr so socketPath port =
    bindE (cm_New mgr None) (\<lambda>_.
    bindE (cm_AddHealthzCheck mgr) (\<lambda>_.
    bindE (cm_AddReadyzCheck mgr) (\<lambda>_. do {
      _ \<leftarrow> sock_Remove so socketPath;
      bindE (sock_Listen so socketPath) (\<lambda>l.
      cm_Complete mgr (AgentServer l (NewEgressGwAgent mgr port)))
    })))"

definition agent_subMain :: "'s ctrl_manager \<Rightarrow> 's sockets \<Rightarrow> string \<Rightarrow> int \<Rightarrow> ('s, unit) go" where
  "agent_subMain mgr so socketPath port = bindE (agent_setup mgr so socketPath port) (\<lambda>_. cm_Start mgr)"

section \<open>What is registered\<close>

datatype registration =
    RegEgress EgressReconciler "string list"
  | RegCRB
  | RegWebhook
  | RegAgent string int

fun reg_of :: "'s runnable \<Rightarrow> registration" where
  "reg_of (EgressController k r kinds) = RegEgress r kinds"
| "reg_of (CRBController k f) = RegCRB"
| "reg_of EgressWebhook = RegWebhook"
| "reg_of (AgentServer l a) = RegAgent l (egressPort a)"

text \<open>
  A manager has the address of its webhook server and the parts registered with it; every call changes
  only what it is for, or fails without effect.  The reader finds the pods \<open>pods\<close>.
\<close>

record mgr_view =
  mv_webhook :: "(string \<times> int) option"
  mv_regs :: "registration list"

locale mgr_laws =
  fixes mgr :: "'s ctrl_manager" and so :: "'s sockets" and mview :: "'s \<Rightarrow> mgr_view"
    and pods :: "NamespacedName \<Rightarrow> PodSpec option"
  assumes law_New: "wp (cm_New mgr a) (\<lambda>r s'. env_err r \<and>
      mview s' = (if r = Inr () then (mview s)\<lparr>mv_webhook := a\<rparr> else mview s)) s"
    and law_Healthz: "wp (cm_AddHealthzCheck mgr) (\<lambda>r s'. env_err r \<and> mview s' = mview s) s"
    and law_Readyz: "wp (cm_AddReadyzCheck mgr) (\<lambda>r s'. env_err r \<and> mview s' = mview s) s"
    and law_PodSpec: "wp (cm_PodSpec mgr n) (\<lambda>r s'. env_err r \<and> mview s' = mview s \<and>
      (\<forall>p. r = Inr p \<longrightarrow> pods n = Some p)) s"
    and law_mgr_Complete: "wp (cm_Complete mgr x) (\<lambda>r s'. env_err r \<and>
      mview s' = (if r = Inr () then (mview s)\<lparr>mv_regs := mv_regs (mview s) @ [reg_of x]\<rparr> else mview s)) s"
    and law_sock_Remove: "wp (sock_Remove so p) (\<lambda>r s'. mview s' = mview s) s"
    and law_sock_Listen: "wp (sock_Listen so p) (\<lambda>r s'. env_err r \<and> mview s' = mview s \<and>
      (\<forall>l. r = Inr l \<longrightarrow> l = p)) s"
begin

lemmas mgr_wp = law_New [THEN wp_conseq] law_Healthz [THEN wp_conseq] law_Readyz [THEN wp_conseq]
  law_PodSpec [THEN wp_conseq] law_mgr_Complete [THEN wp_conseq] law_sock_Remove [THEN wp_conseq]
  law_sock_Listen [THEN wp_conseq]

lemma wp_controller_setup:
  assumes "webhook_addr a = Inr hp"
  shows "wp (controller_setup mgr a port Getenv) (\<lambda>r s'.
    (case r of
       Inl e \<Rightarrow> is_panic e \<longrightarrow> (\<exists>p. pods (Getenv EnvPodNamespace, Getenv EnvPodName) = Some p \<and> Containers p = [])
     | Inr _ \<Rightarrow> \<exists>p. pods (Getenv EnvPodNamespace, Getenv EnvPodName) = Some p \<and> Containers p \<noteq> [] \<and>
         mview s' = \<lparr>mv_webhook = Some hp, mv_regs = mv_regs (mview s) @
           [RegEgress \<lparr>Image = c_Image (hd (Containers p)), Port = port\<rparr> [''Deployment'', ''Service''], RegCRB, RegWebhook]\<rparr>)) s"
  using assms
  by (cases hp) (auto simp: controller_setup_def GetImage_def SetupWithManager_def SetupCRBReconciler_def
      SetupWebhookWithManager_def wp_simps intro!: mgr_wp split: sum.splits list.splits)

lemma wp_agent_setup:
  "wp (agent_setup mgr so path port) (\<lambda>r s'. env_err r \<and> (r = Inr () \<longrightarrow>
    mview s' = \<lparr>mv_webhook = None, mv_regs = mv_regs (mview s) @ [RegAgent path port]\<rparr>)) s"
  by (auto simp: agent_setup_def NewEgressGwAgent_def wp_simps intro!: mgr_wp split: sum.splits)

end

section \<open>The address of the webhook\<close>

lemma webhook_addr_form:
  assumes "webhook_addr a = Inr (h, n)"
  shows "\<exists>p. (a = h @ '':'' @ p \<and> CHR '':'' \<notin> set h \<or> a = ''['' @ h @ '']:'' @ p) \<and> Atoi p = Inr n \<and> - (2 ^ 63) \<le> n \<and> n < 2 ^ 63"
proof -
  obtain p where "SplitHostPort a = Inr (h, p)" "Atoi p = Inr n"
    using assms by (auto simp: webhook_addr_def split: sum.splits)
  then show ?thesis using SplitHostPort_form Atoi_range by blast
qed

lemma SplitHostPort_no_panic: "SplitHostPort a = Inl e \<Longrightarrow> \<not> is_panic e"
  by (auto simp: SplitHostPort_def split_check_def addrErr_def Let_def split: option.splits if_splits)

lemma Atoi_no_panic: "Atoi a = Inl e \<Longrightarrow> \<not> is_panic e"
  by (cases a) (auto simp: Atoi_digits_def Let_def split: if_splits)

lemma webhook_addr_no_panic: "webhook_addr a = Inl e \<Longrightarrow> \<not> is_panic e"
  using SplitHostPort_no_panic Atoi_no_panic by (auto simp: webhook_addr_def split: sum.splits)

section \<open>An in-memory manager\<close>

definition mem_mgr :: "(NamespacedName \<times> PodSpec) list \<Rightarrow> mgr_view k8s \<Rightarrow> mgr_view ctrl_manager" where
  "mem_mgr pods k = \<lparr>cm_New = (\<lambda>a. State (\<lambda>s. (Inr (), s\<lparr>mv_webhook := a\<rparr>))),
    cm_AddHealthzCheck = ret (), cm_AddReadyzCheck = ret (), cm_GetClient = k,
    cm_PodSpec = (\<lambda>n. State_Monad.return (case map_of pods n of None \<Rightarrow> Inl (APINotFound (snd n)) | Some p \<Rightarrow> Inr p)),
    cm_GetPod = (\<lambda>n. fail (APINotFound (snd n))), cm_GetService = (\<lambda>n. fail (APINotFound (snd n))),
    cm_Complete = (\<lambda>x. State (\<lambda>s. (Inr (), s\<lparr>mv_regs := mv_regs s @ [reg_of x]\<rparr>))), cm_Start = ret ()\<rparr>"

definition mem_sockets :: "mgr_view sockets" where
  "mem_sockets = \<lparr>sock_Remove = (\<lambda>p. fail (OtherError ''no such file'')), sock_Listen = (\<lambda>p. ret p)\<rparr>"

interpretation mem_mgr: mgr_laws "mem_mgr pods k" mem_sockets "\<lambda>s. s" "map_of pods" for pods k
  by unfold_locales (auto simp: mem_mgr_def mem_sockets_def wp_def split: option.splits)

section \<open>Properties\<close>

text \<open>
  C39. The start of the controller: a malformed webhook address is refused before anything is done; an
  address that is accepted is a host and a decimal 64-bit number after the last colon, the host in
  brackets if it contains colons.  When the start succeeds, the manager serves the webhook there and
  runs the \<^verbatim>\<open>Egress\<close> controller, with the image of the controller's own first container and the
  port of the flag, the role binding controller and the webhook; it panics only if its own pod has
  no container.
\<close>

theorem controller_setup_spec:
  assumes "mgr_laws mgr so mview pods" "run_state (controller_setup mgr a port Getenv) s = (r, s')"
    and "me = pods (Getenv EnvPodNamespace, Getenv EnvPodName)"
  shows "case webhook_addr a of
      Inl e \<Rightarrow> r = Inl e \<and> s' = s \<and> \<not> is_panic e
    | Inr (h, n) \<Rightarrow>
        (\<exists>p. (a = h @ '':'' @ p \<and> CHR '':'' \<notin> set h \<or> a = ''['' @ h @ '']:'' @ p) \<and> Atoi p = Inr n \<and> - (2 ^ 63) \<le> n \<and> n < 2 ^ 63) \<and>
        (case r of
           Inl e \<Rightarrow> is_panic e \<longrightarrow> (\<exists>p. me = Some p \<and> Containers p = [])
         | Inr _ \<Rightarrow> \<exists>p. me = Some p \<and> Containers p \<noteq> [] \<and>
             mview s' = \<lparr>mv_webhook = Some (h, n), mv_regs = mv_regs (mview s) @
               [RegEgress \<lparr>Image = c_Image (hd (Containers p)), Port = port\<rparr> [''Deployment'', ''Service''], RegCRB, RegWebhook]\<rparr>)"
proof (cases "webhook_addr a")
  case (Inl e)
  then show ?thesis
    using assms(2) webhook_addr_no_panic [OF Inl] by (simp add: controller_setup_def)
next
  case (Inr hp)
  obtain h n where hp: "hp = (h, n)" by (cases hp)
  show ?thesis
    using webhook_addr_form [of a h n] Inr assms(3) wp_runD [OF mgr_laws.wp_controller_setup [OF assms(1) Inr] assms(2)]
    by (cases r) (simp_all add: hp)
qed

definition own_pod :: PodSpec where
  "own_pod = zero_PodSpec\<lparr>Containers := [zero_Container\<lparr>c_Name := ''manager'', c_Image := ''ctl:2''\<rparr>]\<rparr>"

definition ctl_env :: "string \<Rightarrow> string" where
  "ctl_env x = (if x = EnvPodNamespace then ''kube-system'' else if x = EnvPodName then ''ctl-0'' else '''')"

lemma ctl_env_simps: "ctl_env EnvPodNamespace = ''kube-system''" "ctl_env EnvPodName = ''ctl-0''"
  by (simp_all add: ctl_env_def EnvPodNamespace_def EnvPodName_def)

lemma webhook_addr_example: "webhook_addr '':9443'' = Inr ('''', 9443)"
  by (simp add: webhook_addr_def SplitHostPort_def split_check_def Atoi_digits_def dec_value_def is_digit_def digit_val_def)

theorem controller_setup_spec_witness:
  "\<forall>k. \<exists>s'. run_state (controller_setup (mem_mgr [((''kube-system'', ''ctl-0''), own_pod)] k) '':9443'' 5555 ctl_env)
      \<lparr>mv_webhook = None, mv_regs = []\<rparr> = (Inr (), s') \<and>
    mv_regs s' = [RegEgress \<lparr>Image = ''ctl:2'', Port = 5555\<rparr> [''Deployment'', ''Service''], RegCRB, RegWebhook]"
proof
  fix k
  let ?m = "mem_mgr [((''kube-system'', ''ctl-0''), own_pod)] k"
  obtain s' where run: "run_state (controller_setup ?m '':9443'' 5555 ctl_env) \<lparr>mv_webhook = None, mv_regs = []\<rparr> = (Inr (), s')"
    by (simp add: controller_setup_def webhook_addr_example GetImage_def run_bindE SetupWithManager_def
        SetupCRBReconciler_def SetupWebhookWithManager_def mem_mgr_def ctl_env_simps own_pod_def)
  from controller_setup_spec [OF mem_mgr.mgr_laws_axioms run refl] run show "\<exists>s'. run_state (controller_setup ?m '':9443'' 5555 ctl_env)
      \<lparr>mv_webhook = None, mv_regs = []\<rparr> = (Inr (), s') \<and>
    mv_regs s' = [RegEgress \<lparr>Image = ''ctl:2'', Port = 5555\<rparr> [''Deployment'', ''Service''], RegCRB, RegWebhook]"
    by (auto simp: webhook_addr_example ctl_env_simps own_pod_def)
qed

text \<open>
  The start of the agent never panics; when it succeeds, the manager has no webhook server and runs
  the agent on the given socket and with the given port, whether or not an old socket could be removed.
\<close>

lemma agent_setup_spec:
  assumes "mgr_laws mgr so mview pods" "run_state (agent_setup mgr so path port) s = (r, s')"
  shows "(\<forall>e. r = Inl e \<longrightarrow> \<not> is_panic e) \<and>
    (r = Inr () \<longrightarrow> mview s' = \<lparr>mv_webhook = None, mv_regs = mv_regs (mview s) @ [RegAgent path port]\<rparr>)"
  using wp_runD [OF mgr_laws.wp_agent_setup [OF assms(1)] assms(2)] by (auto simp: env_err_def)

end
