(* ===== verification/Egress_Gw.thy ===== *)
theory Egress_Gw
  imports Watcher_Spec
begin

text \<open>
  \<^verbatim>\<open>cmd/egress-gw/sub/run.go\<close>: the process of a gateway pod.  It reads who it is from the environment,
  sets up the tunnel listener and the masquerading for the families of its own addresses, and hands
  a pod watcher to the controller manager.  The manager of controller-runtime is a record of
  parameters.
\<close>

section \<open>Definitions\<close>

text \<open>The loop over the addresses: the last of each family is kept.\<close>

fun local_addrs :: "string list \<Rightarrow> ip \<times> ip \<Rightarrow> err + ip \<times> ip" where
  "local_addrs [] (ipv4, ipv6) = Inr (ipv4, ipv6)"
| "local_addrs (addr # rest) (ipv4, ipv6) =
    (let n = ParseIP addr in
     if n = nil_IP then Inl (OtherError (EnvAddresses @ ''contains invalid address: '' @ addr))
     else let n4 = To4 n in
       if n4 \<noteq> nil_IP then local_addrs rest (n4, ipv6) else local_addrs rest (ipv4, n))"

record 's manager =
  NewManager :: "('s, unit) go"
  AddHealthzCheck :: "('s, unit) go"
  AddReadyzCheck :: "('s, unit) go"
  GetClient :: "NamespacedName \<Rightarrow> ('s, pod) go"
  Complete :: "'s podWatcher \<times> watch \<Rightarrow> ('s, unit) go"
  Start :: "'s podWatcher \<times> watch \<Rightarrow> ('s, unit) go"

text \<open>All of \<^verbatim>\<open>subMain\<close> but the last step, the start of the manager, which runs until it is stopped.\<close>

definition subMain_setup :: "'s netlink \<Rightarrow> 's manager \<Rightarrow> int \<Rightarrow> (string \<Rightarrow> string) \<Rightarrow> ('s, 's podWatcher \<times> watch) go" where
  "subMain_setup nl mgr port Getenv =
    (let myNS = Getenv EnvPodNamespace in
     if myNS = '''' then fail (OtherError (EnvPodNamespace @ '' environment variable must be set''))
     else let myName = Getenv EnvEgressName in
     if myName = '''' then fail (OtherError (EnvEgressName @ '' environment variable must be set''))
     else let myAddresses = Split (CHR '','') (Getenv EnvAddresses) in
     if length myAddresses = 0 then fail (OtherError (EnvAddresses @ '' environment variable must be set''))
     else case local_addrs myAddresses (nil_IP, nil_IP) of
       Inl e \<Rightarrow> fail e
     | Inr (ipv4, ipv6) \<Rightarrow>
         bindE (NewManager mgr) (\<lambda>_.
         bindE (AddHealthzCheck mgr) (\<lambda>_.
         bindE (AddReadyzCheck mgr) (\<lambda>_.
         bindE (State_Monad.return (NewFoUTunnel nl 0 port ipv4 ipv6)) (\<lambda>ft.
         bindE (ft_Init ft) (\<lambda>_.
         bindE (State_Monad.return (NewEgress nl ''eth0'' ipv4 ipv6)) (\<lambda>eg.
         bindE (eg_Init eg) (\<lambda>_.
         let w = SetupPodWatcher (GetClient mgr) myNS myName ft eg in
         bindE (Complete mgr w) (\<lambda>_. ret w)))))))))"

definition subMain :: "'s netlink \<Rightarrow> 's manager \<Rightarrow> int \<Rightarrow> (string \<Rightarrow> string) \<Rightarrow> ('s, unit) go" where
  "subMain nl mgr port Getenv = bindE (subMain_setup nl mgr port Getenv) (Start mgr)"

section \<open>The local addresses\<close>

definition has_family :: "string list \<Rightarrow> family \<Rightarrow> bool" where
  "has_family addrs f \<longleftrightarrow> (\<exists>a \<in> set addrs. ip_family (ParseIP a) = f)"

definition good_addrs :: "string list \<Rightarrow> bool" where
  "good_addrs addrs \<longleftrightarrow> (\<forall>a \<in> set addrs. ParseIP a \<noteq> nil_IP)"

lemma has_family_Cons: "has_family (a # as) f \<longleftrightarrow> ip_family (ParseIP a) = f \<or> has_family as f"
  by (auto simp: has_family_def)

text \<open>A pair of addresses that neither constructor refuses.\<close>

definition families_ok :: "ip \<times> ip \<Rightarrow> bool" where
  "families_ok p \<longleftrightarrow> (fst p \<noteq> nil_IP \<longrightarrow> To4 (fst p) \<noteq> nil_IP) \<and> (snd p \<noteq> nil_IP \<longrightarrow> To4 (snd p) = nil_IP)"

lemma local_addrs_spec:
  assumes "families_ok p"
  shows "case local_addrs addrs p of
      Inl e \<Rightarrow> \<not> good_addrs addrs \<and> \<not> is_panic e
    | Inr (v4, v6) \<Rightarrow> good_addrs addrs \<and> families_ok (v4, v6) \<and>
        (v4 \<noteq> nil_IP \<longleftrightarrow> fst p \<noteq> nil_IP \<or> has_family addrs FAMILY_V4) \<and>
        (v6 \<noteq> nil_IP \<longleftrightarrow> snd p \<noteq> nil_IP \<or> has_family addrs FAMILY_V6)"
  using assms
proof (induction addrs arbitrary: p)
  case Nil
  then show ?case by (cases p) (simp add: good_addrs_def has_family_def)
next
  case (Cons addr rest)
  obtain v4 v6 where p: "p = (v4, v6)" by (cases p)
  let ?n = "ParseIP addr"
  consider "?n = nil_IP" | "?n \<noteq> nil_IP" "To4 ?n = nil_IP" | "?n \<noteq> nil_IP" "To4 ?n \<noteq> nil_IP" by blast
  then show ?case
  proof cases
    case 1
    then show ?thesis by (simp add: p good_addrs_def)
  next
    case 2
    then have "families_ok (v4, ?n)" using Cons.prems by (simp add: families_ok_def p)
    from Cons.IH [OF this] 2 show ?thesis
      by (auto simp: p good_addrs_def has_family_Cons ip_family_def split: sum.splits)
  next
    case 3
    then have "families_ok (To4 ?n, v6)" using Cons.prems by (simp add: families_ok_def p)
    from Cons.IH [OF this] 3 show ?thesis
      by (auto simp: p good_addrs_def has_family_Cons ip_family_def split: sum.splits)
  qed
qed

section \<open>Start of the process\<close>

text \<open>
  What the two \<^verbatim>\<open>Init\<close> calls make of the kernel; each does nothing where an earlier run of the process
  in the same pod has left its dummy device.
\<close>

definition initialised :: "'s netlink \<Rightarrow> fouTunnel \<Rightarrow> egress \<Rightarrow> kview \<Rightarrow> kview \<Rightarrow> bool" where
  "initialised nl t e v v' \<longleftrightarrow> (\<exists>v1. v_rules v1 = v_rules v \<and> v_routes v1 = v_routes v \<and>
    v_links v1 egressDummy = v_links v egressDummy \<and>
    (if v_links v fouDummy = None then init_done t v v1 else v1 = v) \<and>
    (if v_links v egressDummy = None then v' = (egress_init_view nl e v1)\<lparr>v_links := v_links v'\<rparr> else v' = v1) \<and>
    v_links v' fouDummy \<noteq> None \<and> v_links v' egressDummy \<noteq> None)"

text \<open>The environment names the pod's namespace, its \<^verbatim>\<open>Egress\<close> and addresses that parse.\<close>

definition good_env :: "(string \<Rightarrow> string) \<Rightarrow> bool" where
  "good_env Getenv \<longleftrightarrow> Getenv EnvPodNamespace \<noteq> '''' \<and> Getenv EnvEgressName \<noteq> '''' \<and>
    good_addrs (Split (CHR '','') (Getenv EnvAddresses))"

text \<open>
  The watcher that is handed to the manager: it watches for this \<^verbatim>\<open>Egress\<close>, starts with empty maps, and
  its tunnels and its masquerading serve the families of the pod's addresses.
\<close>

definition gateway_process :: "'s netlink \<Rightarrow> (NamespacedName \<Rightarrow> ('s, pod) go) \<Rightarrow> int \<Rightarrow> (string \<Rightarrow> string) \<Rightarrow>
    's podWatcher \<times> watch \<Rightarrow> fouTunnel \<Rightarrow> egress \<Rightarrow> bool" where
  "gateway_process nl Get port Getenv w t e \<longleftrightarrow>
    w = (founat_watcher nl Get (Getenv EnvPodNamespace) (Getenv EnvEgressName) t e, new_watch) \<and>
    (\<forall>a. supports t a \<longleftrightarrow> has_family (Split (CHR '','') (Getenv EnvAddresses)) (ip_family a)) \<and>
    (\<forall>f. eg_serves e f \<longleftrightarrow> has_family (Split (CHR '','') (Getenv EnvAddresses)) f) \<and>
    sport t = 0 \<and> dport t = port \<and> iface e = ''eth0''"

text \<open>The manager's calls do not touch the kernel objects of the program.\<close>

locale gw_manager = netlink_api nl view "GetClient mgr"
  for nl :: "'s netlink" and view :: "'s \<Rightarrow> kview" and mgr :: "'s manager" +
  assumes law_NewManager: "wp (NewManager mgr) (\<lambda>r s'. env_err r \<and> view s' = view s) s"
    and law_AddHealthzCheck: "wp (AddHealthzCheck mgr) (\<lambda>r s'. env_err r \<and> view s' = view s) s"
    and law_AddReadyzCheck: "wp (AddReadyzCheck mgr) (\<lambda>r s'. env_err r \<and> view s' = view s) s"
    and law_Complete: "wp (Complete mgr w) (\<lambda>r s'. env_err r \<and> view s' = view s) s"
begin

lemma egress_Init_env_err: "wp (egress_Init nl e) (\<lambda>r s'. env_err r) s"
  unfolding egress_Init_def egress_Init_family_def Let_def
  by (auto intro!: wp_ops simp: wp_simps split: sum.splits)

lemma wp_subMain_setup:
  "wp (subMain_setup nl mgr port Getenv) (\<lambda>r s'.
    (\<not> good_env Getenv \<longrightarrow> (\<exists>e. r = Inl e) \<and> s' = s) \<and>
    (case r of
       Inl e \<Rightarrow> \<not> is_panic e
     | Inr w \<Rightarrow> \<exists>t e. gateway_process nl (GetClient mgr) port Getenv w t e \<and>
         initialised nl t e (view s) (view s'))) s"
proof (cases "good_env Getenv")
  case False
  then show ?thesis
    using local_addrs_spec [of "(nil_IP, nil_IP)" "Split (CHR '','') (Getenv EnvAddresses)"]
    by (auto simp: subMain_setup_def good_env_def Let_def wp_return families_ok_def split: sum.splits)
next
  case True
  let ?addrs = "Split (CHR '','') (Getenv EnvAddresses)"
  obtain v4 v6 where loc: "local_addrs ?addrs (nil_IP, nil_IP) = Inr (v4, v6)"
    using local_addrs_spec [of "(nil_IP, nil_IP)" ?addrs] True
    by (auto simp: good_env_def families_ok_def split: sum.splits)
  define t where "t = \<lparr>sport = 0, dport = port, local4 = v4, local6 = v6\<rparr>"
  define e where "e = \<lparr>iface = ''eth0'', eg_ipv4 = v4, eg_ipv6 = v6\<rparr>"
  note fam = local_addrs_spec [of "(nil_IP, nil_IP)" ?addrs, unfolded loc]
  have new: "NewFoUTunnel nl 0 port v4 v6 = Inr (as_FoUTunnel nl t)"
      "NewEgress nl ''eth0'' v4 v6 = Inr (as_Egress nl e)"
    using fam by (auto simp: NewFoUTunnel_def NewEgress_def families_ok_def t_def e_def)
  have serve: "\<forall>a. supports t a \<longleftrightarrow> has_family ?addrs (ip_family a)" "\<forall>f. eg_serves e f \<longleftrightarrow> has_family ?addrs f"
    using fam by (auto simp: families_ok_def supports_def ip_family_def t_def eg_serves_def e_def split: family.split)
  have init: "initialised nl t e v v'"
    if "v_rules v1 = v_rules v" "v_routes v1 = v_routes v"
      "\<And>n. n \<notin> insert fouDummy fallback_devices \<Longrightarrow> v_links v1 n = v_links v n"
      "v_links v1 fouDummy \<noteq> None" "if v_links v fouDummy = None then init_done t v v1 else v1 = v"
      "\<And>n. n \<notin> insert egressDummy fallback_devices \<Longrightarrow> v_links v' n = v_links v1 n"
      "v_links v' egressDummy \<noteq> None"
      "v' = (if v_links v1 egressDummy = None then (egress_init_view nl e v1)\<lparr>v_links := v_links v'\<rparr> else v1)"
    for v v1 v'
  proof -
    have "egressDummy \<notin> insert fouDummy fallback_devices" "fouDummy \<notin> insert egressDummy fallback_devices"
      by (simp_all add: egressDummy_def fouDummy_def fallback_devices_def)
    then have "v_links v1 egressDummy = v_links v egressDummy" "v_links v' fouDummy = v_links v1 fouDummy"
      using that(3,6) by blast+
    with that show ?thesis unfolding initialised_def by (intro exI [of _ v1]) (auto split: if_splits)
  qed
  let ?w = "SetupPodWatcher (GetClient mgr) (Getenv EnvPodNamespace) (Getenv EnvEgressName)
    (as_FoUTunnel nl t) (as_Egress nl e)"
  let ?Q = "\<lambda>s1 r s'. env_err r \<and> (\<forall>w. r = Inr w \<longrightarrow> w = ?w \<and> initialised nl t e (view s1) (view s'))"
  have main: "wp (bindE (fouTunnel_Init nl t) (\<lambda>_. bindE (egress_Init nl e) (\<lambda>_.
      bindE (Complete mgr ?w) (\<lambda>_. ret ?w)))) (?Q s1) s1" for s1
    by (auto intro!: wp_fouTunnel_Init [THEN wp_conseq] wp_conj [OF egress_Init_env_err wp_egress_Init, THEN wp_conseq]
        law_Complete [THEN wp_conseq] init simp: wp_bindE wp_return split: sum.splits)
  have all: "wp (subMain_setup nl mgr port Getenv) (?Q s) s"
    using True loc new
    by (auto simp: subMain_setup_def good_env_def Let_def bindE_ret
        as_FoUTunnel_def [of nl t, THEN arg_cong [of _ _ ft_Init]] as_Egress_def [of nl e, THEN arg_cong [of _ _ eg_Init]]
        wp_bindE [of "NewManager _"] wp_bindE [of "AddHealthzCheck _"] wp_bindE [of "AddReadyzCheck _"]
        intro!: law_NewManager [THEN wp_conseq] law_AddHealthzCheck [THEN wp_conseq] law_AddReadyzCheck [THEN wp_conseq]
          main [THEN wp_conseq] split: sum.splits)
  have "gateway_process nl (GetClient mgr) port Getenv ?w t e"
    using serve by (simp add: gateway_process_def founat_watcher_def SetupPodWatcher_def t_def e_def)
  then show ?thesis
    by (intro all [THEN wp_conseq]) (use True in \<open>fastforce split: sum.splits\<close>)
qed

end

section \<open>On the in-memory kernel\<close>

definition mem_manager :: "(NamespacedName \<times> pod) list \<Rightarrow> mem manager" where
  "mem_manager pods = \<lparr>NewManager = ret (), AddHealthzCheck = ret (), AddReadyzCheck = ret (),
    GetClient = mem_Get pods, Complete = (\<lambda>w. ret ()), Start = (\<lambda>w. ret ())\<rparr>"

lemma mem_manager_simps [simp]:
  "NewManager (mem_manager pods) = ret ()" "AddHealthzCheck (mem_manager pods) = ret ()"
  "AddReadyzCheck (mem_manager pods) = ret ()" "GetClient (mem_manager pods) = mem_Get pods"
  "Complete (mem_manager pods) w = ret ()"
  by (simp_all add: mem_manager_def)

interpretation mem_gw: gw_manager mem_ops mem_view "mem_manager pods" for pods
proof -
  have "netlink_api mem_ops mem_view (GetClient (mem_manager pods))"
    using mem_api.netlink_api_axioms by simp
  then show "gw_manager mem_ops mem_view (mem_manager pods)"
    by (intro gw_manager.intro gw_manager_axioms.intro) (simp_all add: wp_return)
qed

definition env1 :: "string \<Rightarrow> string" where
  "env1 x = (if x = EnvPodNamespace then ''gw'' else if x = EnvEgressName then ''nat''
    else if x = EnvAddresses then ''10.1.2.3'' else '''')"

lemma env1_simps: "env1 EnvPodNamespace = ''gw''" "env1 EnvEgressName = ''nat''" "env1 EnvAddresses = ''10.1.2.3''"
  by (simp_all add: env1_def EnvPodNamespace_def EnvEgressName_def EnvAddresses_def)

lemma env1_runs:
  "\<exists>w s'. run_state (subMain_setup mem_ops (mem_manager pods) 5555 env1) mem_init = (Inr w, s')"
proof -
  have "ipA \<noteq> nil_IP" by (simp add: ipA_def)
  then have "local_addrs (Split (CHR '','') (env1 EnvAddresses)) (nil_IP, nil_IP) = Inr ([10, 1, 2, 3], nil_IP)"
    by (simp add: env1_simps ip_AB ParseIP_A)
  then show ?thesis
    by (simp add: subMain_setup_def env1_simps bindE_ret NewFoUTunnel_def NewEgress_def as_FoUTunnel_def as_Egress_def
        fouTunnel_Init_def fouTunnel_Init4_def fouTunnel_Init6_def egress_Init_def egress_Init_family_def mem_ops_def
        mem_op_def mem_LinkByName_def mem_init_def run_bindE run_errorf modProbe_def mem_FouAdd_def mem_Sysctl_def
        mem_chain_def mem_LinkAdd_def load_module_def mem_RuleAdd_def NewLinkAttrs_def Let_def egressDummy_def fouDummy_def)
qed

section \<open>Properties\<close>

text \<open>
  C10. The start of a gateway pod never panics, and with an incomplete environment or an address that
  does not parse it fails without touching anything.  When it succeeds, listener, sysctls, checksum
  and masquerade rules are in the kernel for exactly the families of the pod's addresses (once, also
  over restarts of the process), and the watcher it starts watches for the \<^verbatim>\<open>Egress\<close> of the environment.
\<close>

theorem subMain_setup_spec:
  assumes "gw_manager nl view mgr" "run_state (subMain_setup nl mgr port Getenv) s = (r, s')"
  shows "(\<not> good_env Getenv \<longrightarrow> (\<exists>e. r = Inl e) \<and> s' = s) \<and>
    (case r of
       Inl e \<Rightarrow> \<not> is_panic e
     | Inr w \<Rightarrow> \<exists>t e. gateway_process nl (GetClient mgr) port Getenv w t e \<and>
         initialised nl t e (view s) (view s'))"
  using wp_runD [OF gw_manager.wp_subMain_setup [OF assms(1)] assms(2)] .

theorem subMain_setup_spec_witness:
  "\<exists>w s' t e. run_state (subMain_setup mem_ops (mem_manager []) 5555 env1) mem_init = (Inr w, s') \<and>
    gateway_process mem_ops (mem_Get []) 5555 env1 w t e \<and> initialised mem_ops t e (mem_view mem_init) (mem_view s')"
proof -
  obtain w s' where run: "run_state (subMain_setup mem_ops (mem_manager []) 5555 env1) mem_init = (Inr w, s')"
    using env1_runs by blast
  from subMain_setup_spec [OF mem_gw.gw_manager_axioms run] run show ?thesis by auto
qed

end
