(* ===== verification/Installer.thy ===== *)
theory Installer
  imports Netlink
begin

text \<open>
  \<^verbatim>\<open>cmd/egress-gw-installer/sub/install.go\<close>: the installer that puts the CNI configuration and the plugin's
  binary into place on a node.  The calls of package \<^verbatim>\<open>os\<close> are a record over an arbitrary state, with a
  contract in terms of a view of the file system; \<^verbatim>\<open>filepath.Join\<close> is a definition.
\<close>

section \<open>Paths\<close>

text \<open>
  One component of \<^verbatim>\<open>filepath.Clean\<close>, on the stack of the components before it, the last one first.
\<close>

definition clean_step :: "bool \<Rightarrow> string list \<Rightarrow> string \<Rightarrow> string list" where
  "clean_step rooted st c =
    (if c = '''' \<or> c = ''.'' then st
     else if c = ''..'' then
       (case st of
          [] \<Rightarrow> if rooted then [] else [''..'']
        | t # ts \<Rightarrow> if t = ''..'' then ''..'' # st else ts)
     else c # st)"

definition Clean :: "string \<Rightarrow> string" where
  "Clean p =
    (let rooted = HasPrefix p ''/'';
         comps = rev (foldl (clean_step rooted) [] (Split (CHR ''/'') p))
     in if rooted then ''/'' @ Join comps ''/'' else if comps = [] then ''.'' else Join comps ''/'')"

text \<open>\<^verbatim>\<open>filepath.Join\<close> of two elements leaves out empty ones.\<close>

definition filepath_Join :: "string \<Rightarrow> string \<Rightarrow> string" where
  "filepath_Join dir name =
    (if dir = '''' then (if name = '''' then '''' else Clean name)
     else if name = '''' then Clean dir else Clean (dir @ ''/'' @ name))"

section \<open>The calls\<close>

record DirEntry =
  de_Name :: string
  de_IsDir :: bool

text \<open>An open file is known by the path it was opened with.\<close>

record 's os =
  os_ReadFile :: "string \<Rightarrow> ('s, string) go"
  os_MkdirAll :: "string \<Rightarrow> nat \<Rightarrow> ('s, unit) go"
  os_ReadDir :: "string \<Rightarrow> ('s, DirEntry list) go"
  os_Remove :: "string \<Rightarrow> ('s, unit) go"
  os_Create :: "string \<Rightarrow> ('s, string) go"
  os_Open :: "string \<Rightarrow> ('s, string) go"
  os_CreateTemp :: "string \<Rightarrow> string \<Rightarrow> ('s, string) go"
  os_Rename :: "string \<Rightarrow> string \<Rightarrow> ('s, unit) go"
  f_Chmod :: "string \<Rightarrow> nat \<Rightarrow> ('s, unit) go"
  f_Write :: "string \<Rightarrow> string \<Rightarrow> ('s, unit) go"
  f_Sync :: "string \<Rightarrow> ('s, unit) go"
  f_Close :: "string \<Rightarrow> ('s, unit) go"
  io_Copy :: "string \<Rightarrow> string \<Rightarrow> ('s, unit) go"

text \<open>\<^verbatim>\<open>0755\<close> and \<^verbatim>\<open>0644\<close> are octal.\<close>

definition mode_0755 :: nat where "mode_0755 = 7 * 64 + 5 * 8 + 5"
definition mode_0644 :: nat where "mode_0644 = 6 * 64 + 4 * 8 + 4"

section \<open>Definitions\<close>

definition remove_entry :: "'s os \<Rightarrow> string \<Rightarrow> DirEntry \<Rightarrow> ('s, unit) go" where
  "remove_entry os cniEtcDir fi =
    (if de_IsDir fi then ret () else os_Remove os (filepath_Join cniEtcDir (de_Name fi)))"

definition installCniConf :: "'s os \<Rightarrow> string \<Rightarrow> string \<Rightarrow> string \<Rightarrow> string \<Rightarrow> ('s, unit) go" where
  "installCniConf os cniConfName cniEtcDir cniNetConf cniNetConfFile =
    bindE (if cniNetConf = '''' then os_ReadFile os cniNetConfFile else ret cniNetConf) (\<lambda>data.
    bindE (os_MkdirAll os cniEtcDir mode_0755) (\<lambda>_.
    bindE (os_ReadDir os cniEtcDir) (\<lambda>files.
    bindE (for_each (remove_entry os cniEtcDir) files) (\<lambda>_.
    bindE (os_Create os (filepath_Join cniEtcDir cniConfName)) (\<lambda>f.
    deferred
      (bindE (f_Chmod os f mode_0644) (\<lambda>_.
       bindE (f_Write os f data) (\<lambda>_.
       f_Sync os f)))
      (f_Close os f))))))"

definition installEgressGW :: "'s os \<Rightarrow> string \<Rightarrow> string \<Rightarrow> ('s, unit) go" where
  "installEgressGW os egressGWPath cniBinDir =
    bindE (os_Open os egressGWPath) (\<lambda>f.
    deferred
      (bindE (os_MkdirAll os cniBinDir mode_0755) (\<lambda>_.
       bindE (os_CreateTemp os cniBinDir ''.tmp'') (\<lambda>g.
       deferred
         (bindE (io_Copy os g f) (\<lambda>_.
          bindE (f_Chmod os g mode_0755) (\<lambda>_.
          bindE (f_Sync os g) (\<lambda>_.
          os_Rename os g (filepath_Join cniBinDir ''egress-gw-cni'')))))
         (do { _ \<leftarrow> f_Close os g; os_Remove os g }))))
      (f_Close os f))"

text \<open>
  The command: its settings are read through \<^verbatim>\<open>viper.GetString\<close>, a parameter; the pause at the end, for
  which the kubelet's scan of the directory is the reason, changes nothing.
\<close>

definition installer_RunE :: "'s os \<Rightarrow> (string \<Rightarrow> string) \<Rightarrow> ('s, unit) go" where
  "installer_RunE os GetString =
    (let cniConfName = GetString ''CNI_CONF_NAME'';
         cniEtcDir = GetString ''CNI_ETC_DIR'';
         cniBinDir = GetString ''CNI_BIN_DIR'';
         egressGWPath = GetString ''EGRESS_GW_PATH'';
         cniNetConf = GetString ''CNI_NETCONF'';
         cniNetConfFile = GetString ''CNI_NETCONF_FILE''
     in bindE (installCniConf os cniConfName cniEtcDir cniNetConf cniNetConfFile) (\<lambda>_.
        bindE (installEgressGW os egressGWPath cniBinDir) (\<lambda>_. ret ())))"

section \<open>Joined paths\<close>

definition plain_name :: "string \<Rightarrow> bool" where
  "plain_name n \<longleftrightarrow> n \<notin> {'''', ''.'', ''..''} \<and> CHR ''/'' \<notin> set n"

lemma clean_step_plain: "plain_name n \<Longrightarrow> clean_step rooted st n = n # st"
  by (simp add: clean_step_def plain_name_def)

text \<open>The components of the directory, as \<^const>\<open>Clean\<close> leaves them.\<close>

definition dir_comps :: "string \<Rightarrow> string list" where
  "dir_comps d = rev (foldl (clean_step (HasPrefix d ''/'')) [] (Split (CHR ''/'') d))"

lemma filepath_Join_plain:
  assumes "plain_name n" "d \<noteq> ''''"
  shows "filepath_Join d n = (if HasPrefix d ''/'' then ''/'' else '''') @ Join (dir_comps d @ [n]) ''/''"
proof -
  have root: "HasPrefix (d @ ''/'' @ n) ''/'' = HasPrefix d ''/''"
    using assms(2) by (cases d) (simp_all add: HasPrefix_def)
  have "Split (CHR ''/'') (d @ ''/'' @ n) = Split (CHR ''/'') d @ [n]"
    using assms(1) Split_snoc [of "CHR ''/''" n d] by (simp add: plain_name_def)
  then show ?thesis
    using assms root clean_step_plain
    by (simp add: filepath_Join_def Clean_def dir_comps_def Let_def) (auto simp: plain_name_def)
qed

lemma Clean_plain: "plain_name n \<Longrightarrow> Clean n = n"
  by (cases n) (auto simp: Clean_def plain_name_def Split_noop clean_step_def HasPrefix_def Let_def)

lemma last_filepath_Join:
  assumes "plain_name n"
  shows "last (Split (CHR ''/'') (filepath_Join d n)) = n"
proof (cases "d = ''''")
  case True
  with assms show ?thesis by (simp add: filepath_Join_def Clean_plain Split_noop) (simp add: plain_name_def Split_noop)
next
  case False
  have n: "CHR ''/'' \<notin> set n" using assms by (simp add: plain_name_def)
  have "last (Split (CHR ''/'') (u @ CHR ''/'' # n)) = n" for u using Split_snoc [OF n, of u] by simp
  moreover have "last (Split (CHR ''/'') n) = n" using n by (simp add: Split_noop)
  moreover have "filepath_Join d n = n \<or> (\<exists>u. filepath_Join d n = u @ CHR ''/'' # n)"
    by (cases "dir_comps d = []"; cases "HasPrefix d ''/''")
      (simp_all add: filepath_Join_plain [OF assms False] Join_snoc)
  ultimately show ?thesis by auto
qed

lemma filepath_Join_inj: "plain_name m \<Longrightarrow> plain_name n \<Longrightarrow> filepath_Join d m = filepath_Join d n \<Longrightarrow> m = n"
  using last_filepath_Join by metis

section \<open>The contract\<close>

text \<open>What a path leads to, by its clean form (no path goes through a symbolic link): a directory, or
  a file with its content and mode.\<close>

datatype node = Dir | File string nat

type_synonym fs = "string \<Rightarrow> node option"

definition fs_add_dirs :: "fs \<Rightarrow> fs \<Rightarrow> bool" where
  "fs_add_dirs v v' \<longleftrightarrow> (\<forall>p. v' p = v p \<or> v p = None \<and> v' p = Some Dir)"

text \<open>The configuration.\<close>

definition conf_data :: "fs \<Rightarrow> string \<Rightarrow> string \<Rightarrow> string \<Rightarrow> bool" where
  "conf_data v cniNetConf cniNetConfFile data \<longleftrightarrow>
    (if cniNetConf = '''' then \<exists>m. v (Clean cniNetConfFile) = Some (File data m) else data = cniNetConf)"

text \<open>After the files of the directory have been removed.\<close>

definition emptied :: "fs \<Rightarrow> string \<Rightarrow> fs \<Rightarrow> bool" where
  "emptied v d v' \<longleftrightarrow> (\<forall>p. v' p = v p \<or> v p = None \<and> v' p = Some Dir \<or>
    v p \<noteq> Some Dir \<and> v' p = None \<and> (\<exists>n. plain_name n \<and> p = filepath_Join d n))"

definition conf_post :: "fs \<Rightarrow> bool \<Rightarrow> fs \<Rightarrow> string \<Rightarrow> string \<Rightarrow> string \<Rightarrow> string \<Rightarrow> bool" where
  "conf_post v ok v' name d conf file \<longleftrightarrow>
    (\<exists>v1. emptied v d v1 \<and> (\<forall>p. p \<noteq> filepath_Join d name \<longrightarrow> v' p = v1 p)) \<and>
    (ok \<longrightarrow> (\<exists>data. conf_data v conf file data \<and> v' (filepath_Join d name) = Some (File data mode_0644)) \<and>
      (\<forall>n c m. plain_name n \<and> v' (filepath_Join d n) = Some (File c m) \<longrightarrow> filepath_Join d n = filepath_Join d name))"

lemma emptied_dirs: "fs_add_dirs v v' \<Longrightarrow> emptied v d v'"
  by (auto simp: emptied_def fs_add_dirs_def)

text \<open>
  After a success the target is the whole source, with mode 0755; after a failure it is what it was.
  Nothing else that was there changes, and a success leaves nothing new but directories.
\<close>

definition install_post :: "fs \<Rightarrow> bool \<Rightarrow> fs \<Rightarrow> string \<Rightarrow> string \<Rightarrow> bool" where
  "install_post v ok v' src dst \<longleftrightarrow>
    (if ok then (\<exists>c m. v (Clean src) = Some (File c m) \<and> v' dst = Some (File c mode_0755)) \<and>
       (\<forall>p. p \<noteq> dst \<longrightarrow> v' p = v p \<or> v p = None \<and> v' p = Some Dir)
     else (\<forall>p. v p \<noteq> None \<longrightarrow> v' p = v p) \<and> (v' dst = v dst \<or> v' dst = Some Dir))"

lemma install_post_dirs: "fs_add_dirs v v' \<Longrightarrow> install_post v False v' src dst"
  by (auto simp: install_post_def fs_add_dirs_def)

lemma install_post_failed:
  assumes "fs_add_dirs v v1" "v1 g = None" "g \<noteq> dst" "\<And>p. p \<noteq> g \<Longrightarrow> v' p = v1 p"
  shows "install_post v False v' src dst"
proof -
  have "v g = None" using assms(1,2) by (metis fs_add_dirs_def)
  then have "v' p = v p" if "v p \<noteq> None" for p
    using assms(1,4) that by (metis fs_add_dirs_def)
  moreover have "v' dst = v dst \<or> v' dst = Some Dir"
    using assms(1,3,4) by (metis fs_add_dirs_def)
  ultimately show ?thesis by (simp add: install_post_def)
qed

lemma install_post_done:
  assumes "fs_add_dirs v v1" "v1 g = None" "g \<noteq> dst" "v1 (Clean src) = Some (File c m)"
    and "v' = v1(g := None, dst \<mapsto> File c mode_0755) \<or> v' = v1(dst \<mapsto> File c mode_0755, g := None)"
  shows "install_post v True v' src dst"
proof -
  have v': "v' = v1(dst \<mapsto> File c mode_0755)" using assms(2,3,5) by (auto simp: fun_eq_iff)
  have "v (Clean src) = Some (File c m)" using assms(1,4) by (metis fs_add_dirs_def node.distinct(1) option.inject)
  moreover have "v1 p = v p \<or> v p = None \<and> v1 p = Some Dir" for p using assms(1) by (simp add: fs_add_dirs_def)
  ultimately show ?thesis by (simp add: install_post_def v')
qed

text \<open>
  Documented of package \<^verbatim>\<open>os\<close>: reads change nothing; \<^verbatim>\<open>MkdirAll\<close> only adds directories; \<^verbatim>\<open>Create\<close> truncates
  or makes a file; \<^verbatim>\<open>CreateTemp\<close> makes a new file in the directory whose name starts with the pattern;
  \<^verbatim>\<open>Rename\<close> replaces the target; a failed \<^verbatim>\<open>Write\<close> or \<^verbatim>\<open>Copy\<close> may leave a part of the data; other
  failed calls leave everything as it was.
\<close>

locale os_laws =
  fixes os :: "'s os" and fs :: "'s \<Rightarrow> fs"
  assumes law_ReadFile: "wp (os_ReadFile os p) (\<lambda>r s'. fs s' = fs s \<and>
      (\<forall>c. r = Inr c \<longrightarrow> (\<exists>m. fs s (Clean p) = Some (File c m)))) s"
    and law_MkdirAll: "wp (os_MkdirAll os d mode) (\<lambda>r s'. fs_add_dirs (fs s) (fs s')) s"
    and law_ReadDir: "wp (os_ReadDir os d) (\<lambda>r s'. fs s' = fs s \<and> (\<forall>es. r = Inr es \<longrightarrow>
      (\<forall>e \<in> set es. plain_name (de_Name e)) \<and> (\<forall>n isdir. plain_name n \<longrightarrow>
        (\<lparr>de_Name = n, de_IsDir = isdir\<rparr> \<in> set es \<longleftrightarrow>
          (\<exists>x. fs s (filepath_Join d n) = Some x \<and> (isdir \<longleftrightarrow> x = Dir)))))) s"
    and law_Remove: "wp (os_Remove os p) (\<lambda>r s'. fs s' = (if r = Inr () then (fs s)(p := None) else fs s)) s"
    and law_Create: "wp (os_Create os p) (\<lambda>r s'. case r of Inl _ \<Rightarrow> fs s' = fs s
      | Inr f \<Rightarrow> f = p \<and> (\<exists>m. fs s' = (fs s)(p \<mapsto> File '''' m))) s"
    and law_Open: "wp (os_Open os p) (\<lambda>r s'. fs s' = fs s \<and> (\<forall>f. r = Inr f \<longrightarrow> f = p \<and> fs s (Clean p) \<noteq> None)) s"
    and law_CreateTemp: "wp (os_CreateTemp os d pat) (\<lambda>r s'. case r of Inl _ \<Rightarrow> fs s' = fs s
      | Inr f \<Rightarrow> (\<exists>x m. f = filepath_Join d (pat @ x) \<and> plain_name (pat @ x) \<and> fs s f = None \<and>
          fs s' = (fs s)(f \<mapsto> File '''' m))) s"
    and law_Rename: "wp (os_Rename os a b) (\<lambda>r s'. fs s' =
      (if r = Inr () then (fs s)(a := None, b := fs s a) else fs s)) s"
    and law_Chmod: "wp (f_Chmod os f mode) (\<lambda>r s'. fs s' = (if r = Inr () then (fs s)(f :=
      (case fs s f of Some (File c _) \<Rightarrow> Some (File c mode) | x \<Rightarrow> x)) else fs s)) s"
    and law_Write: "fs s f = Some (File '''' m) \<Longrightarrow> wp (f_Write os f data) (\<lambda>r s'.
      \<exists>c. fs s' = (fs s)(f \<mapsto> File c m) \<and> (r = Inr () \<longrightarrow> c = data)) s"
    and law_Sync: "wp (f_Sync os f) (\<lambda>r s'. fs s' = fs s) s"
    and law_Close: "wp (f_Close os f) (\<lambda>r s'. fs s' = fs s) s"
    and law_Copy: "fs s dst = Some (File '''' m) \<Longrightarrow> dst \<noteq> Clean src \<Longrightarrow> wp (io_Copy os dst src) (\<lambda>r s'.
      \<exists>c. fs s' = (fs s)(dst \<mapsto> File c m) \<and> (r = Inr () \<longrightarrow> (\<exists>m'. fs s (Clean src) = Some (File c m')))) s"
begin

text \<open>The removal of the files of the directory.\<close>

lemma wp_remove_entries:
  "wp (for_each (remove_entry os d) es) (\<lambda>r s'.
    (\<forall>p. fs s' p = fs s p \<or> fs s' p = None \<and> (\<exists>e \<in> set es. \<not> de_IsDir e \<and> p = filepath_Join d (de_Name e))) \<and>
    (r = Inr () \<longrightarrow> (\<forall>e \<in> set es. \<not> de_IsDir e \<longrightarrow> fs s' (filepath_Join d (de_Name e)) = None))) s"
proof (induction es arbitrary: s)
  case (Cons e es)
  show ?case
    unfolding for_each.simps wp_bindE remove_entry_def [of os d e]
    by (auto simp: wp_if wp_return intro!: law_Remove [THEN wp_conseq] Cons [THEN wp_conseq] split: sum.splits if_splits)
qed (simp add: wp_return)

lemma wp_write_conf:
  "wp (bindE (os_Create os p) (\<lambda>f. deferred (bindE (f_Chmod os f mode_0644) (\<lambda>_. bindE (f_Write os f data) (\<lambda>_.
      f_Sync os f))) (f_Close os f)))
    (\<lambda>r s'. (\<forall>q. q \<noteq> p \<longrightarrow> fs s' q = fs s q) \<and> (r = Inr () \<longrightarrow> fs s' p = Some (File data mode_0644))) s"
  unfolding wp_bindE wp_deferred
proof (rule law_Create [THEN wp_conseq], goal_cases)
  case (1 r s1)
  show ?case
  proof (cases r)
    case (Inr f)
    with 1 obtain m where f: "f = p" "fs s1 = (fs s)(p \<mapsto> File '''' m)" by auto
    have "wp (f_Chmod os p mode_0644) (\<lambda>r s2. (\<forall>q. q \<noteq> p \<longrightarrow> fs s2 q = fs s q) \<and>
        (r = Inr () \<longrightarrow> fs s2 p = Some (File '''' mode_0644))) s1"
      using f by (auto intro!: law_Chmod [THEN wp_conseq])
    then show ?thesis
      unfolding Inr sum.case f(1)
    proof (rule wp_conseq, goal_cases)
      case (1 r s2)
      then show ?case
        by (cases r) (auto intro!: law_Write [THEN wp_conseq] law_Sync [THEN wp_conseq] law_Close [THEN wp_conseq] split: sum.splits)
    qed
  qed (use 1 in auto)
qed

lemma wp_clear_dir:
  assumes "fs_add_dirs v (fs s)"
  shows "wp (bindE (os_ReadDir os d) (\<lambda>files. for_each (remove_entry os d) files)) (\<lambda>r s'. emptied v d (fs s') \<and>
    (r = Inr () \<longrightarrow> (\<forall>n c m. plain_name n \<longrightarrow> fs s' (filepath_Join d n) \<noteq> Some (File c m)))) s"
  unfolding wp_bindE
proof (rule law_ReadDir [THEN wp_conseq], goal_cases)
  case (1 r s1)
  have dirs: "fs s p = v p \<or> v p = None \<and> fs s p = Some Dir" for p using assms by (simp add: fs_add_dirs_def)
  show ?case
  proof (cases r)
    case (Inl e)
    then show ?thesis using 1 assms emptied_dirs by auto
  next
    case (Inr es)
    have entry: "e \<in> set es \<longleftrightarrow> plain_name (de_Name e) \<and>
        (\<exists>x. fs s (filepath_Join d (de_Name e)) = Some x \<and> (de_IsDir e \<longleftrightarrow> x = Dir))" for e
      using 1 Inr by (cases e) auto
    show ?thesis
      unfolding Inr sum.case
    proof (rule wp_remove_entries [THEN wp_conseq], goal_cases)
      case (1 r' s2)
      have "emptied v d (fs s2)"
        unfolding emptied_def
      proof
        fix p
        show "fs s2 p = v p \<or> v p = None \<and> fs s2 p = Some Dir \<or>
            v p \<noteq> Some Dir \<and> fs s2 p = None \<and> (\<exists>n. plain_name n \<and> p = filepath_Join d n)"
          using 1 dirs [of p] entry \<open>fs s1 = fs s \<and> _\<close> by (metis option.inject)
      qed
      moreover have "fs s2 (filepath_Join d n) \<noteq> Some (File c m)" if "r' = Inr ()" "plain_name n" for n c m
      proof
        assume isfile: "fs s2 (filepath_Join d n) = Some (File c m)"
        then have "fs s (filepath_Join d n) = Some (File c m)"
          using 1 \<open>fs s1 = fs s \<and> _\<close> by (metis option.distinct(1))
        then have "\<lparr>de_Name = n, de_IsDir = False\<rparr> \<in> set es" using entry that(2) by simp
        with 1 that(1) isfile show False by fastforce
      qed
      ultimately show ?case by blast
    qed
  qed
qed

lemma wp_installCniConf:
  "wp (installCniConf os name d conf file) (\<lambda>r s'. conf_post (fs s) (r = Inr ()) (fs s') name d conf file) s"
proof -
  have start: "conf_post v False v name d conf file" for v
    unfolding conf_post_def by (auto intro!: exI [of _ v] simp: emptied_def)
  have early: "conf_post v False v' name d conf file" if "emptied v d v'" for v v'
    using that by (auto simp: conf_post_def)
  have split_loop: "bindE (os_ReadDir os d) (\<lambda>files. bindE (for_each (remove_entry os d) files) (\<lambda>_. m)) =
      bindE (bindE (os_ReadDir os d) (\<lambda>files. for_each (remove_entry os d) files)) (\<lambda>_. m)" for m :: "('s, unit) go"
    by (simp add: bindE_assoc)
  have main: "wp (bindE (os_MkdirAll os d mode_0755) (\<lambda>_. bindE (bindE (os_ReadDir os d) (\<lambda>files.
        for_each (remove_entry os d) files)) (\<lambda>_. bindE (os_Create os (filepath_Join d name)) (\<lambda>f.
        deferred (bindE (f_Chmod os f mode_0644) (\<lambda>_. bindE (f_Write os f data) (\<lambda>_. f_Sync os f))) (f_Close os f)))))
      (\<lambda>r s'. conf_post (fs s) (r = Inr ()) (fs s') name d conf file) s1"
    if "fs s1 = fs s" "conf_data (fs s) conf file data" for s1 data
    unfolding wp_bindE [of "os_MkdirAll _ _ _"]
  proof (rule law_MkdirAll [THEN wp_conseq], goal_cases)
    case (1 r s2)
    then have add: "fs_add_dirs (fs s) (fs s2)" using that by simp
    show ?case
    proof (cases r)
      case (Inr u)
      show ?thesis
        unfolding Inr sum.case wp_bindE [of "bindE _ _"]
      proof (rule wp_clear_dir [OF add, THEN wp_conseq], goal_cases)
        case (1 r3 s3)
        then show ?case
          by (cases r3) (use that early in \<open>auto intro!: wp_write_conf [THEN wp_conseq] simp: conf_post_def\<close>)
      qed
    qed (use early emptied_dirs add in auto)
  qed
  have "wp (if conf = '''' then os_ReadFile os file else ret conf) (\<lambda>r s'. fs s' = fs s \<and>
      (\<forall>data. r = Inr data \<longrightarrow> conf_data (fs s) conf file data)) s"
    by (auto simp: conf_data_def wp_return intro!: law_ReadFile [THEN wp_conseq])
  then show ?thesis
    unfolding installCniConf_def split_loop wp_bindE [of "if _ then _ else _"]
  proof (rule wp_conseq, goal_cases)
    case (1 r s1)
    then show ?case by (cases r) (use start main in auto)
  qed
qed

text \<open>
  The steps from the copy to the renaming, and the clean-up: from a file system \<open>v\<close> in which the
  temporary file \<open>g\<close> has been made.
\<close>

lemma wp_copy_rename:
  assumes "fs s = v(g \<mapsto> File '''' m)" "v g = None" "v (Clean f) \<noteq> None"
  shows "wp (bindE (io_Copy os g f) (\<lambda>_. bindE (f_Chmod os g mode) (\<lambda>_. bindE (f_Sync os g) (\<lambda>_. os_Rename os g dst))))
    (\<lambda>r s'. if r = Inr () then (\<exists>c m. v (Clean f) = Some (File c m) \<and> fs s' = v(g := None, dst \<mapsto> File c mode))
       else (\<forall>p. p \<noteq> g \<longrightarrow> fs s' p = v p)) s"
proof -
  have ne: "g \<noteq> Clean f" using assms(2,3) by auto
  have "wp (io_Copy os g f) (\<lambda>r s'. \<exists>c. fs s' = v(g \<mapsto> File c m) \<and>
      (r = Inr () \<longrightarrow> (\<exists>m'. v (Clean f) = Some (File c m')))) s"
    using law_Copy [of s g m f] assms(1) ne by (auto elim!: wp_conseq)
  then show ?thesis
    unfolding wp_bindE
    by (rule wp_conseq) (auto intro!: law_Chmod [THEN wp_conseq] law_Sync [THEN wp_conseq] law_Rename [THEN wp_conseq]
        split: sum.splits if_splits)
qed

lemma wp_cleanup:
  "wp (State_Monad.bind (f_Close os g) (\<lambda>_. os_Remove os g)) (\<lambda>r s'. fs s' = fs s \<or> fs s' = (fs s)(g := None)) s"
  unfolding wp_bind by (auto intro!: law_Close [THEN wp_conseq] law_Remove [THEN wp_conseq])

lemma wp_install_temp:
  assumes "fs s = v(g \<mapsto> File '''' m)" "v g = None" "v (Clean f) \<noteq> None"
  shows "wp (deferred (bindE (io_Copy os g f) (\<lambda>_. bindE (f_Chmod os g mode) (\<lambda>_. bindE (f_Sync os g) (\<lambda>_. os_Rename os g dst))))
      (State_Monad.bind (f_Close os g) (\<lambda>_. os_Remove os g)))
    (\<lambda>r s'. if r = Inr () then (\<exists>c m. v (Clean f) = Some (File c m) \<and>
        (fs s' = v(g := None, dst \<mapsto> File c mode) \<or> fs s' = v(dst \<mapsto> File c mode, g := None)))
       else (\<forall>p. p \<noteq> g \<longrightarrow> fs s' p = v p)) s"
  unfolding wp_deferred
proof (rule wp_copy_rename [OF assms, THEN wp_conseq], goal_cases)
  case (1 r s1)
  then show ?case
    by (intro wp_cleanup [THEN wp_conseq]) (use assms(2) in \<open>auto split: if_splits simp: fun_upd_twist\<close>)
qed

lemma wp_installEgressGW:
  "wp (installEgressGW os src d) (\<lambda>r s'. install_post (fs s) (r = Inr ()) (fs s') src (filepath_Join d ''egress-gw-cni'')) s"
  (is "wp _ ?Q s")
proof -
  let ?dst = "filepath_Join d ''egress-gw-cni''"
  have ne: "filepath_Join d (''.tmp'' @ x) \<noteq> ?dst" if "plain_name (''.tmp'' @ x)" for x
    using filepath_Join_inj [OF that, of "''egress-gw-cni''" d] by (auto simp: plain_name_def)
  have inner: "wp (deferred (bindE (io_Copy os g src) (\<lambda>_. bindE (f_Chmod os g mode_0755) (\<lambda>_. bindE (f_Sync os g) (\<lambda>_.
        os_Rename os g ?dst)))) (State_Monad.bind (f_Close os g) (\<lambda>_. os_Remove os g))) ?Q s2"
    if v: "fs_add_dirs (fs s) v" "fs s2 = v(g \<mapsto> File '''' m)" "v g = None" "v (Clean src) \<noteq> None" "g \<noteq> ?dst"
    for s2 v g m
  proof (rule wp_install_temp [OF v(2-4), THEN wp_conseq], goal_cases)
    case (1 r s')
    show ?case
    proof (cases "r = Inr ()")
      case True
      with 1 show ?thesis using install_post_done [OF v(1,3,5)] by auto
    next
      case False
      with 1 show ?thesis using install_post_failed [OF v(1,3,5)] by auto
    qed
  qed
  have temp: "wp (bindE (os_CreateTemp os d ''.tmp'') (\<lambda>g. deferred (bindE (io_Copy os g src) (\<lambda>_.
        bindE (f_Chmod os g mode_0755) (\<lambda>_. bindE (f_Sync os g) (\<lambda>_. os_Rename os g ?dst))))
        (State_Monad.bind (f_Close os g) (\<lambda>_. os_Remove os g)))) ?Q s1"
    if "fs_add_dirs (fs s) (fs s1)" "fs s1 (Clean src) \<noteq> None" for s1
    unfolding wp_bindE
  proof (rule law_CreateTemp [THEN wp_conseq], goal_cases)
    case (1 r s2)
    then show ?case
      using that install_post_dirs inner [OF that(1) _ _ that(2)] ne by (cases r) auto
  qed
  have body: "wp (bindE (os_MkdirAll os d mode_0755) (\<lambda>_. bindE (os_CreateTemp os d ''.tmp'') (\<lambda>g.
        deferred (bindE (io_Copy os g src) (\<lambda>_. bindE (f_Chmod os g mode_0755) (\<lambda>_. bindE (f_Sync os g) (\<lambda>_.
        os_Rename os g ?dst)))) (State_Monad.bind (f_Close os g) (\<lambda>_. os_Remove os g))))) ?Q s1"
    if "fs s1 = fs s" "fs s (Clean src) \<noteq> None" for s1
    unfolding wp_bindE [of "os_MkdirAll _ _ _"]
  proof (rule law_MkdirAll [THEN wp_conseq], goal_cases)
    case (1 r s2)
    then have "fs s2 (Clean src) \<noteq> None" using that by (metis fs_add_dirs_def option.distinct(1))
    with 1 show ?case using temp that(1) install_post_dirs by (cases r) auto
  qed
  show ?thesis
    unfolding installEgressGW_def wp_bindE [of "os_Open _ _"]
  proof (rule law_Open [THEN wp_conseq], goal_cases)
    case (1 r s1)
    then show ?case
      by (cases r) (auto simp: install_post_def [of _ False] wp_deferred intro!: body [THEN wp_conseq] law_Close [THEN wp_conseq])
  qed
qed

end

section \<open>An in-memory file system\<close>

type_synonym mem_fs = "(string \<times> node) list"

definition fs_call :: "(mem_fs \<Rightarrow> (mem_fs \<times> 'a) option) \<Rightarrow> (mem_fs, 'a) go" where
  "fs_call f = State (\<lambda>s. case f s of None \<Rightarrow> (Inl (OtherError ''fs''), s) | Some (s', x) \<Rightarrow> (Inr x, s'))"

definition mem_entries :: "string \<Rightarrow> mem_fs \<Rightarrow> DirEntry list" where
  "mem_entries d s = map (\<lambda>p. \<lparr>de_Name = last (Split (CHR ''/'') p), de_IsDir = (map_of s p = Some Dir)\<rparr>)
    (filter (\<lambda>p. plain_name (last (Split (CHR ''/'') p)) \<and> filepath_Join d (last (Split (CHR ''/'') p)) = p) (map fst s))"

definition put_file :: "string \<Rightarrow> (string \<times> nat \<Rightarrow> string \<times> nat) \<Rightarrow> mem_fs \<Rightarrow> (mem_fs \<times> unit) option" where
  "put_file p f s = (case map_of s p of
     Some (File c m) \<Rightarrow> Some ((p, File (fst (f (c, m))) (snd (f (c, m)))) # s, ())
   | _ \<Rightarrow> None)"

definition mem_os :: "mem_fs os" where
  "mem_os = \<lparr>os_ReadFile = (\<lambda>p. fs_call (\<lambda>s. case map_of s (Clean p) of Some (File c m) \<Rightarrow> Some (s, c) | _ \<Rightarrow> None)),
    os_MkdirAll = (\<lambda>d mode. fs_call (\<lambda>s. case map_of s (Clean d) of
      None \<Rightarrow> Some ((Clean d, Dir) # s, ()) | Some Dir \<Rightarrow> Some (s, ()) | Some (File _ _) \<Rightarrow> None)),
    os_ReadDir = (\<lambda>d. fs_call (\<lambda>s. Some (s, mem_entries d s))),
    os_Remove = (\<lambda>p. fs_call (\<lambda>s. if map_of s p = None then None else Some (filter (\<lambda>x. fst x \<noteq> p) s, ()))),
    os_Create = (\<lambda>p. fs_call (\<lambda>s. case map_of s p of Some Dir \<Rightarrow> None
      | Some (File c m) \<Rightarrow> Some ((p, File '''' m) # s, p) | None \<Rightarrow> Some ((p, File '''' mode_0644) # s, p))),
    os_Open = (\<lambda>p. fs_call (\<lambda>s. if map_of s (Clean p) = None then None else Some (s, p))),
    os_CreateTemp = (\<lambda>d pat. fs_call (\<lambda>s. let f = filepath_Join d (pat @ ''1'') in
      if plain_name (pat @ ''1'') \<and> map_of s f = None then Some ((f, File '''' 384) # s, f) else None)),
    os_Rename = (\<lambda>a b. fs_call (\<lambda>s. case map_of s a of None \<Rightarrow> None
      | Some x \<Rightarrow> Some ((b, x) # filter (\<lambda>y. fst y \<noteq> a) s, ()))),
    f_Chmod = (\<lambda>f mode. fs_call (put_file f (\<lambda>(c, _). (c, mode)))),
    f_Write = (\<lambda>f data. fs_call (put_file f (\<lambda>(c, m). (c @ data, m)))),
    f_Sync = (\<lambda>f. ret ()), f_Close = (\<lambda>f. ret ()),
    io_Copy = (\<lambda>dst src. fs_call (\<lambda>s. case map_of s (Clean src) of
      Some (File c _) \<Rightarrow> put_file dst (\<lambda>(c0, m). (c0 @ c, m)) s | _ \<Rightarrow> None))\<rparr>"

lemma map_of_removed: "map_of (filter (\<lambda>x. fst x \<noteq> p) s) = (map_of s)(p := None)"
  by (induction s) auto

lemma mem_entries_spec:
  assumes "plain_name n"
  shows "\<lparr>de_Name = n, de_IsDir = isdir\<rparr> \<in> set (mem_entries d s) \<longleftrightarrow>
    (\<exists>x. map_of s (filepath_Join d n) = Some x \<and> (isdir \<longleftrightarrow> x = Dir))"
proof -
  let ?p = "filepath_Join d n"
  have dom: "?p \<in> fst ` set s \<longleftrightarrow> (\<exists>x. map_of s ?p = Some x)"
    using map_of_eq_None_iff [of s ?p] by auto
  have "\<lparr>de_Name = n, de_IsDir = isdir\<rparr> \<in> set (mem_entries d s) \<longleftrightarrow> ?p \<in> fst ` set s \<and> isdir = (map_of s ?p = Some Dir)"
    unfolding mem_entries_def set_map set_filter
  proof
    assume "?p \<in> fst ` set s \<and> isdir = (map_of s ?p = Some Dir)"
    then show "\<lparr>de_Name = n, de_IsDir = isdir\<rparr> \<in> (\<lambda>p. \<lparr>de_Name = last (Split CHR ''/'' p), de_IsDir = (map_of s p = Some Dir)\<rparr>) `
        {p \<in> fst ` set s. plain_name (last (Split CHR ''/'' p)) \<and> filepath_Join d (last (Split CHR ''/'' p)) = p}"
      using assms last_filepath_Join [OF assms, of d] by (intro image_eqI [of _ _ ?p]) simp_all
  qed force
  with dom show ?thesis by auto
qed

lemma mem_entries_plain: "e \<in> set (mem_entries d s) \<Longrightarrow> plain_name (de_Name e)"
  by (auto simp: mem_entries_def)

lemma map_of_same: "map_of s p = Some (File c m) \<Longrightarrow> \<exists>c. map_of s = (map_of s)(p \<mapsto> File c m)"
  by (metis fun_upd_idem)

interpretation mem_os: os_laws mem_os map_of
  by unfold_locales
    (auto simp: mem_os_def fs_call_def wp_def put_file_def fs_add_dirs_def mem_entries_spec Let_def map_of_removed mem_entries_plain
      intro: map_of_same split: option.splits node.splits)

section \<open>Properties\<close>

definition disk1 :: mem_fs where
  "disk1 = [(''/host/bin/egress-gw-cni'', File ''old'' 493), (''/src/cni'', File ''new'' 420),
    (''/host/net.d/10-x.conf'', File ''x'' 420), (''/host/net.d/sub'', Dir)]"

text \<open>
  C37. The installer puts the configuration into place first: it empties the directory of files, so that
  after a success of this step the given configuration is the only file in it, and a failure may leave
  it with less; then it installs the binary, which is atomic: whatever fails, the old binary stays as it
  was beside the new configuration, and after a success it is the whole source file, executable.
\<close>

theorem installer_spec:
  assumes "os_laws os fs" "run_state (installer_RunE os get) s = (r, s')"
    and "etc = get ''CNI_ETC_DIR''" "bin = get ''CNI_BIN_DIR''"
  shows "\<exists>ok v1. conf_post (fs s) ok v1 (get ''CNI_CONF_NAME'') etc (get ''CNI_NETCONF'') (get ''CNI_NETCONF_FILE'') \<and>
    (if ok then install_post v1 (r = Inr ()) (fs s') (get ''EGRESS_GW_PATH'') (filepath_Join bin ''egress-gw-cni'')
     else r \<noteq> Inr () \<and> fs s' = v1)"
proof -
  let ?post = "\<lambda>v v' ok. conf_post v ok v' (get ''CNI_CONF_NAME'') etc (get ''CNI_NETCONF'') (get ''CNI_NETCONF_FILE'')"
  let ?Q = "\<lambda>r s'. \<exists>ok v1. ?post (fs s) v1 ok \<and>
    (if ok then install_post v1 (r = Inr ()) (fs s') (get ''EGRESS_GW_PATH'') (filepath_Join bin ''egress-gw-cni'')
     else r \<noteq> Inr () \<and> fs s' = v1)"
  have "wp (installer_RunE os get) ?Q s"
    unfolding installer_RunE_def Let_def assms(3,4) [symmetric] wp_bindE
  proof (rule os_laws.wp_installCniConf [OF assms(1), THEN wp_conseq], goal_cases)
    case (1 r1 s1)
    show ?case
    proof (cases r1)
      case (Inl e)
      with 1 show ?thesis by (auto intro!: exI [of _ False] exI [of _ "fs s1"])
    next
      case (Inr u)
      show ?thesis
        unfolding Inr sum.case
      proof (rule os_laws.wp_installEgressGW [OF assms(1), THEN wp_conseq], goal_cases)
        case (1 r2 s2)
        with \<open>conf_post _ _ _ _ _ _ _\<close> Inr show ?case
          by (cases r2) (auto simp: wp_return intro!: exI [of _ True] exI [of _ "fs s1"])
      qed
    qed
  qed
  from wp_runD [OF this assms(2)] show ?thesis .
qed

definition settings1 :: "string \<Rightarrow> string" where
  "settings1 x = (if x = ''CNI_CONF_NAME'' then ''05-cni.conflist'' else if x = ''CNI_ETC_DIR'' then ''/host/net.d''
    else if x = ''CNI_BIN_DIR'' then ''/host/bin'' else if x = ''EGRESS_GW_PATH'' then ''/src/cni''
    else if x = ''CNI_NETCONF'' then ''conf'' else '''')"

theorem installer_spec_witness:
  "\<exists>s' v1. run_state (installer_RunE mem_os settings1) disk1 = (Inr (), s') \<and>
    conf_post (map_of disk1) True v1 ''05-cni.conflist'' ''/host/net.d'' ''conf'' '''' \<and>
    install_post v1 True (map_of s') ''/src/cni'' (filepath_Join ''/host/bin'' ''egress-gw-cni'')"
proof -
  have "\<exists>s'. run_state (installer_RunE mem_os settings1) disk1 = (Inr (), s')"
    by (simp add: installer_RunE_def settings1_def installCniConf_def installEgressGW_def mem_os_def fs_call_def
        run_bindE deferred_def disk1_def put_file_def filepath_Join_def Clean_def HasPrefix_def clean_step_def
        plain_name_def Let_def mem_entries_def remove_entry_def)
  then obtain s' where run: "run_state (installer_RunE mem_os settings1) disk1 = (Inr (), s')" by blast
  from installer_spec [OF mem_os.os_laws_axioms run refl refl] run show ?thesis
    by (auto simp: settings1_def split: if_splits)
qed

end
