(* ===== verification/Command_Lines.thy ===== *)
theory Command_Lines
  imports Processes Egress_Gw Installer Cni_Plugin
begin

text \<open>
  The command lines of the three processes and the settings of the installer: \<^verbatim>\<open>sub/root.go\<close> of each command,
  \<^verbatim>\<open>version.go\<close>, and the schemes that the processes start with.  The library that parses flags is a
  parameter with a contract (locale \<open>flag_laws\<close>).
\<close>

section \<open>Flags\<close>

datatype flag_value = FString (fString: string) | FInt (fInt: int) | FDuration (fDuration: int)

text \<open>A declared flag with its name and default; \<open>GoFlag\<close> is one of another package (klog, zap).\<close>

datatype flag =
    StringVar string string
  | IntVar string int
  | Int32Var string int
  | DurationVar string int
  | GoFlag string flag_value

fun flag_name :: "flag \<Rightarrow> string" where
  "flag_name (StringVar n d) = n"
| "flag_name (IntVar n d) = n"
| "flag_name (Int32Var n d) = n"
| "flag_name (DurationVar n d) = n"
| "flag_name (GoFlag n d) = n"

fun flag_default :: "flag \<Rightarrow> flag_value" where
  "flag_default (StringVar n d) = FString d"
| "flag_default (IntVar n d) = FInt d"
| "flag_default (Int32Var n d) = FInt d"
| "flag_default (DurationVar n d) = FDuration d"
| "flag_default (GoFlag n d) = d"

fun well_typed :: "flag \<Rightarrow> flag_value \<Rightarrow> bool" where
  "well_typed (StringVar n d) v = (\<exists>x. v = FString x)"
| "well_typed (IntVar n d) v = (\<exists>x. v = FInt x \<and> - (2 ^ 63) \<le> x \<and> x < 2 ^ 63)"
| "well_typed (Int32Var n d) v = (\<exists>x. v = FInt x \<and> - (2 ^ 31) \<le> x \<and> x < 2 ^ 31)"
| "well_typed (DurationVar n d) v = (\<exists>x. v = FDuration x \<and> - (2 ^ 63) \<le> x \<and> x < 2 ^ 63)"
| "well_typed (GoFlag n d) v = True"

text \<open>
  \<^verbatim>\<open>rootCmd.Execute\<close> of cobra parses the arguments with pflag and runs the command, unless they are
  malformed, or ask for the help or the version (\<open>None\<close>).
\<close>

type_synonym flag_values = "string \<Rightarrow> flag_value"

type_synonym flag_parser = "flag list \<Rightarrow> string list \<Rightarrow> err + flag_values option"

text \<open>\<^verbatim>\<open>Execute\<close> of each command: the exit code of the process, 2 for a panic.\<close>

definition Execute :: "flag_parser \<Rightarrow> flag list \<Rightarrow> (flag_values \<Rightarrow> ('s, unit) go) \<Rightarrow> string list \<Rightarrow> ('s, nat) state" where
  "Execute parse flags RunE args =
    (case parse flags args of
       Inl e \<Rightarrow> State_Monad.return 1
     | Inr None \<Rightarrow> State_Monad.return 0
     | Inr (Some v) \<Rightarrow> do {
         r \<leftarrow> RunE v;
         State_Monad.return (case r of Inl e \<Rightarrow> if is_panic e then 2 else 1 | Inr _ \<Rightarrow> 0)
       })"

section \<open>The agent\<close>

record agent_config =
  ac_metricsAddr :: string
  ac_healthAddr :: string
  ac_protocolId :: int
  ac_socketPath :: string
  ac_egressPort :: int

definition agent_flags :: "flag list \<Rightarrow> flag list" where
  "agent_flags goflags =
    [StringVar ''metrics-addr'' '':9384'',
     StringVar ''health-addr'' '':9385'',
     IntVar ''protocol-id'' 30,
     StringVar ''socket'' DefaultSocketPath,
     IntVar ''egress-port'' 5555] @ goflags"

definition agent_config_of :: "flag_values \<Rightarrow> agent_config" where
  "agent_config_of v = \<lparr>ac_metricsAddr = fString (v ''metrics-addr''), ac_healthAddr = fString (v ''health-addr''),
    ac_protocolId = fInt (v ''protocol-id''), ac_socketPath = fString (v ''socket''), ac_egressPort = fInt (v ''egress-port'')\<rparr>"

definition agent_main :: "flag_parser \<Rightarrow> flag list \<Rightarrow> 's ctrl_manager \<Rightarrow> 's sockets \<Rightarrow> string list \<Rightarrow> ('s, nat) state" where
  "agent_main parse goflags mgr so =
    Execute parse (agent_flags goflags)
      (\<lambda>v. let config = agent_config_of v in agent_subMain mgr so (ac_socketPath config) (ac_egressPort config))"

section \<open>The controller\<close>

record controller_config =
  cc_metricsAddr :: string
  cc_healthAddr :: string
  cc_webhookAddr :: string
  cc_certDir :: string
  cc_gcInterval :: int
  cc_egressPort :: int

text \<open>A duration is a number of nanoseconds.\<close>

definition controller_flags :: "flag list \<Rightarrow> flag list" where
  "controller_flags goflags =
    [StringVar ''metrics-addr'' '':9386'',
     StringVar ''health-addr'' '':9387'',
     StringVar ''webhook-addr'' '':9443'',
     StringVar ''cert-dir'' ''/certs'',
     DurationVar ''gc-interval'' (60 * 60 * 10 ^ 9),
     Int32Var ''egress-port'' 5555] @ goflags"

definition controller_config_of :: "flag_values \<Rightarrow> controller_config" where
  "controller_config_of v = \<lparr>cc_metricsAddr = fString (v ''metrics-addr''), cc_healthAddr = fString (v ''health-addr''),
    cc_webhookAddr = fString (v ''webhook-addr''), cc_certDir = fString (v ''cert-dir''),
    cc_gcInterval = fDuration (v ''gc-interval''), cc_egressPort = fInt (v ''egress-port'')\<rparr>"

definition controller_main ::
  "flag_parser \<Rightarrow> flag list \<Rightarrow> 's ctrl_manager \<Rightarrow> (string \<Rightarrow> string) \<Rightarrow> string list \<Rightarrow> ('s, nat) state" where
  "controller_main parse goflags mgr Getenv =
    Execute parse (controller_flags goflags)
      (\<lambda>v. let config = controller_config_of v in controller_subMain mgr (cc_webhookAddr config) (cc_egressPort config) Getenv)"

section \<open>The gateway\<close>

record gateway_config =
  gc_metricsAddr :: string
  gc_healthAddr :: string
  gc_port :: int

definition gateway_flags :: "flag list \<Rightarrow> flag list" where
  "gateway_flags goflags =
    [StringVar ''metrics-addr'' '':8080'',
     StringVar ''health-addr'' '':8081'',
     IntVar ''fou-port'' 5555] @ goflags"

definition gateway_config_of :: "flag_values \<Rightarrow> gateway_config" where
  "gateway_config_of v = \<lparr>gc_metricsAddr = fString (v ''metrics-addr''), gc_healthAddr = fString (v ''health-addr''),
    gc_port = fInt (v ''fou-port'')\<rparr>"

definition gateway_main ::
  "flag_parser \<Rightarrow> flag list \<Rightarrow> 's netlink \<Rightarrow> 's manager \<Rightarrow> (string \<Rightarrow> string) \<Rightarrow> string list \<Rightarrow> ('s, nat) state" where
  "gateway_main parse goflags nl mgr Getenv =
    Execute parse (gateway_flags goflags) (\<lambda>v. let config = gateway_config_of v in subMain nl mgr (gc_port config) Getenv)"

section \<open>The installer\<close>

definition defaultCniConfName :: string where "defaultCniConfName = ''05-cilium-cni.conflist''"
definition defaultCniEtcDir :: string where "defaultCniEtcDir = ''/host/etc/cni/net.d''"
definition defaultCniBinDir :: string where "defaultCniBinDir = ''/host/opt/cni/bin''"
definition defaultEgressGWPath :: string where "defaultEgressGWPath = ''/usr/local/egress-gw/egress-gw-cni''"

text \<open>
  What \<^verbatim>\<open>initConfig\<close> tells viper: the settings that are read from the environment, and the defaults.  \<open>viper\<close>
  answers \<^verbatim>\<open>GetString\<close> from them.
\<close>

definition bound_settings :: "string list" where
  "bound_settings = [''CNI_CONF_NAME'', ''CNI_ETC_DIR'', ''CNI_BIN_DIR'', ''EGRESS_GW_PATH'', ''CNI_NETCONF_FILE'', ''CNI_NETCONF'']"

definition default_settings :: "(string \<times> string) list" where
  "default_settings = [(''CNI_CONF_NAME'', defaultCniConfName), (''CNI_ETC_DIR'', defaultCniEtcDir),
    (''CNI_BIN_DIR'', defaultCniBinDir), (''EGRESS_GW_PATH'', defaultEgressGWPath)]"

definition initConfig :: "(string list \<Rightarrow> (string \<times> string) list \<Rightarrow> string \<Rightarrow> string) \<Rightarrow> string \<Rightarrow> string" where
  "initConfig viper = viper bound_settings default_settings"

definition installer_main ::
  "flag_parser \<Rightarrow> (string list \<Rightarrow> (string \<times> string) list \<Rightarrow> string \<Rightarrow> string) \<Rightarrow> 's os \<Rightarrow> string list \<Rightarrow> ('s, nat) state" where
  "installer_main parse viper os = Execute parse [] (\<lambda>v. installer_RunE os (initConfig viper))"

section \<open>Version and schemes\<close>

definition version :: string where "version = ''0.0.0''"

text \<open>The first branch is dead.\<close>

definition Version :: "string option \<Rightarrow> string" where
  "Version ReadBuildInfo =
    (if False then
       (case ReadBuildInfo of
          None \<Rightarrow> ''(devel)''
        | Some v \<Rightarrow> if \<not> HasPrefix v ''v'' then ''(devel)'' else drop 1 v)
     else version)"

text \<open>A scheme as the kinds it knows, by group and version; that of client-go is a parameter.\<close>

type_synonym scheme = "((string \<times> string) \<times> string) list"

definition GroupVersion :: "string \<times> string" where
  "GroupVersion = (''egress.ysksuzuki.com'', ''v1beta1'')"

definition SchemeBuilder_kinds :: "string list" where
  "SchemeBuilder_kinds = [''Egress'', ''EgressList'']"

definition AddToScheme :: "scheme \<Rightarrow> scheme" where
  "AddToScheme sch = sch @ map (Pair GroupVersion) SchemeBuilder_kinds"

definition controller_scheme :: "(scheme \<Rightarrow> scheme) \<Rightarrow> scheme" where
  "controller_scheme clientgo_AddToScheme = AddToScheme (clientgo_AddToScheme [])"

definition agent_scheme :: "(scheme \<Rightarrow> scheme) \<Rightarrow> scheme" where
  "agent_scheme clientgo_AddToScheme = AddToScheme (clientgo_AddToScheme [])"

definition gateway_scheme :: "(scheme \<Rightarrow> scheme) \<Rightarrow> scheme" where
  "gateway_scheme clientgo_AddToScheme = clientgo_AddToScheme []"

lemma schemes_know_Egress:
  "(GroupVersion, ''Egress'') \<in> set (controller_scheme c)" "(GroupVersion, ''EgressList'') \<in> set (controller_scheme c)"
  "(GroupVersion, ''Egress'') \<in> set (agent_scheme c)" "fst GroupVersion = Group"
  by (simp_all add: controller_scheme_def agent_scheme_def AddToScheme_def SchemeBuilder_kinds_def GroupVersion_def Group_def)

section \<open>Parsing\<close>

definition mentions :: "string \<Rightarrow> string \<Rightarrow> bool" where
  "mentions arg n = HasPrefix arg (''--'' @ n)"

text \<open>
  Documented of pflag: a flag that no argument mentions keeps its default, and every flag has a value
  of its type.  Names are declared once.
\<close>

locale flag_laws =
  fixes parse :: flag_parser
  assumes keeps_default: "parse fs args = Inr (Some v) \<Longrightarrow> distinct (map flag_name fs) \<Longrightarrow> f \<in> set fs \<Longrightarrow>
      (\<And>a. a \<in> set args \<Longrightarrow> \<not> mentions a (flag_name f)) \<Longrightarrow> v (flag_name f) = flag_default f"
    and typed: "parse fs args = Inr (Some v) \<Longrightarrow> distinct (map flag_name fs) \<Longrightarrow> f \<in> set fs \<Longrightarrow>
      well_typed f (flag_default f) \<Longrightarrow> well_typed f (v (flag_name f))"
begin

lemma agent_port:
  assumes "parse (agent_flags goflags) args = Inr (Some v)" "distinct (map flag_name (agent_flags goflags))"
  shows "(\<And>a. a \<in> set args \<Longrightarrow> \<not> mentions a ''egress-port'') \<Longrightarrow> ac_egressPort (agent_config_of v) = 5555"
    and "(\<And>a. a \<in> set args \<Longrightarrow> \<not> mentions a ''socket'') \<Longrightarrow> ac_socketPath (agent_config_of v) = DefaultSocketPath"
  using keeps_default [OF assms, of "IntVar ''egress-port'' 5555"]
    keeps_default [OF assms, of "StringVar ''socket'' DefaultSocketPath"]
  by (simp_all add: agent_flags_def agent_config_of_def)

lemma controller_port:
  assumes "parse (controller_flags goflags) args = Inr (Some v)" "distinct (map flag_name (controller_flags goflags))"
  shows "(\<And>a. a \<in> set args \<Longrightarrow> \<not> mentions a ''egress-port'') \<Longrightarrow> cc_egressPort (controller_config_of v) = 5555"
    and "- (2 ^ 31) \<le> cc_egressPort (controller_config_of v) \<and> cc_egressPort (controller_config_of v) < 2 ^ 31"
  using keeps_default [OF assms, of "Int32Var ''egress-port'' 5555"] typed [OF assms, of "Int32Var ''egress-port'' 5555"]
  by (auto simp: controller_flags_def controller_config_of_def)

lemma gateway_port:
  assumes "parse (gateway_flags goflags) args = Inr (Some v)" "distinct (map flag_name (gateway_flags goflags))"
  shows "(\<And>a. a \<in> set args \<Longrightarrow> \<not> mentions a ''fou-port'') \<Longrightarrow> gc_port (gateway_config_of v) = 5555"
  using keeps_default [OF assms, of "IntVar ''fou-port'' 5555"]
  by (simp add: gateway_flags_def gateway_config_of_def)

end

section \<open>A parser that runs\<close>

text \<open>Flags in the form \<^verbatim>\<open>--name=value\<close>, of which the last one counts; numbers are decimal, durations are refused.\<close>

fun parse_value :: "flag \<Rightarrow> string \<Rightarrow> err + flag_value" where
  "parse_value (StringVar n d) s = Inr (FString s)"
| "parse_value (IntVar n d) s = (case Atoi s of Inl e \<Rightarrow> Inl e | Inr x \<Rightarrow> Inr (FInt x))"
| "parse_value (Int32Var n d) s = (case Atoi s of Inl e \<Rightarrow> Inl e
    | Inr x \<Rightarrow> if - (2 ^ 31) \<le> x \<and> x < 2 ^ 31 then Inr (FInt x) else Inl (OtherError ''value out of range''))"
| "parse_value (DurationVar n d) s = Inl (OtherError ''invalid duration'')"
| "parse_value (GoFlag n d) s = Inr (FString s)"

definition mem_value :: "string list \<Rightarrow> flag \<Rightarrow> err + flag_value" where
  "mem_value args f = (case find (\<lambda>a. HasPrefix a (''--'' @ flag_name f @ ''='')) (rev args) of
     None \<Rightarrow> Inr (flag_default f)
   | Some a \<Rightarrow> parse_value f (drop (length (flag_name f) + 3) a))"

definition mem_parse :: flag_parser where
  "mem_parse fs args =
    (if ''--help'' \<in> set args then Inr None
     else if \<forall>f \<in> set fs. \<exists>x. mem_value args f = Inr x then
       Inr (Some (\<lambda>n. case find (\<lambda>f. flag_name f = n) fs of
         None \<Rightarrow> FString [] | Some f \<Rightarrow> (case mem_value args f of Inl _ \<Rightarrow> FString [] | Inr x \<Rightarrow> x)))
     else Inl (OtherError ''invalid argument''))"

lemma find_flag: "distinct (map flag_name fs) \<Longrightarrow> f \<in> set fs \<Longrightarrow> find (\<lambda>g. flag_name g = flag_name f) fs = Some f"
  by (induction fs) auto

lemma parse_value_typed: "parse_value f s = Inr x \<Longrightarrow> well_typed f x"
  using Atoi_range by (cases f) (auto split: sum.splits if_splits)

interpretation mem_flags: flag_laws mem_parse
proof (unfold_locales, goal_cases)
  case (1 fs args v f)
  have "mem_value args f = Inr (flag_default f)"
  proof -
    have "\<not> HasPrefix a (''--'' @ flag_name f @ ''='')" if "a \<in> set args" for a
      using 1(4) [OF that] by (auto simp: mentions_def HasPrefix_iff)
    then have "find (\<lambda>a. HasPrefix a (''--'' @ flag_name f @ ''='')) (rev args) = None"
      unfolding find_None_iff by simp
    then show ?thesis by (simp add: mem_value_def)
  qed
  then show ?case using 1(1) find_flag [OF 1(2,3)] by (auto simp: mem_parse_def split: if_splits)
next
  case (2 fs args v f)
  obtain x where x: "mem_value args f = Inr x" using 2(1,3) by (auto simp: mem_parse_def split: if_splits)
  then have "well_typed f x" using 2(4) parse_value_typed by (auto simp: mem_value_def split: option.splits)
  moreover have "v (flag_name f) = x" using 2(1) find_flag [OF 2(2,3)] x by (auto simp: mem_parse_def split: if_splits)
  ultimately show ?case by simp
qed

end
