(* ===== verification/Watcher_Workers.thy ===== *)
theory Watcher_Workers
  imports Watcher_Spec
begin

text \<open>
  Several workers of the pod watcher at once.  A worker first reads the pod, without the mutex of
  \<^verbatim>\<open>podWatcher\<close>, and then runs \<^verbatim>\<open>addPod\<close>, \<^verbatim>\<open>delTerminatedPod\<close> or \<^verbatim>\<open>delPod\<close> on what it has read, with the mutex held from
  the first statement to the return, whatever it returns.  Between its steps other workers read pods or
  wait for the mutex, and the world moves without touching the tunnels, so that the pod a worker acts on
  can be an old one.
\<close>

section \<open>Steps of a worker\<close>

datatype phase =
    Idle
  | Fetched NamespacedName "err + pod"
  | Holding NamespacedName "err + pod"

record 's workers =
  wk_state :: "'s \<times> watch"
  wk_owner :: "nat option"
  wk_phase :: "nat \<Rightarrow> phase"

datatype label = Fetch nat | Skip nat | Acquire nat | Section nat "watch \<times> (err + unit)" | World

inductive wstep :: "'s podWatcher \<Rightarrow> ('s \<Rightarrow> string set) \<Rightarrow> label \<Rightarrow> 's workers \<Rightarrow> 's workers \<Rightarrow> bool"
  for r tunnels where
  fetch: "wk_phase x i = Idle \<Longrightarrow> run_state (on_kernel (pw_Get r req)) (wk_state x) = (res, \<sigma>) \<Longrightarrow>
    wstep r tunnels (Fetch i) x (x\<lparr>wk_state := \<sigma>, wk_phase := (wk_phase x)(i := Fetched req res)\<rparr>)"
| skip: "wk_phase x i = Fetched req res \<Longrightarrow> \<not> locks r res \<Longrightarrow>
    wstep r tunnels (Skip i) x (x\<lparr>wk_phase := (wk_phase x)(i := Idle)\<rparr>)"
| acquire: "wk_phase x i = Fetched req res \<Longrightarrow> locks r res \<Longrightarrow> wk_owner x = None \<Longrightarrow>
    wstep r tunnels (Acquire i) x (x\<lparr>wk_owner := Some i, wk_phase := (wk_phase x)(i := Holding req res)\<rparr>)"
| run: "wk_phase x i = Holding req res \<Longrightarrow> run_state (handle r req res) (wk_state x) = (out, \<sigma>) \<Longrightarrow>
    wstep r tunnels (Section i (snd (wk_state x), out)) x
      (x\<lparr>wk_state := \<sigma>, wk_owner := None, wk_phase := (wk_phase x)(i := Idle)\<rparr>)"
| world: "wk_state x = (s, w) \<Longrightarrow> tunnels s' = tunnels s \<Longrightarrow> wstep r tunnels World x (x\<lparr>wk_state := (s', w)\<rparr>)"

inductive_cases wstepE: "wstep r tunnels l x y"

text \<open>The locked sections may be restricted to those with an outcome that \<open>allow\<close> admits.\<close>

fun allowed :: "(watch \<Rightarrow> err + unit \<Rightarrow> bool) \<Rightarrow> label \<Rightarrow> bool" where
  "allowed allow (Section i (w, out)) = allow w out"
| "allowed allow l = True"

definition idle_workers :: "'s \<Rightarrow> 's workers" where
  "idle_workers s = \<lparr>wk_state = (s, new_watch), wk_owner = None, wk_phase = (\<lambda>i. Idle)\<rparr>"

inductive wreach :: "'s podWatcher \<Rightarrow> ('s \<Rightarrow> string set) \<Rightarrow> (watch \<Rightarrow> err + unit \<Rightarrow> bool) \<Rightarrow> 's workers \<Rightarrow> bool"
  for r tunnels allow where
  idle: "wreach r tunnels allow (idle_workers s)"
| step: "wreach r tunnels allow x \<Longrightarrow> wstep r tunnels l x y \<Longrightarrow> allowed allow l \<Longrightarrow> wreach r tunnels allow y"

text \<open>A whole reconciliation, with nothing in between, is one way to go.\<close>

lemma wreach_Reconcile:
  assumes x: "wreach r tunnels allow x" "wk_phase x i = Idle" "wk_owner x = None"
    and run: "run_state (Reconcile r req) (wk_state x) = (out, \<sigma>)" and allow: "\<And>w. allow w out"
  shows "wreach r tunnels allow (x\<lparr>wk_state := \<sigma>\<rparr>)"
proof -
  obtain res \<sigma>1 where get: "run_state (on_kernel (pw_Get r req)) (wk_state x) = (res, \<sigma>1)" by (metis surj_pair)
  with run have handle: "run_state (handle r req res) \<sigma>1 = (out, \<sigma>)" by (simp add: Reconcile_handle)
  let ?f = "x\<lparr>wk_state := \<sigma>1, wk_phase := (wk_phase x)(i := Fetched req res)\<rparr>"
  have f: "wreach r tunnels allow ?f" by (rule wreach.step [OF x(1) wstep.fetch [OF x(2) get]]) simp
  have idle: "(wk_phase x)(i := Idle) = wk_phase x" using x(2) by auto
  show ?thesis
  proof (cases "locks r res")
    case False
    with handle have "\<sigma>1 = \<sigma>" by (simp add: handle_unlocked)
    moreover have "wreach r tunnels allow (?f\<lparr>wk_phase := (wk_phase ?f)(i := Idle)\<rparr>)"
      by (rule wreach.step [OF f wstep.skip [of _ _ req res, OF _ False]]) simp_all
    ultimately show ?thesis by (simp add: idle)
  next
    case True
    let ?h = "?f\<lparr>wk_owner := Some i, wk_phase := (wk_phase ?f)(i := Holding req res)\<rparr>"
    have h: "wreach r tunnels allow ?h"
      by (rule wreach.step [OF f wstep.acquire [of _ _ req res, OF _ True]]) (simp_all add: x(3))
    have "wreach r tunnels allow (?h\<lparr>wk_state := \<sigma>, wk_owner := None, wk_phase := (wk_phase ?h)(i := Idle)\<rparr>)"
      by (rule wreach.step [OF h wstep.run [of _ _ req res _ out \<sigma>]]) (simp_all add: handle allow)
    moreover have "?h\<lparr>wk_state := \<sigma>, wk_owner := None, wk_phase := (wk_phase ?h)(i := Idle)\<rparr> = x\<lparr>wk_state := \<sigma>\<rparr>"
      using x(3) idle by (cases x) simp
    ultimately show ?thesis by simp
  qed
qed

section \<open>The mutex\<close>

fun holds :: "phase \<Rightarrow> bool" where
  "holds Idle = False"
| "holds (Fetched req res) = False"
| "holds (Holding req res) = True"

definition exclusive :: "'s workers \<Rightarrow> bool" where
  "exclusive x \<longleftrightarrow> (\<forall>i. holds (wk_phase x i) \<longleftrightarrow> wk_owner x = Some i)"

lemma exclusive_step: "wstep r tunnels l x y \<Longrightarrow> exclusive x \<Longrightarrow> exclusive y"
proof (induction rule: wstep.induct)
  case (run x i req res out \<sigma>)
  then have "wk_owner x = Some i" by (metis exclusive_def holds.simps(3))
  with run show ?case by (auto simp: exclusive_def)
qed (auto simp: exclusive_def split: if_splits, (metis holds.simps)+)

lemma wreach_exclusive: "wreach r tunnels allow x \<Longrightarrow> exclusive x"
proof (induction rule: wreach.induct)
  case (idle s)
  show ?case by (simp add: exclusive_def idle_workers_def)
qed (rule exclusive_step)

section \<open>Invariants\<close>

context gateway
begin

lemma fetch_keeps:
  assumes "run_state (on_kernel (pw_Get r req)) (s, w) = (res, \<sigma>)"
  shows "snd \<sigma> = w \<and> tunnels (fst \<sigma>) = tunnels s"
proof -
  have "wp (on_kernel (pw_Get r req)) (\<lambda>res \<sigma>. snd \<sigma> = w \<and> tunnels (fst \<sigma>) = tunnels s) (s, w)"
    unfolding wp_on_kernel by (rule get_keeps [THEN wp_conseq]) simp
  from wp_runD [OF this assms] show ?thesis .
qed

lemma wreach_consistent: "wreach r tunnels allow x \<Longrightarrow> \<exists>K. finite K \<and> consistent K (snd (wk_state x))"
proof (induction rule: wreach.induct)
  case (step x l y)
  then obtain K where K: "finite K" "consistent K (snd (wk_state x))" by blast
  from step.hyps(2) show ?case
  proof cases
    case (fetch i req res \<sigma>)
    with K fetch_keeps [of req "fst (wk_state x)" "snd (wk_state x)" res \<sigma>] show ?thesis by auto
  next
    case (run i req res out \<sigma>)
    with wp_runD [OF handle_consistent [OF K(2), of req res "fst (wk_state x)"], of out \<sigma>] K(1) show ?thesis
      by (cases out) auto
  qed (use K in auto)
qed (auto simp: idle_workers_def intro: exI [of _ "{}"])

lemma wreach_connected:
  assumes "wreach r tunnels (\<lambda>w out. out = Inr () \<and> distinct_addrs w) x"
  shows "consistent {} (snd (wk_state x)) \<and> connected served (tunnels (fst (wk_state x))) (snd (wk_state x))"
  using assms
proof (induction rule: wreach.induct)
  case (step x l y)
  then have K: "consistent {} (snd (wk_state x))" "connected served (tunnels (fst (wk_state x))) (snd (wk_state x))"
    by blast+
  from step.hyps(2) show ?case
  proof cases
    case (fetch i req res \<sigma>)
    with K fetch_keeps [of req "fst (wk_state x)" "snd (wk_state x)" res \<sigma>] show ?thesis by auto
  next
    case (run i req res out \<sigma>)
    then have out: "out = Inr ()" "distinct_addrs (snd (wk_state x))" using step.hyps(3) by simp_all
    with run wp_runD [OF handle_consistent [OF K(1), of req res "fst (wk_state x)"], of out \<sigma>]
      wp_runD [OF handle_connected [OF K(2,1) out(2), of req res], of out \<sigma>] show ?thesis by simp
  qed (use K in auto)
qed (simp add: idle_workers_def)

end

section \<open>Work that was begun ends\<close>

text \<open>The steps without new requests; the world may move.\<close>

fun own_step :: "label \<Rightarrow> bool" where
  "own_step (Fetch i) = False"
| "own_step World = False"
| "own_step l = True"

fun weight :: "phase \<Rightarrow> nat" where
  "weight Idle = 0"
| "weight (Holding req res) = 1"
| "weight (Fetched req res) = 2"

definition work :: "nat \<Rightarrow> 's workers \<Rightarrow> nat" where
  "work n x = (\<Sum>i < n. weight (wk_phase x i))"

lemma work_update:
  assumes "i < n" "weight p < weight (wk_phase x i)" "wk_phase y = (wk_phase x)(i := p)"
  shows "work n y < work n x"
  unfolding work_def
proof (rule sum_strict_mono_ex1)
  show "\<forall>j \<in> {..<n}. weight (wk_phase y j) \<le> weight (wk_phase x j)" using assms(2,3) by auto
  show "\<exists>j \<in> {..<n}. weight (wk_phase y j) < weight (wk_phase x j)" using assms by (intro bexI [of _ i]) auto
qed simp

text \<open>Workers from \<open>n\<close> on do nothing.\<close>

definition only :: "nat \<Rightarrow> 's workers \<Rightarrow> bool" where
  "only n x \<longleftrightarrow> (\<forall>i \<ge> n. wk_phase x i = Idle)"

lemma own_step_decreases:
  assumes "wstep r tunnels l x y" "own_step l" "only n x"
  shows "only n y \<and> work n y < work n x"
proof -
  have lt: "i < n" if "wk_phase x i \<noteq> Idle" for i using assms(3) that by (meson not_le only_def)
  from assms(1,2) show ?thesis
    using assms(3) lt by (cases rule: wstep.cases) (auto simp: only_def intro!: work_update)
qed

lemma world_keeps: "wstep r tunnels World x y \<Longrightarrow> only n x \<Longrightarrow> only n y \<and> work n y = work n x"
  by (erule wstep.cases) (auto simp: only_def work_def)

text \<open>A run without new requests, with the number of the workers' own steps.\<close>

inductive quiet :: "'s podWatcher \<Rightarrow> ('s \<Rightarrow> string set) \<Rightarrow> nat \<Rightarrow> 's workers \<Rightarrow> 's workers \<Rightarrow> bool"
  for r tunnels where
  done': "quiet r tunnels 0 x x"
| own: "quiet r tunnels k x y \<Longrightarrow> wstep r tunnels l y z \<Longrightarrow> own_step l \<Longrightarrow> quiet r tunnels (Suc k) x z"
| moved: "quiet r tunnels k x y \<Longrightarrow> wstep r tunnels World y z \<Longrightarrow> quiet r tunnels k x z"

lemma quiet_bound:
  assumes "quiet r tunnels k x y" "only n x"
  shows "only n y \<and> k + work n y \<le> work n x"
  using assms
proof (induction rule: quiet.induct)
  case (own k x y l z)
  then show ?case using own_step_decreases [of r tunnels l y z n] by auto
next
  case (moved k x y z)
  then show ?case using world_keeps [of r tunnels y z n] by auto
qed simp

lemma quiet_exclusive: "quiet r tunnels k x y \<Longrightarrow> exclusive x \<Longrightarrow> exclusive y"
  by (induction rule: quiet.induct) (auto intro: exclusive_step)

text \<open>As long as a worker is busy, one of them can go on: the owner of the mutex if there is one.\<close>

lemma busy_can_step:
  assumes "exclusive x" "wk_phase x i \<noteq> Idle"
  shows "\<exists>l y. wstep r tunnels l x y \<and> own_step l"
proof (cases "wk_owner x")
  case (Some j)
  then have "holds (wk_phase x j)" using assms(1) by (simp add: exclusive_def)
  then obtain req res where "wk_phase x j = Holding req res" by (cases "wk_phase x j") auto
  moreover obtain out \<sigma> where "run_state (handle r req res) (wk_state x) = (out, \<sigma>)" by (metis surj_pair)
  ultimately show ?thesis using wstep.run [of x j req res r out \<sigma> tunnels] own_step.simps by blast
next
  case None
  then have "\<not> holds (wk_phase x i)" using assms(1) by (simp add: exclusive_def)
  then obtain req res where f: "wk_phase x i = Fetched req res" using assms(2) by (cases "wk_phase x i") auto
  show ?thesis
  proof (cases "locks r res")
    case True
    from wstep.acquire [OF f this None, of tunnels] show ?thesis using own_step.simps by blast
  next
    case False
    from wstep.skip [OF f this, of tunnels] show ?thesis using own_step.simps by blast
  qed
qed

lemma work_le: "work n x \<le> 2 * n"
proof -
  have "weight p \<le> 2" for p by (cases p) simp_all
  then have "work n x \<le> (\<Sum>i < n. 2)" unfolding work_def by (intro sum_mono) simp
  then show ?thesis by simp
qed

lemma idle_stuck: "wstep r tunnels l x y \<Longrightarrow> own_step l \<Longrightarrow> \<exists>i. wk_phase x i \<noteq> Idle"
  by (rule ccontr, erule wstep.cases) auto

section \<open>Two workers on the in-memory kernel\<close>

abbreviation mem_tunnels :: "mem \<Rightarrow> string set" where
  "mem_tunnels s \<equiv> fou_links (mem_view s)"

definition both_fetched :: "mem workers" where
  "both_fetched = \<lparr>wk_state = (mem_init, new_watch), wk_owner = None,
    wk_phase = (\<lambda>i. Idle)(0 := Fetched (''default'', ''a'') (Inr podA), 1 := Fetched (''default'', ''a'') (Inr podA))\<rparr>"

lemma mem_fetch:
  "run_state (on_kernel (pw_Get (mem_watcher podsA) (''default'', ''a''))) (mem_init, new_watch) = (Inr podA, (mem_init, new_watch))"
  by (simp add: on_kernel_def mem_Get_def podsA_def)

lemma mem_both_fetched: "wreach (mem_watcher podsA) mem_tunnels allow both_fetched"
proof -
  let ?r = "mem_watcher podsA" and ?req = "(''default'', ''a'')"
  have f: "wstep ?r mem_tunnels (Fetch i) x (x\<lparr>wk_phase := (wk_phase x)(i := Fetched ?req (Inr podA))\<rparr>)"
    if i: "wk_phase x i = Idle" and x: "wk_state x = (mem_init, new_watch)" for x i
  proof -
    have "run_state (on_kernel (pw_Get ?r ?req)) (wk_state x) = (Inr podA, wk_state x)" using mem_fetch x by simp
    from wstep.fetch [OF i this, of mem_tunnels] show ?thesis by simp
  qed
  have "wreach ?r mem_tunnels allow ((idle_workers mem_init)\<lparr>wk_phase := (\<lambda>i. Idle)(0 := Fetched ?req (Inr podA))\<rparr>)"
    by (rule wreach.step [OF wreach.idle [of _ _ _ mem_init], where l = "Fetch 0"])
      (use f [of "idle_workers mem_init" 0] in \<open>simp_all add: idle_workers_def\<close>)
  from wreach.step [OF this f [of _ 1]] show ?thesis by (simp add: both_fetched_def idle_workers_def)
qed

lemma mem_second_waits:
  obtains s where "wreach (mem_watcher podsA) mem_tunnels (\<lambda>w out. out = Inr () \<and> distinct_addrs w)
      \<lparr>wk_state = (s, register ''default/a'' [ipA] new_watch), wk_owner = None,
        wk_phase = (\<lambda>i. Idle)(1 := Fetched (''default'', ''a'') (Inr podA))\<rparr>"
    "fouName ipA \<in> mem_tunnels s"
proof -
  let ?r = "mem_watcher podsA" and ?req = "(''default'', ''a'')" and ?a = "\<lambda>w out. out = Inr () \<and> distinct_addrs w"
  let ?x = "both_fetched\<lparr>wk_owner := Some 0, wk_phase := (wk_phase both_fetched)(0 := Holding ?req (Inr podA))\<rparr>"
  obtain s where s: "run_state (Reconcile ?r ?req) (mem_init, new_watch) = (Inr (), (s, register ''default/a'' [ipA] new_watch))"
      "fouName ipA \<in> mem_tunnels s"
    by (rule mem_reconcile_A)
  then have run: "run_state (handle ?r ?req (Inr podA)) (wk_state ?x) = (Inr (), (s, register ''default/a'' [ipA] new_watch))"
    using mem_fetch by (simp add: Reconcile_handle both_fetched_def)
  have "locks ?r (Inr podA)" using founat_watcher_handles [of podsA] by (simp add: locks_def)
  then have "wstep ?r mem_tunnels (Acquire 0) both_fetched ?x"
    by (intro wstep.acquire [of _ _ ?req "Inr podA"]) (simp_all add: both_fetched_def)
  from wreach.step [OF mem_both_fetched this] have x: "wreach ?r mem_tunnels ?a ?x" by simp
  have d: "distinct_addrs new_watch" by (simp add: distinct_addrs_def registered_def new_watch_def)
  have "wreach ?r mem_tunnels ?a (?x\<lparr>wk_state := (s, register ''default/a'' [ipA] new_watch), wk_owner := None,
      wk_phase := (wk_phase ?x)(0 := Idle)\<rparr>)"
    by (rule wreach.step [OF x wstep.run [OF _ run]]) (use d in \<open>simp_all add: both_fetched_def\<close>)
  moreover have "(wk_phase ?x)(0 := Idle) = (\<lambda>i. Idle)(1 := Fetched ?req (Inr podA))" by (auto simp: both_fetched_def)
  ultimately show ?thesis using that s(2) by (simp add: both_fetched_def)
qed

section \<open>Properties\<close>

context netlink_api
begin

lemmas workers_consistent = gw.wreach_consistent
lemmas workers_connected = gw.wreach_connected

end

text \<open>
  C5. With any number of workers, while their locked sections succeed and no two registered pods share
  an address, every address of a registered pod lists the pod among its peers, and every IPv4 address
  of a family the egress serves has its tunnel in the kernel, even if the pods that the workers act
  on are old.  (The names of IPv6 tunnels are truncated hashes, so one IPv6 peer can take the tunnel
  of another away.)
\<close>

theorem workers_keep_tunnels:
  assumes "netlink_api nl view Get"
    and "wreach (founat_watcher nl Get ns name t e) (\<lambda>s. fou_links (view s))
      (\<lambda>w out. out = Inr () \<and> distinct_addrs w) x"
    and "wk_state x = (s, w)" "podAddrs w key = Some ips" "ip \<in> set ips"
  shows "(\<exists>ks. peers w (IP_String ip) = Some ks \<and> key \<in> ks) \<and>
    (supports t ip \<longrightarrow> To4 ip \<noteq> nil_IP \<longrightarrow> fouName ip \<in> fou_links (view s))"
proof -
  have "registered w key ip" using assms(4,5) by (simp add: registered_def)
  then show ?thesis
    using netlink_api.workers_connected [OF assms(1,2)] assms(3)
    by (auto simp: consistent_def connected_def has_key_def)
qed

theorem workers_keep_tunnels_witness:
  "\<exists>x s w. wreach (mem_watcher podsA) mem_tunnels (\<lambda>w out. out = Inr () \<and> distinct_addrs w) x \<and>
    wk_state x = (s, w) \<and> podAddrs w ''default/a'' = Some [ipA] \<and> fouName ipA \<in> mem_tunnels s \<and> wk_phase x 1 \<noteq> Idle"
proof -
  obtain s where s: "wreach (mem_watcher podsA) mem_tunnels (\<lambda>w out. out = Inr () \<and> distinct_addrs w)
      \<lparr>wk_state = (s, register ''default/a'' [ipA] new_watch), wk_owner = None,
        wk_phase = (\<lambda>i. Idle)(1 := Fetched (''default'', ''a'') (Inr podA))\<rparr>"
    by (rule mem_second_waits)
  have reg: "podAddrs (register ''default/a'' [ipA] new_watch) ''default/a'' = Some [ipA]"
    by (simp add: register_def Let_def)
  from workers_keep_tunnels [OF mem_api.netlink_api_axioms s _ reg, of _ ipA] have "fouName ipA \<in> mem_tunnels s"
    by (simp add: ip_AB)
  with s reg show ?thesis by (intro exI conjI) (assumption | simp)+
qed

text \<open>
  C24. Whatever happens to the pods and to the kernel, and however the steps of the workers interleave,
  errors of locked sections included: the mutex has at most one owner, which is the only worker in a
  locked section; the gauge is the number of pods that are registered, and the map of peers holds
  no empty key set.
\<close>

theorem workers_bookkeeping:
  assumes "netlink_api nl view Get"
    and "wreach (founat_watcher nl Get ns name t e) (\<lambda>s. fou_links (view s)) allow x" "w = snd (wk_state x)"
  shows "(\<forall>i. holds (wk_phase x i) \<longleftrightarrow> wk_owner x = Some i) \<and>
    finite (dom (podAddrs w)) \<and> metric w = card (dom (podAddrs w)) \<and>
    (\<forall>a ks. peers w a = Some ks \<longrightarrow> finite ks \<and> ks \<noteq> {})"
  using netlink_api.workers_consistent [OF assms(1,2)] wreach_exclusive [OF assms(2)] assms(3)
  by (auto simp: consistent_def keysets_ok_def exclusive_def)

theorem workers_bookkeeping_witness:
  "\<exists>x w. wreach (mem_watcher podsA) mem_tunnels (\<lambda>w out. out = Inr () \<and> distinct_addrs w) x \<and> w = snd (wk_state x) \<and>
    podAddrs w = [''default/a'' \<mapsto> [ipA]] \<and> metric w = 1"
proof -
  let ?w = "register ''default/a'' [ipA] new_watch"
  obtain s where s: "wreach (mem_watcher podsA) mem_tunnels (\<lambda>w out. out = Inr () \<and> distinct_addrs w)
      \<lparr>wk_state = (s, ?w), wk_owner = None, wk_phase = (\<lambda>i. Idle)(1 := Fetched (''default'', ''a'') (Inr podA))\<rparr>"
    by (rule mem_second_waits)
  have a: "podAddrs ?w = [''default/a'' \<mapsto> [ipA]]" by (simp add: register_def new_watch_def)
  moreover have "metric ?w = 1"
    using workers_bookkeeping [OF mem_api.netlink_api_axioms s refl] a by simp
  ultimately show ?thesis using s by (intro exI conjI) (assumption | simp)+
qed



end
