(* ===== verification/Gencert.thy ===== *)
theory Gencert
  imports Installer
begin

text \<open>
  \<^verbatim>\<open>cmd/gencert/main.go\<close>: the generator of the webhook's certificate.  The crypto libraries and the PEM encoder
  are parameters; \<^verbatim>\<open>log.Fatal\<close> ends the process, here with the error it prints.
\<close>

unbundle bit_operations_syntax

section \<open>Definitions\<close>

definition dnsAliases :: "string \<Rightarrow> string list" where
  "dnsAliases host =
    (let parts = Split (CHR ''.'') host
     in map (\<lambda>i. Join (take (length parts - i) parts) ''.'') [0..<length parts])"

record Certificate =
  SerialNumber :: int
  CommonName :: string
  NotBefore :: int
  NotAfter :: int
  KeyUsage :: "string list"
  ExtKeyUsage :: "string list"
  DNSNames :: "string list"

record ('s, 'k) gencert_lib = "'s os" +
  time_Now :: "('s, int) go"
  GenerateKey :: "nat \<Rightarrow> ('s, 'k) go"
  CreateCertificate :: "Certificate \<Rightarrow> 'k \<Rightarrow> ('s, string) go"
  MarshalPKCS8PrivateKey :: "'k \<Rightarrow> err + string"
  os_Stat :: "string \<Rightarrow> ('s, unit) go"
  os_IsNotExist :: "err \<Rightarrow> bool"
  os_OpenFile :: "string \<Rightarrow> nat \<Rightarrow> ('s, string) go"
  pem_Encode :: "string \<Rightarrow> string \<Rightarrow> string \<Rightarrow> ('s, unit) go"

definition mode_0600 :: nat where "mode_0600 = 6 * 64"

text \<open>A fatal error ends the process before the deferred close; the closing has no effect that is seen.\<close>

definition outputPEM :: "('s, 'k) gencert_lib \<Rightarrow> string \<Rightarrow> string \<Rightarrow> string \<Rightarrow> ('s, unit) go" where
  "outputPEM lib fname pemType data =
    bindE (errorf (''failed to open '' @ fname) (os_OpenFile lib fname mode_0600)) (\<lambda>f.
    bindE (errorf ''failed to encode'' (pem_Encode lib f pemType data)) (\<lambda>_.
    bindE (errorf ''failed to fsync'' (f_Sync lib f)) (\<lambda>_.
    do { _ \<leftarrow> f_Close lib f; ret () })))"

definition ensure_dir :: "('s, 'k) gencert_lib \<Rightarrow> string \<Rightarrow> ('s, unit) go" where
  "ensure_dir lib outDir = do {
    r \<leftarrow> os_Stat lib outDir;
    case r of
      Inr _ \<Rightarrow> ret ()
    | Inl e \<Rightarrow>
        if os_IsNotExist lib e
        then errorf ''failed to create output directory'' (os_MkdirAll lib outDir mode_0755)
        else fail (wrap (''stat '' @ outDir @ '' failed'') e)
  }"

definition cert_template :: "string \<Rightarrow> int \<Rightarrow> int \<Rightarrow> Certificate" where
  "cert_template host notBefore validFor = \<lparr>SerialNumber = 1, CommonName = ''egress-gw-webhook-service'',
    NotBefore = notBefore, NotAfter = notBefore + validFor,
    KeyUsage = [''DigitalSignature'', ''KeyEncipherment''], ExtKeyUsage = [''ServerAuth''], DNSNames = dnsAliases host\<rparr>"

definition gencert_main :: "('s, 'k) gencert_lib \<Rightarrow> string \<Rightarrow> int \<Rightarrow> string \<Rightarrow> ('s, unit) go" where
  "gencert_main lib host validFor outDir =
    bindE (GenerateKey lib 4096) (\<lambda>priv.
    bindE (time_Now lib) (\<lambda>notBefore.
    bindE (errorf ''failed to create certificate''
      (CreateCertificate lib (cert_template host notBefore validFor) priv)) (\<lambda>certBytes.
    bindE (ensure_dir lib outDir) (\<lambda>_.
    bindE (errorf ''failed to marshal private key'' (State_Monad.return (MarshalPKCS8PrivateKey lib priv))) (\<lambda>privBytes.
    bindE (outputPEM lib (filepath_Join outDir ''cert.pem'') ''CERTIFICATE'' certBytes) (\<lambda>_.
    outputPEM lib (filepath_Join outDir ''key.pem'') ''PRIVATE KEY'' privBytes))))))"

section \<open>The names of the certificate\<close>

lemma Join_take_prefix:
  assumes "0 < k" "k < length ps"
  shows "Join ps [c] = Join (take k ps) [c] @ [c] @ Join (drop k ps) [c]"
  using assms
proof (induction ps arbitrary: k)
  case (Cons p ps)
  show ?case
  proof (cases k)
    case (Suc j)
    with Cons.prems have "ps \<noteq> []" by auto
    with Cons Suc show ?thesis by (cases "j = 0") (auto simp: Join_Cons)
  qed (use Cons in simp)
qed simp

text \<open>Exactly the host and what is before each of its dots.\<close>

lemma dnsAliases_iff: "x \<in> set (dnsAliases host) \<longleftrightarrow> x = host \<or> (\<exists>t. host = x @ ''.'' @ t)"
proof -
  let ?parts = "Split (CHR ''.'') host"
  have host: "Join ?parts ''.'' = host" using Join_Split [of "CHR ''.''" host] by simp
  have "x \<in> set (dnsAliases host) \<longleftrightarrow> (\<exists>k. 0 < k \<and> k \<le> length ?parts \<and> x = Join (take k ?parts) ''.'')"
  proof
    assume "x \<in> set (dnsAliases host)"
    then obtain i where "i < length ?parts" "x = Join (take (length ?parts - i) ?parts) ''.''"
      by (auto simp: dnsAliases_def Let_def)
    then show "\<exists>k. 0 < k \<and> k \<le> length ?parts \<and> x = Join (take k ?parts) ''.''"
      by (intro exI [of _ "length ?parts - i"]) auto
  next
    assume "\<exists>k. 0 < k \<and> k \<le> length ?parts \<and> x = Join (take k ?parts) ''.''"
    then obtain k where "0 < k" "k \<le> length ?parts" "x = Join (take k ?parts) ''.''" by blast
    then show "x \<in> set (dnsAliases host)"
      by (auto simp: dnsAliases_def Let_def intro!: image_eqI [of _ _ "length ?parts - k"])
  qed
  also have "\<dots> \<longleftrightarrow> x = host \<or> (\<exists>t. host = x @ ''.'' @ t)"
  proof
    assume "\<exists>k. 0 < k \<and> k \<le> length ?parts \<and> x = Join (take k ?parts) ''.''"
    then obtain k where k: "0 < k" "k \<le> length ?parts" "x = Join (take k ?parts) ''.''" by blast
    show "x = host \<or> (\<exists>t. host = x @ ''.'' @ t)"
    proof (cases "k = length ?parts")
      case False
      with k Join_take_prefix [of k ?parts "CHR ''.''"] show ?thesis unfolding host by auto
    qed (use k host in simp)
  next
    assume "x = host \<or> (\<exists>t. host = x @ ''.'' @ t)"
    then show "\<exists>k. 0 < k \<and> k \<le> length ?parts \<and> x = Join (take k ?parts) ''.''"
    proof
      assume "x = host"
      then show ?thesis using host by (intro exI [of _ "length ?parts"]) simp
    next
      assume "\<exists>t. host = x @ ''.'' @ t"
      then obtain t where "host = x @ ''.'' @ t" by blast
      then have "?parts = Split (CHR ''.'') x @ Split (CHR ''.'') t" using Split_sep [of "CHR ''.''" x t] by simp
      then show ?thesis
        using Join_Split [of "CHR ''.''" x] by (intro exI [of _ "length (Split (CHR ''.'') x)"]) simp
    qed
  qed
  finally show ?thesis .
qed

section \<open>The files\<close>

text \<open>
  What is relied on of the libraries: a certificate is made from its template and signed with the
  key (\<open>certifies\<close>); the encoder writes a text \<open>pem\<close>; a file that is opened for writing is emptied, and
  the mode counts only for a file that is new (less what the process's mask takes away).
\<close>

definition opened_mode :: "node option \<Rightarrow> nat \<Rightarrow> nat \<Rightarrow> bool" where
  "opened_mode old mode m \<longleftrightarrow> (case old of Some (File c m0) \<Rightarrow> m = m0 | _ \<Rightarrow> m AND mode = m)"

lemma fs_add_dirs_refl: "fs_add_dirs v v"
  by (simp add: fs_add_dirs_def)

text \<open>
  What the two files hold after a success: the certificate of the template and the private key, the key
  readable by its owner only if its file is new.
\<close>

definition generated :: "('s, 'k) gencert_lib \<Rightarrow> (string \<Rightarrow> Certificate \<Rightarrow> 'k \<Rightarrow> bool) \<Rightarrow> (string \<Rightarrow> string \<Rightarrow> string) \<Rightarrow>
    string \<Rightarrow> int \<Rightarrow> string \<Rightarrow> fs \<Rightarrow> fs \<Rightarrow> bool" where
  "generated lib certifies pem host validFor d v v' \<longleftrightarrow> (\<exists>k t cert key m m'.
    certifies cert (cert_template host t validFor) k \<and> MarshalPKCS8PrivateKey lib k = Inr key \<and>
    v' (filepath_Join d ''cert.pem'') = Some (File (pem ''CERTIFICATE'' cert) m) \<and>
    v' (filepath_Join d ''key.pem'') = Some (File (pem ''PRIVATE KEY'' key) m') \<and>
    opened_mode (v (filepath_Join d ''key.pem'')) mode_0600 m')"

locale gencert_laws = os_laws "os.truncate lib" fs
  for lib :: "('s, 'k) gencert_lib" and fs :: "'s \<Rightarrow> fs" +
  fixes certifies :: "string \<Rightarrow> Certificate \<Rightarrow> 'k \<Rightarrow> bool" and pem :: "string \<Rightarrow> string \<Rightarrow> string"
  assumes law_GenerateKey: "wp (GenerateKey lib n) (\<lambda>r s'. fs s' = fs s) s"
    and law_Now: "wp (time_Now lib) (\<lambda>r s'. fs s' = fs s) s"
    and law_CreateCertificate: "wp (CreateCertificate lib c k) (\<lambda>r s'. fs s' = fs s \<and> (\<forall>b. r = Inr b \<longrightarrow> certifies b c k)) s"
    and law_Stat: "wp (os_Stat lib p) (\<lambda>r s'. fs s' = fs s) s"
    and law_OpenFile: "wp (os_OpenFile lib p mode) (\<lambda>r s'. case r of Inl _ \<Rightarrow> fs s' = fs s
      | Inr f \<Rightarrow> f = p \<and> fs s p \<noteq> Some Dir \<and> (\<exists>m. opened_mode (fs s p) mode m \<and> fs s' = (fs s)(p \<mapsto> File '''' m))) s"
    and law_Encode: "fs s f = Some (File '''' m) \<Longrightarrow> wp (pem_Encode lib f ty data) (\<lambda>r s'.
      \<exists>c. fs s' = (fs s)(f \<mapsto> File c m) \<and> (r = Inr () \<longrightarrow> c = pem ty data)) s"
begin

lemma law_lib_Sync: "wp (f_Sync lib f) (\<lambda>r s'. fs s' = fs s) s"
  using law_Sync [of f s] by (simp add: os.truncate_def)

lemma law_lib_Close: "wp (f_Close lib f) (\<lambda>r s'. fs s' = fs s) s"
  using law_Close [of f s] by (simp add: os.truncate_def)

lemma law_lib_MkdirAll: "wp (os_MkdirAll lib d mode) (\<lambda>r s'. fs_add_dirs (fs s) (fs s')) s"
  using law_MkdirAll [of d mode s] by (simp add: os.truncate_def)

lemma wp_outputPEM:
  "wp (outputPEM lib p ty data) (\<lambda>r s'. (\<forall>q. q \<noteq> p \<longrightarrow> fs s' q = fs s q) \<and>
    (r = Inr () \<longrightarrow> fs s p \<noteq> Some Dir \<and> (\<exists>m. opened_mode (fs s p) mode_0600 m \<and> fs s' p = Some (File (pem ty data) m)))) s"
  unfolding outputPEM_def wp_bindE wp_errorf
proof (rule law_OpenFile [THEN wp_conseq], goal_cases)
  case (1 r s1)
  show ?case
  proof (cases r)
    case (Inr f)
    with 1 obtain m where m: "f = p" "fs s p \<noteq> Some Dir" "opened_mode (fs s p) mode_0600 m" "fs s1 = (fs s)(p \<mapsto> File '''' m)"
      by auto
    have "wp (pem_Encode lib p ty data) (\<lambda>r s2. (\<forall>q. q \<noteq> p \<longrightarrow> fs s2 q = fs s q) \<and>
        (r = Inr () \<longrightarrow> fs s2 p = Some (File (pem ty data) m))) s1"
      using m law_Encode [of s1 p m ty data] by (auto elim!: wp_conseq)
    then show ?thesis
      unfolding Inr sum.case m(1)
    proof (rule wp_conseq, goal_cases)
      case (1 r s2)
      then show ?case
        using m by (cases r) (auto simp: wp_simps intro!: law_lib_Sync [THEN wp_conseq] law_lib_Close [THEN wp_conseq] split: sum.splits)
    qed
  qed (use 1 in auto)
qed

lemma wp_ensure_dir: "wp (ensure_dir lib d) (\<lambda>r s'. fs_add_dirs (fs s) (fs s')) s"
  unfolding ensure_dir_def
  by (auto simp: wp_simps fs_add_dirs_refl intro!: law_Stat [THEN wp_conseq] law_lib_MkdirAll [THEN wp_conseq] split: sum.splits)

lemma wp_write_both:
  assumes "fs_add_dirs v (fs s)" "certifies cert (cert_template host t validFor) k" "MarshalPKCS8PrivateKey lib k = Inr key"
  shows "wp (bindE (outputPEM lib (filepath_Join d ''cert.pem'') ''CERTIFICATE'' cert) (\<lambda>_.
      outputPEM lib (filepath_Join d ''key.pem'') ''PRIVATE KEY'' key))
    (\<lambda>r s'. (\<forall>p x. p \<notin> {filepath_Join d ''cert.pem'', filepath_Join d ''key.pem''} \<longrightarrow> v p = Some x \<longrightarrow> fs s' p = Some x) \<and>
      (r = Inr () \<longrightarrow> generated lib certifies pem host validFor d v (fs s'))) s"
    (is "wp _ ?Q s")
proof -
  let ?c = "filepath_Join d ''cert.pem''" and ?k = "filepath_Join d ''key.pem''"
  have ne: "?c \<noteq> ?k" using filepath_Join_inj [of "''cert.pem''" "''key.pem''" d] by (auto simp: plain_name_def)
  have keep: "fs s p = Some x" if "v p = Some x" for p x
    using assms(1) that by (metis fs_add_dirs_def option.distinct(1))
  have key_mode: "fs s ?k = v ?k" if "fs s ?k \<noteq> Some Dir" using assms(1) that by (auto simp: fs_add_dirs_def)
  show ?thesis
    unfolding wp_bindE
  proof (rule wp_outputPEM [THEN wp_conseq], goal_cases)
    case (1 r s1)
    show ?case
    proof (cases r)
      case (Inr u)
      with 1 obtain m where c: "fs s1 ?c = Some (File (pem ''CERTIFICATE'' cert) m)" by auto
      have other: "fs s1 p = fs s p" if "p \<noteq> ?c" for p using 1 that by blast
      show ?thesis
        unfolding Inr sum.case
      proof (rule wp_outputPEM [THEN wp_conseq], goal_cases)
        case (1 r2 s2)
        note key_frame = conjunct1 [OF 1, rule_format] and key_done = conjunct2 [OF 1, rule_format]
        have "generated lib certifies pem host validFor d v (fs s2)" if ok: "r2 = Inr ()"
        proof -
          obtain m' where m': "fs s1 ?k \<noteq> Some Dir" "opened_mode (fs s1 ?k) mode_0600 m'"
              "fs s2 ?k = Some (File (pem ''PRIVATE KEY'' key) m')"
            using key_done [OF ok] by auto
          have "fs s1 ?k = v ?k" using m'(1) key_mode other [of ?k] ne by simp
          moreover have "fs s2 ?c = Some (File (pem ''CERTIFICATE'' cert) m)" using key_frame [of ?c] ne c by simp
          ultimately show ?thesis using assms(2,3) m'(2,3) unfolding generated_def by auto
        qed
        moreover have "fs s2 p = Some x" if "p \<notin> {?c, ?k}" "v p = Some x" for p x
          using key_frame [of p] other [of p] keep [OF that(2)] that(1) by simp
        ultimately show ?case by blast
      qed
    qed (use 1 keep in simp)
  qed
qed

lemma wp_gencert_main:
  "wp (gencert_main lib host validFor d) (\<lambda>r s'.
    (\<forall>p x. p \<notin> {filepath_Join d ''cert.pem'', filepath_Join d ''key.pem''} \<longrightarrow> fs s p = Some x \<longrightarrow> fs s' p = Some x) \<and>
    (r = Inr () \<longrightarrow> generated lib certifies pem host validFor d (fs s) (fs s'))) s"
proof -
  have dirs: "fs s' p = Some x" if "fs_add_dirs v (fs s')" "v p = Some x" for v s' p x
    using that by (metis fs_add_dirs_def option.distinct(1))
  show ?thesis
    unfolding gencert_main_def wp_bindE [of "GenerateKey _ _"] wp_bindE [of "time_Now _"] wp_bindE [of "errorf _ _"]
      wp_bindE [of "ensure_dir _ _"] wp_errorf wp_return
    by (auto intro!: law_GenerateKey [THEN wp_conseq] law_Now [THEN wp_conseq] law_CreateCertificate [THEN wp_conseq]
        wp_ensure_dir [THEN wp_conseq] wp_write_both [THEN wp_conseq] dest: dirs split: sum.splits)
qed

end

section \<open>On the in-memory file system\<close>

text \<open>Keys are numbers; a certificate lists its names.\<close>

definition mem_certifies :: "string \<Rightarrow> Certificate \<Rightarrow> nat \<Rightarrow> bool" where
  "mem_certifies b c k \<longleftrightarrow> b = Join (DNSNames c) '',''"

definition mem_pem :: "string \<Rightarrow> string \<Rightarrow> string" where
  "mem_pem ty data = ''-----BEGIN '' @ ty @ ''-----'' @ data"

definition mem_gencert :: "(mem_fs, nat) gencert_lib" where
  "mem_gencert = os.extend mem_os (gencert_lib.fields (ret 0) (\<lambda>n. ret n)
    (\<lambda>c k. ret (Join (DNSNames c) '','')) (\<lambda>k. Inr ''secret'')
    (\<lambda>p. fs_call (\<lambda>s. if map_of s (Clean p) = None then None else Some (s, ()))) (\<lambda>e. True)
    (\<lambda>p mode. fs_call (\<lambda>s. case map_of s p of Some Dir \<Rightarrow> None
       | Some (File c m) \<Rightarrow> Some ((p, File '''' m) # s, p) | None \<Rightarrow> Some ((p, File '''' mode) # s, p)))
    (\<lambda>f ty data. fs_call (put_file f (\<lambda>(c, m). (c @ mem_pem ty data, m)))))"

lemma mem_gencert_truncate: "os.truncate mem_gencert = mem_os"
  by (cases mem_os) (simp add: mem_gencert_def os.defs)

lemmas mem_gencert_defs = mem_gencert_def os.defs gencert_lib.defs

lemma new_file_mode: "\<exists>m. m AND mode = m \<and> v(p \<mapsto> File c mode) = v(p \<mapsto> File c m)" for mode :: nat
  by (rule exI [of _ mode]) simp

interpretation mem_gencert: gencert_laws mem_gencert map_of mem_certifies mem_pem
proof (intro gencert_laws.intro)
  show "os_laws (os.truncate mem_gencert) map_of"
    by (simp add: mem_gencert_truncate mem_os.os_laws_axioms)
  show "gencert_laws_axioms mem_gencert map_of mem_certifies mem_pem"
    by unfold_locales
      (auto simp: mem_gencert_defs fs_call_def wp_def put_file_def mem_certifies_def opened_mode_def new_file_mode
        split: option.splits node.splits)
qed

section \<open>Properties\<close>

text \<open>
  C40. A run of the certificate generator that succeeds leaves a certificate for the host and exactly the
  names before each of its dots, made from the same key as the key file beside it, which is private to
  its owner if it is new, and keeps the mode it had otherwise; no other file is changed, whatever
  fails.
\<close>

theorem gencert_spec:
  assumes "gencert_laws lib fs certifies pem" "run_state (gencert_main lib host validFor d) s = (r, s')"
  shows "(\<forall>p x. p \<notin> {filepath_Join d ''cert.pem'', filepath_Join d ''key.pem''} \<longrightarrow> fs s p = Some x \<longrightarrow> fs s' p = Some x) \<and>
    (r = Inr () \<longrightarrow> generated lib certifies pem host validFor d (fs s) (fs s')) \<and>
    (\<forall>t x. x \<in> set (DNSNames (cert_template host t validFor)) \<longleftrightarrow> x = host \<or> (\<exists>y. host = x @ ''.'' @ y))"
  using wp_runD [OF gencert_laws.wp_gencert_main [OF assms(1)] assms(2)] dnsAliases_iff [of _ host]
  by (simp add: cert_template_def)

theorem gencert_spec_witness:
  "\<exists>s'. run_state (gencert_main mem_gencert ''a.b.svc'' 10 ''/certs'') [] = (Inr (), s') \<and>
    generated mem_gencert mem_certifies mem_pem ''a.b.svc'' 10 ''/certs'' (map_of []) (map_of s') \<and>
    ''a.b'' \<in> set (DNSNames (cert_template ''a.b.svc'' 0 10))"
proof -
  have "\<exists>s'. run_state (gencert_main mem_gencert ''a.b.svc'' 10 ''/certs'') [] = (Inr (), s')"
    by (simp add: gencert_main_def ensure_dir_def outputPEM_def mem_gencert_defs mem_os_def fs_call_def run_bindE
        run_errorf put_file_def filepath_Join_def Clean_def HasPrefix_def clean_step_def Let_def)
  then obtain s' where run: "run_state (gencert_main mem_gencert ''a.b.svc'' 10 ''/certs'') [] = (Inr (), s')" by blast
  note spec = gencert_spec [OF mem_gencert.gencert_laws_axioms run]
  have "\<exists>y. ''a.b.svc'' = ''a.b'' @ ''.'' @ y" by simp
  with spec run show ?thesis by blast
qed

end
