(* ===== verification/Deep_Copy.thy ===== *)
theory Deep_Copy
  imports Egress_Controller "HOL-Library.AList"
begin

text \<open>
  \<^verbatim>\<open>api/v1beta1/zz_generated.deepcopy.go\<close>: the generated copies of the API types, over an explicit heap, since
  what they are for is that a copy shares nothing with the original: the controllers change copies of
  objects that a cache holds.  A pointer, a map or a slice is an address or nil, where a slice is the
  whole of its array; a struct holds its plain fields and addresses.  The structs of other packages
  are values of an arbitrary type \<open>'x\<close>, and their copies are parameters.
\<close>

section \<open>The heap\<close>

record MetadataS =
  ms_Annotations :: "nat option"
  ms_Labels :: "nat option"

record 'x EgressPodTemplateS =
  ts_Metadata :: MetadataS
  ts_Spec :: 'x

record EgressSpecS =
  ss_Destinations :: "nat option"
  ss_Replicas :: int
  ss_Strategy :: "nat option"
  ss_Template :: "nat option"
  ss_SessionAffinity :: string
  ss_SessionAffinityConfig :: "nat option"

record 'x EgressS =
  es_TypeMeta :: "string \<times> string"
  es_ObjectMeta :: 'x
  es_Spec :: EgressSpecS
  es_Status :: EgressStatus

record 'x EgressListS =
  ls_TypeMeta :: "string \<times> string"
  ls_ListMeta :: 'x
  ls_Items :: "nat option"

text \<open>A cell holds an array, the entries of a map, or a struct; \<open>CExt\<close> is any object of another package.\<close>

datatype 'x cell =
    CStrs (cStrs: "string list")
  | CMap (cMap: "(string \<times> string) list")
  | CExt (cExt: 'x)
  | CTemplate (cTemplate: "'x EgressPodTemplateS")
  | CMetadata (cMetadata: MetadataS)
  | CSpec (cSpec: EgressSpecS)
  | CStatus (cStatus: EgressStatus)
  | CEgress (cEgress: "'x EgressS")
  | CItems (cItems: "'x EgressS list")
  | CList (cList: "'x EgressListS")

record 'x heap =
  hp_next :: nat
  hp_cells :: "nat \<Rightarrow> 'x cell"

type_synonym ('x, 'a) copy = "'a \<Rightarrow> ('x heap, 'a) state"

text \<open>\<^verbatim>\<open>new\<close> and \<^verbatim>\<open>make\<close>: the next address, whose cell is written when the copy is complete.\<close>

definition alloc :: "('x heap, nat) state" where
  "alloc = State (\<lambda>h. (hp_next h, h\<lparr>hp_next := Suc (hp_next h)\<rparr>))"

definition store :: "nat \<Rightarrow> 'x cell \<Rightarrow> ('x heap, unit) state" where
  "store a c = State (\<lambda>h. ((), h\<lparr>hp_cells := (hp_cells h)(a := c)\<rparr>))"

definition load :: "nat \<Rightarrow> ('x heap, 'x cell) state" where
  "load a = State (\<lambda>h. (hp_cells h a, h))"

section \<open>Definitions\<close>

text \<open>
  A field that is a pointer, slice or map: nil stays nil; otherwise a new object, filled by copying the
  old one.
\<close>

definition copy_ptr :: "('x cell \<Rightarrow> 'a) \<Rightarrow> ('a \<Rightarrow> 'x cell) \<Rightarrow> ('x, 'a) copy \<Rightarrow> ('x, nat option) copy" where
  "copy_ptr proj mk copy p =
    (case p of
       None \<Rightarrow> State_Monad.return None
     | Some a \<Rightarrow> do {
         out \<leftarrow> alloc;
         c \<leftarrow> load a;
         v \<leftarrow> copy (proj c);
         store out (mk v);
         State_Monad.return (Some out)
       })"

text \<open>The loop over the elements of a slice.\<close>

fun copy_list :: "('x, 'a) copy \<Rightarrow> ('x, 'a list) copy" where
  "copy_list copy [] = State_Monad.return []"
| "copy_list copy (x # xs) = do { y \<leftarrow> copy x; ys \<leftarrow> copy_list copy xs; State_Monad.return (y # ys) }"

text \<open>The loop over the entries of a map, in the order of the iteration.\<close>

definition copy_entries :: "(string \<times> string) list \<Rightarrow> (string \<times> string) list" where
  "copy_entries kvs = foldl (\<lambda>out (k, v). AList.update k v out) [] kvs"

abbreviation copy_map :: "('x, nat option) copy" where
  "copy_map \<equiv> copy_ptr cMap CMap (\<lambda>kvs. State_Monad.return (copy_entries kvs))"

text \<open>The copies of other packages: of the object's and the list's metadata, pods, strategies, affinities.\<close>

record 'x ext_lib =
  ObjectMeta_DeepCopyInto :: "('x, 'x) copy"
  ListMeta_DeepCopyInto :: "('x, 'x) copy"
  PodSpec_DeepCopyInto :: "('x, 'x) copy"
  DeploymentStrategy_DeepCopyInto :: "('x, 'x) copy"
  SessionAffinityConfig_DeepCopyInto :: "('x, 'x) copy"

definition Metadata_DeepCopyInto :: "('x, MetadataS) copy" where
  "Metadata_DeepCopyInto x = do {
    a \<leftarrow> copy_map (ms_Annotations x);
    l \<leftarrow> copy_map (ms_Labels x);
    State_Monad.return (x\<lparr>ms_Annotations := a, ms_Labels := l\<rparr>)
  }"

definition EgressPodTemplate_DeepCopyInto :: "'x ext_lib \<Rightarrow> ('x, 'x EgressPodTemplateS) copy" where
  "EgressPodTemplate_DeepCopyInto lib x = do {
    m \<leftarrow> Metadata_DeepCopyInto (ts_Metadata x);
    s \<leftarrow> PodSpec_DeepCopyInto lib (ts_Spec x);
    State_Monad.return (x\<lparr>ts_Metadata := m, ts_Spec := s\<rparr>)
  }"

definition EgressSpec_DeepCopyInto :: "'x ext_lib \<Rightarrow> ('x, EgressSpecS) copy" where
  "EgressSpec_DeepCopyInto lib x = do {
    d \<leftarrow> copy_ptr cStrs CStrs State_Monad.return (ss_Destinations x);
    st \<leftarrow> copy_ptr cExt CExt (DeploymentStrategy_DeepCopyInto lib) (ss_Strategy x);
    t \<leftarrow> copy_ptr cTemplate CTemplate (EgressPodTemplate_DeepCopyInto lib) (ss_Template x);
    sa \<leftarrow> copy_ptr cExt CExt (SessionAffinityConfig_DeepCopyInto lib) (ss_SessionAffinityConfig x);
    State_Monad.return (x\<lparr>ss_Destinations := d, ss_Strategy := st, ss_Template := t, ss_SessionAffinityConfig := sa\<rparr>)
  }"

definition EgressStatus_DeepCopyInto :: "('x, EgressStatus) copy" where
  "EgressStatus_DeepCopyInto x = State_Monad.return x"

definition Egress_DeepCopyInto :: "'x ext_lib \<Rightarrow> ('x, 'x EgressS) copy" where
  "Egress_DeepCopyInto lib x = do {
    m \<leftarrow> ObjectMeta_DeepCopyInto lib (es_ObjectMeta x);
    s \<leftarrow> EgressSpec_DeepCopyInto lib (es_Spec x);
    State_Monad.return (x\<lparr>es_ObjectMeta := m, es_Spec := s\<rparr>)
  }"

definition EgressList_DeepCopyInto :: "'x ext_lib \<Rightarrow> ('x, 'x EgressListS) copy" where
  "EgressList_DeepCopyInto lib x = do {
    m \<leftarrow> ListMeta_DeepCopyInto lib (ls_ListMeta x);
    i \<leftarrow> copy_ptr cItems CItems (copy_list (Egress_DeepCopyInto lib)) (ls_Items x);
    State_Monad.return (x\<lparr>ls_ListMeta := m, ls_Items := i\<rparr>)
  }"

text \<open>\<^verbatim>\<open>DeepCopy\<close>: nil for nil, otherwise a new object; \<^verbatim>\<open>DeepCopyObject\<close> is the same behind an interface.\<close>

definition Metadata_DeepCopy :: "('x, nat option) copy" where
  "Metadata_DeepCopy = copy_ptr cMetadata CMetadata Metadata_DeepCopyInto"

definition EgressPodTemplate_DeepCopy :: "'x ext_lib \<Rightarrow> ('x, nat option) copy" where
  "EgressPodTemplate_DeepCopy lib = copy_ptr cTemplate CTemplate (EgressPodTemplate_DeepCopyInto lib)"

definition EgressSpec_DeepCopy :: "'x ext_lib \<Rightarrow> ('x, nat option) copy" where
  "EgressSpec_DeepCopy lib = copy_ptr cSpec CSpec (EgressSpec_DeepCopyInto lib)"

definition EgressStatus_DeepCopy :: "('x, nat option) copy" where
  "EgressStatus_DeepCopy = copy_ptr cStatus CStatus EgressStatus_DeepCopyInto"

definition Egress_DeepCopy :: "'x ext_lib \<Rightarrow> ('x, nat option) copy" where
  "Egress_DeepCopy lib = copy_ptr cEgress CEgress (Egress_DeepCopyInto lib)"

definition Egress_DeepCopyObject :: "'x ext_lib \<Rightarrow> ('x, nat option) copy" where
  "Egress_DeepCopyObject lib x = do {
    c \<leftarrow> Egress_DeepCopy lib x;
    State_Monad.return (case c of Some a \<Rightarrow> Some a | None \<Rightarrow> None)
  }"

definition EgressList_DeepCopy :: "'x ext_lib \<Rightarrow> ('x, nat option) copy" where
  "EgressList_DeepCopy lib = copy_ptr cList CList (EgressList_DeepCopyInto lib)"

definition EgressList_DeepCopyObject :: "'x ext_lib \<Rightarrow> ('x, nat option) copy" where
  "EgressList_DeepCopyObject lib x = do {
    c \<leftarrow> EgressList_DeepCopy lib x;
    State_Monad.return (case c of Some a \<Rightarrow> Some a | None \<Rightarrow> None)
  }"

section \<open>Copies that share nothing\<close>

definition same_at :: "'x heap \<Rightarrow> 'x heap \<Rightarrow> nat \<Rightarrow> bool" where
  "same_at h h' a \<longleftrightarrow> hp_cells h' a = hp_cells h a"

definition extends :: "'x heap \<Rightarrow> 'x heap \<Rightarrow> bool" where
  "extends h h' \<longleftrightarrow> hp_next h \<le> hp_next h' \<and> (\<forall>a < hp_next h. same_at h h' a)"

lemma extends_refl [simp]: "extends h h"
  by (simp add: extends_def same_at_def)

lemma extends_next: "extends h h' \<Longrightarrow> hp_next h \<le> hp_next h'"
  by (simp add: extends_def)

lemma extends_trans: "extends h h1 \<Longrightarrow> extends h1 h2 \<Longrightarrow> extends h h2"
  by (auto simp: extends_def same_at_def)

text \<open>
  The contract of a copy: \<open>read\<close> is the value of an object with everything it points to, \<open>refs\<close> the
  addresses this goes through.  Copying an allocated object gives the same value, through new
  addresses only, and changes no old cell.
\<close>

definition fresh_copy :: "('x heap \<Rightarrow> 'a \<Rightarrow> 'v) \<Rightarrow> ('x heap \<Rightarrow> 'a \<Rightarrow> nat set) \<Rightarrow> 'x heap \<Rightarrow> 'a \<Rightarrow> 'a \<Rightarrow> 'x heap \<Rightarrow> bool" where
  "fresh_copy read refs h x y h' \<longleftrightarrow>
    extends h h' \<and> read h' y = read h x \<and> refs h' y \<subseteq> {hp_next h..<hp_next h'}"

lemma fresh_copy_extends: "fresh_copy r f h x y h' \<Longrightarrow> extends h h'"
  by (simp add: fresh_copy_def)

lemma fresh_copy_seq:
  assumes "fresh_copy r f h x y h1" "fresh_copy s g h1 u v h2"
  shows "extends h h2 \<and> f h1 y \<subseteq> {hp_next h..<hp_next h2} \<and> g h2 v \<subseteq> {hp_next h..<hp_next h2}"
proof -
  have ext: "extends h h1" "extends h1 h2" using assms by (simp_all add: fresh_copy_def)
  then have "hp_next h \<le> hp_next h1" "hp_next h1 \<le> hp_next h2" by (simp_all add: extends_next)
  then have "{hp_next h..<hp_next h1} \<subseteq> {hp_next h..<hp_next h2}" "{hp_next h1..<hp_next h2} \<subseteq> {hp_next h..<hp_next h2}"
    by simp_all
  moreover have "f h1 y \<subseteq> {hp_next h..<hp_next h1}" "g h2 v \<subseteq> {hp_next h1..<hp_next h2}"
    using assms by (simp_all add: fresh_copy_def)
  ultimately show ?thesis using extends_trans [OF ext] by blast
qed

text \<open>
  What a copy is for: it reads as the original did, shares no address with it, no cell that was there
  before is changed, and whatever is later changed in the one does not show in the other.
\<close>

definition isolated_copy ::
  "('x heap \<Rightarrow> 'a \<Rightarrow> 'v) \<Rightarrow> ('x heap \<Rightarrow> 'a \<Rightarrow> nat set) \<Rightarrow> 'x heap \<Rightarrow> 'a \<Rightarrow> 'a \<times> 'x heap \<Rightarrow> bool" where
  "isolated_copy read refs h x r \<longleftrightarrow>
    (case r of (y, h1) \<Rightarrow>
      read h1 y = read h x \<and> refs h1 y \<inter> refs h x = {} \<and> (\<forall>a < hp_next h. same_at h h1 a) \<and>
      (\<forall>h2. (\<forall>a. a \<notin> refs h1 y \<longrightarrow> same_at h1 h2 a) \<longrightarrow> read h2 x = read h x) \<and>
      (\<forall>h2. (\<forall>a. a \<notin> refs h x \<longrightarrow> same_at h1 h2 a) \<longrightarrow> read h2 y = read h x))"

locale copier =
  fixes copy :: "('x, 'a) copy" and read :: "'x heap \<Rightarrow> 'a \<Rightarrow> 'v" and refs :: "'x heap \<Rightarrow> 'a \<Rightarrow> nat set"
  assumes copy_spec: "refs h x \<subseteq> {..<hp_next h} \<Longrightarrow> run_state (copy x) h = (y, h') \<Longrightarrow> fresh_copy read refs h x y h'"
    and frame: "(\<And>a. a \<in> refs h x \<Longrightarrow> same_at h h' a) \<Longrightarrow> read h' x = read h x \<and> refs h' x = refs h x"
begin

lemma extends_frame:
  "refs h x \<subseteq> {..<hp_next h} \<Longrightarrow> extends h h' \<Longrightarrow> read h' x = read h x \<and> refs h' x = refs h x"
  by (rule frame) (auto simp: extends_def)

lemma extends_alloc: "refs h x \<subseteq> {..<hp_next h} \<Longrightarrow> extends h h' \<Longrightarrow> refs h' x \<subseteq> {..<hp_next h'}"
  using extends_frame [of h x h'] by (auto simp: extends_def)

text \<open>Changes to cells of the copy do not show in the original, nor the other way round.\<close>

lemma isolated:
  assumes x: "refs h x \<subseteq> {..<hp_next h}" and run: "run_state (copy x) h = (y, h1)"
  shows "refs h1 y \<inter> refs h x = {}"
    and "(\<And>a. a \<notin> refs h1 y \<Longrightarrow> same_at h1 h2 a) \<Longrightarrow> read h2 x = read h x"
    and "(\<And>a. a \<notin> refs h x \<Longrightarrow> same_at h1 h2 a) \<Longrightarrow> read h2 y = read h x"
proof -
  have c: "extends h h1" "read h1 y = read h x" "refs h1 y \<subseteq> {hp_next h..<hp_next h1}"
    using copy_spec [OF x run] by (simp_all add: fresh_copy_def)
  have old: "read h1 x = read h x" "refs h1 x = refs h x"
    using extends_frame [OF x c(1)] by simp_all
  show disj: "refs h1 y \<inter> refs h x = {}" using c(3) x by fastforce
  show "read h2 x = read h x" if same: "\<And>a. a \<notin> refs h1 y \<Longrightarrow> same_at h1 h2 a"
    using frame [of h1 x h2] old disj same by auto
  show "read h2 y = read h x" if same: "\<And>a. a \<notin> refs h x \<Longrightarrow> same_at h1 h2 a"
    using frame [of h1 y h2] c(2) disj same by auto
qed

lemma isolated_copy: "refs h x \<subseteq> {..<hp_next h} \<Longrightarrow> isolated_copy read refs h x (run_state (copy x) h)"
  using isolated [of h x] copy_spec [of h x]
  by (auto simp: isolated_copy_def fresh_copy_def extends_def split: prod.splits)

end

lemmas copierI = copier.intro

section \<open>Combinators\<close>

lemma copier_return: "copier State_Monad.return (\<lambda>h x. x) (\<lambda>h x. {})"
  by (rule copierI) (auto simp: State_Monad.return_def fresh_copy_def)

text \<open>Two parts, one after the other.\<close>

definition copy_pair :: "('x, 'a) copy \<Rightarrow> ('x, 'b) copy \<Rightarrow> ('x, 'a \<times> 'b) copy" where
  "copy_pair c d p = do { x \<leftarrow> c (fst p); y \<leftarrow> d (snd p); State_Monad.return (x, y) }"

definition read_pair where "read_pair r s h p = (r h (fst p), s h (snd p))"
definition refs_pair where "refs_pair r s h p = r h (fst p) \<union> s h (snd p)"

lemma run_bind: "run_state (State_Monad.bind m k) h = (let (x, h1) = run_state m h in run_state (k x) h1)"
  by (simp add: State_Monad.bind_def)

lemma run_return [simp]: "run_state (State_Monad.return x) h = (x, h)"
  by (simp add: State_Monad.return_def)

lemma copier_pair:
  assumes c: "copier c rc fc" and d: "copier d rd fd"
  shows "copier (copy_pair c d) (read_pair rc rd) (refs_pair fc fd)"
proof (rule copierI, goal_cases)
  case (1 h p q h2)
  obtain x h1 where x: "run_state (c (fst p)) h = (x, h1)" by fastforce
  with 1(2) obtain y where y: "run_state (d (snd p)) h1 = (y, h2)" and q: "q = (x, y)"
    by (auto simp: copy_pair_def run_bind split: prod.splits)
  have old: "fc h (fst p) \<subseteq> {..<hp_next h}" "fd h (snd p) \<subseteq> {..<hp_next h}"
    using 1(1) by (auto simp: refs_pair_def)
  have cx: "fresh_copy rc fc h (fst p) x h1" using copier.copy_spec [OF c old(1) x] .
  then have ext: "extends h h1" and new: "fc h1 x \<subseteq> {..<hp_next h1}" by (auto simp: fresh_copy_def)
  have cy: "fresh_copy rd fd h1 (snd p) y h2"
    using copier.copy_spec [OF d copier.extends_alloc [OF d old(2) ext] y] .
  have "rc h2 x = rc h1 x \<and> fc h2 x = fc h1 x"
    by (rule copier.extends_frame [OF c new fresh_copy_extends [OF cy]])
  moreover note fresh_copy_seq [OF cx cy]
  moreover have "rd h1 (snd p) = rd h (snd p)" using copier.extends_frame [OF d old(2) ext] by simp
  ultimately show ?case using cx cy by (simp add: q fresh_copy_def read_pair_def refs_pair_def)
next
  case (2 h p h')
  then show ?case using copier.frame [OF c, of h "fst p" h'] copier.frame [OF d, of h "snd p" h']
    by (auto simp: read_pair_def refs_pair_def)
qed

text \<open>The parts \<open>get\<close> of a struct, the others being plain.\<close>

definition copy_parts :: "('a \<Rightarrow> 'b) \<Rightarrow> ('b \<Rightarrow> 'a \<Rightarrow> 'a) \<Rightarrow> ('x, 'b) copy \<Rightarrow> ('x, 'a) copy" where
  "copy_parts get put c x = do { p \<leftarrow> c (get x); State_Monad.return (put p x) }"

definition read_parts where "read_parts get plain r h x = (plain x, r h (get x))"
definition refs_parts where "refs_parts get f h x = f h (get x)"

lemma copier_parts:
  assumes c: "copier c r f" and get: "\<And>p x. get (put p x) = p" and plain: "\<And>p x. plain (put p x) = plain x"
  shows "copier (copy_parts get put c) (read_parts get plain r) (refs_parts get f)"
proof (rule copierI, goal_cases)
  case (1 h x y h')
  then obtain p where "run_state (c (get x)) h = (p, h')" "y = put p x"
    by (auto simp: copy_parts_def run_bind split: prod.splits)
  with copier.copy_spec [OF c] 1(1) show ?case
    by (fastforce simp: fresh_copy_def read_parts_def refs_parts_def get plain)
next
  case (2 h x h')
  then show ?case using copier.frame [OF c, of h "get x" h'] by (auto simp: read_parts_def refs_parts_def)
qed

text \<open>The elements of a slice.\<close>

definition read_list where "read_list r h xs = map (r h) xs"
definition refs_list where "refs_list f h xs = (\<Union>x \<in> set xs. f h x)"

lemma copy_list_Cons:
  "copy_list c (x # xs) = copy_parts (\<lambda>l. (hd l, tl l)) (\<lambda>p _. fst p # snd p) (copy_pair c (copy_list c)) (x # xs)"
  by (simp add: copy_parts_def copy_pair_def)

lemma copy_list_spec:
  assumes c: "copier c r f"
  shows "refs_list f h xs \<subseteq> {..<hp_next h} \<Longrightarrow> run_state (copy_list c xs) h = (ys, h2) \<Longrightarrow>
    fresh_copy (read_list r) (refs_list f) h xs ys h2"
proof (induction xs arbitrary: h ys h2)
  case Nil
  then show ?case by (simp add: fresh_copy_def read_list_def refs_list_def)
next
  case (Cons x xs)
  obtain y h1 where y: "run_state (c x) h = (y, h1)" by fastforce
  with Cons.prems(2) obtain zs where zs: "run_state (copy_list c xs) h1 = (zs, h2)" and ys: "ys = y # zs"
    by (auto simp: run_bind split: prod.splits)
  have old: "f h x \<subseteq> {..<hp_next h}" "\<And>z. z \<in> set xs \<Longrightarrow> f h z \<subseteq> {..<hp_next h}"
    using Cons.prems(1) by (auto simp: refs_list_def)
  have cx: "fresh_copy r f h x y h1" using copier.copy_spec [OF c old(1) y] .
  then have ext: "extends h h1" and new: "f h1 y \<subseteq> {..<hp_next h1}" by (auto simp: fresh_copy_def)
  have rest: "\<And>z. z \<in> set xs \<Longrightarrow> r h1 z = r h z" "\<And>z. z \<in> set xs \<Longrightarrow> f h1 z \<subseteq> {..<hp_next h1}"
    using copier.extends_frame [OF c old(2) ext] copier.extends_alloc [OF c old(2) ext] by blast+
  have cy: "fresh_copy (read_list r) (refs_list f) h1 xs zs h2"
    by (rule Cons.IH) (use rest zs in \<open>auto simp: refs_list_def\<close>)
  have "r h2 y = r h1 y \<and> f h2 y = f h1 y"
    by (rule copier.extends_frame [OF c new fresh_copy_extends [OF cy]])
  moreover have "read_list r h1 xs = read_list r h xs" using rest(1) by (simp add: read_list_def)
  moreover note fresh_copy_seq [OF cx cy]
  ultimately show ?case using cx cy by (simp add: ys fresh_copy_def read_list_def refs_list_def)
qed

lemma copier_list:
  assumes c: "copier c r f"
  shows "copier (copy_list c) (read_list r) (refs_list f)"
proof (rule copierI, goal_cases)
  case 1
  then show ?case by (rule copy_list_spec [OF c])
next
  case (2 h xs h')
  have "r h' x = r h x \<and> f h' x = f h x" if "x \<in> set xs" for x
    by (rule copier.frame [OF c]) (use 2 that in \<open>auto simp: refs_list_def\<close>)
  then show ?case by (simp add: read_list_def refs_list_def)
qed

text \<open>A new object for an old one.\<close>

definition read_ptr where "read_ptr proj r h p = map_option (\<lambda>a. r h (proj (hp_cells h a))) p"
definition refs_ptr where
  "refs_ptr proj f h p = (case p of None \<Rightarrow> {} | Some a \<Rightarrow> insert a (f h (proj (hp_cells h a))))"

lemma copier_ptr:
  assumes c: "copier c r f" and proj: "\<And>v. proj (mk v) = v"
  shows "copier (copy_ptr proj mk c) (read_ptr proj r) (refs_ptr proj f)"
proof (rule copierI, goal_cases)
  case (1 h p q h2)
  show ?case
  proof (cases p)
    case None
    with 1 show ?thesis by (auto simp: copy_ptr_def fresh_copy_def read_ptr_def refs_ptr_def)
  next
    case (Some a)
    let ?x = "proj (hp_cells h a)" and ?h0 = "h\<lparr>hp_next := Suc (hp_next h)\<rparr>"
    obtain v h1 where v: "run_state (c ?x) ?h0 = (v, h1)" by fastforce
    with 1(2) Some have q: "q = Some (hp_next h)"
      and h2: "h2 = h1\<lparr>hp_cells := (hp_cells h1)(hp_next h := mk v)\<rparr>"
      by (auto simp: copy_ptr_def run_bind alloc_def load_def store_def)
    have old: "f h ?x \<subseteq> {..<hp_next h}" using 1(1) Some by (auto simp: refs_ptr_def)
    have ext0: "extends h ?h0" by (simp add: extends_def same_at_def)
    have cv: "fresh_copy r f ?h0 ?x v h1"
      using copier.copy_spec [OF c copier.extends_alloc [OF c old ext0] v] .
    have "r h2 v = r h1 v \<and> f h2 v = f h1 v"
      by (rule copier.frame [OF c]) (use cv in \<open>auto simp: h2 same_at_def fresh_copy_def\<close>)
    with cv copier.extends_frame [OF c old ext0] Some q h2 show ?thesis
      by (auto simp: fresh_copy_def read_ptr_def refs_ptr_def proj extends_def same_at_def)
  qed
next
  case (2 h p h')
  show ?case
  proof (cases p)
    case (Some a)
    have "same_at h h' a" "\<And>b. b \<in> f h (proj (hp_cells h a)) \<Longrightarrow> same_at h h' b"
      using 2 Some by (auto simp: refs_ptr_def)
    then show ?thesis using copier.frame [OF c, of h "proj (hp_cells h a)" h'] Some
      by (auto simp: read_ptr_def refs_ptr_def same_at_def)
  qed (simp add: read_ptr_def refs_ptr_def)
qed

text \<open>The entries of a map: its value is what a lookup finds.\<close>

definition read_entries :: "'x heap \<Rightarrow> (string \<times> string) list \<Rightarrow> string \<Rightarrow> string option" where
  "read_entries h kvs = map_of (rev kvs)"

lemma copy_entries_snoc: "copy_entries (kvs @ [(k, v)]) = AList.update k v (copy_entries kvs)"
  by (simp add: copy_entries_def)

lemma copy_entries_map_of:
  "distinct (map fst (copy_entries kvs)) \<and> map_of (copy_entries kvs) = map_of (rev kvs)"
proof (induction kvs rule: rev_induct)
  case Nil
  show ?case by (simp add: copy_entries_def)
next
  case (snoc kv kvs)
  then show ?case by (cases kv) (simp add: copy_entries_snoc AList.distinct_update AList.update_conv)
qed

lemma map_of_rev_distinct: "distinct (map fst kvs) \<Longrightarrow> map_of (rev kvs) = map_of kvs"
  by (rule map_of_eqI) (auto simp: rev_map [symmetric] map_of_eq_Some_iff)

lemma copier_entries: "copier (\<lambda>kvs. State_Monad.return (copy_entries kvs)) read_entries (\<lambda>h kvs. {})"
  by (rule copierI) (auto simp: fresh_copy_def read_entries_def copy_entries_map_of map_of_rev_distinct)

section \<open>The types\<close>

text \<open>A struct is the copy of its parts that are not plain.\<close>

lemma Metadata_parts:
  "Metadata_DeepCopyInto = copy_parts (\<lambda>x. (ms_Annotations x, ms_Labels x))
    (\<lambda>(a, l) x. x\<lparr>ms_Annotations := a, ms_Labels := l\<rparr>) (copy_pair copy_map copy_map)"
  by (rule ext) (simp add: Metadata_DeepCopyInto_def copy_parts_def copy_pair_def)

lemma EgressPodTemplate_parts:
  "EgressPodTemplate_DeepCopyInto lib = copy_parts (\<lambda>x. (ts_Metadata x, ts_Spec x))
    (\<lambda>(m, s) x. x\<lparr>ts_Metadata := m, ts_Spec := s\<rparr>) (copy_pair Metadata_DeepCopyInto (PodSpec_DeepCopyInto lib))"
  by (rule ext) (simp add: EgressPodTemplate_DeepCopyInto_def copy_parts_def copy_pair_def)

lemma EgressSpec_parts:
  "EgressSpec_DeepCopyInto lib = copy_parts
    (\<lambda>x. (ss_Destinations x, ss_Strategy x, ss_Template x, ss_SessionAffinityConfig x))
    (\<lambda>(d, st, t, sa) x. x\<lparr>ss_Destinations := d, ss_Strategy := st, ss_Template := t, ss_SessionAffinityConfig := sa\<rparr>)
    (copy_pair (copy_ptr cStrs CStrs State_Monad.return)
      (copy_pair (copy_ptr cExt CExt (DeploymentStrategy_DeepCopyInto lib))
        (copy_pair (copy_ptr cTemplate CTemplate (EgressPodTemplate_DeepCopyInto lib))
          (copy_ptr cExt CExt (SessionAffinityConfig_DeepCopyInto lib)))))"
  by (rule ext) (simp add: EgressSpec_DeepCopyInto_def copy_parts_def copy_pair_def)

lemma Egress_parts:
  "Egress_DeepCopyInto lib = copy_parts (\<lambda>x. (es_ObjectMeta x, es_Spec x))
    (\<lambda>(m, s) x. x\<lparr>es_ObjectMeta := m, es_Spec := s\<rparr>)
    (copy_pair (ObjectMeta_DeepCopyInto lib) (EgressSpec_DeepCopyInto lib))"
  by (rule ext) (simp add: Egress_DeepCopyInto_def copy_parts_def copy_pair_def)

lemma EgressList_parts:
  "EgressList_DeepCopyInto lib = copy_parts (\<lambda>x. (ls_ListMeta x, ls_Items x))
    (\<lambda>(m, i) x. x\<lparr>ls_ListMeta := m, ls_Items := i\<rparr>)
    (copy_pair (ListMeta_DeepCopyInto lib) (copy_ptr cItems CItems (copy_list (Egress_DeepCopyInto lib))))"
  by (rule ext) (simp add: EgressList_DeepCopyInto_def copy_parts_def copy_pair_def)

text \<open>\<^verbatim>\<open>DeepCopyObject\<close> only changes the static type.\<close>

lemma case_option_id: "(case x of None \<Rightarrow> None | Some a \<Rightarrow> Some a) = x"
  by (cases x) simp_all

lemma DeepCopyObject_eq:
  "Egress_DeepCopyObject lib = Egress_DeepCopy lib" "EgressList_DeepCopyObject lib = EgressList_DeepCopy lib"
  by (auto simp: Egress_DeepCopyObject_def EgressList_DeepCopyObject_def case_option_id)

text \<open>What can be read from an object of each type, and through which addresses.\<close>

abbreviation "read_map \<equiv> read_ptr cMap read_entries"
abbreviation "refs_map \<equiv> refs_ptr cMap (\<lambda>h kvs. {})"

definition read_Metadata where
  "read_Metadata = read_parts (\<lambda>x. (ms_Annotations x, ms_Labels x)) (\<lambda>x. ()) (read_pair read_map read_map)"
definition refs_Metadata where
  "refs_Metadata = refs_parts (\<lambda>x. (ms_Annotations x, ms_Labels x)) (refs_pair refs_map refs_map)"

definition read_EgressPodTemplate where
  "read_EgressPodTemplate xread = read_parts (\<lambda>x. (ts_Metadata x, ts_Spec x)) (\<lambda>x. ()) (read_pair read_Metadata xread)"
definition refs_EgressPodTemplate where
  "refs_EgressPodTemplate xrefs = refs_parts (\<lambda>x. (ts_Metadata x, ts_Spec x)) (refs_pair refs_Metadata xrefs)"

definition read_EgressSpec where
  "read_EgressSpec xread = read_parts
    (\<lambda>x. (ss_Destinations x, ss_Strategy x, ss_Template x, ss_SessionAffinityConfig x))
    (\<lambda>x. (ss_Replicas x, ss_SessionAffinity x))
    (read_pair (read_ptr cStrs (\<lambda>h x. x)) (read_pair (read_ptr cExt xread)
      (read_pair (read_ptr cTemplate (read_EgressPodTemplate xread)) (read_ptr cExt xread))))"
definition refs_EgressSpec where
  "refs_EgressSpec xrefs = refs_parts
    (\<lambda>x. (ss_Destinations x, ss_Strategy x, ss_Template x, ss_SessionAffinityConfig x))
    (refs_pair (refs_ptr cStrs (\<lambda>h x. {})) (refs_pair (refs_ptr cExt xrefs)
      (refs_pair (refs_ptr cTemplate (refs_EgressPodTemplate xrefs)) (refs_ptr cExt xrefs))))"

definition read_Egress where
  "read_Egress xread = read_parts (\<lambda>x. (es_ObjectMeta x, es_Spec x)) (\<lambda>x. (es_TypeMeta x, es_Status x))
    (read_pair xread (read_EgressSpec xread))"
definition refs_Egress where
  "refs_Egress xrefs = refs_parts (\<lambda>x. (es_ObjectMeta x, es_Spec x)) (refs_pair xrefs (refs_EgressSpec xrefs))"

definition read_EgressList where
  "read_EgressList xread = read_parts (\<lambda>x. (ls_ListMeta x, ls_Items x)) ls_TypeMeta
    (read_pair xread (read_ptr cItems (read_list (read_Egress xread))))"
definition refs_EgressList where
  "refs_EgressList xrefs = refs_parts (\<lambda>x. (ls_ListMeta x, ls_Items x))
    (refs_pair xrefs (refs_ptr cItems (refs_list (refs_Egress xrefs))))"

text \<open>The copies of the other packages meet the contract; then so do the generated ones.\<close>

locale ext_copies =
  fixes lib :: "'x ext_lib" and xread :: "'x heap \<Rightarrow> 'x \<Rightarrow> 'v" and xrefs :: "'x heap \<Rightarrow> 'x \<Rightarrow> nat set"
  assumes ObjectMeta: "copier (ObjectMeta_DeepCopyInto lib) xread xrefs"
    and ListMeta: "copier (ListMeta_DeepCopyInto lib) xread xrefs"
    and PodSpec: "copier (PodSpec_DeepCopyInto lib) xread xrefs"
    and DeploymentStrategy: "copier (DeploymentStrategy_DeepCopyInto lib) xread xrefs"
    and SessionAffinityConfig: "copier (SessionAffinityConfig_DeepCopyInto lib) xread xrefs"
begin

lemmas copiers = copier_parts copier_pair copier_ptr copier_list copier_return copier_entries
  ObjectMeta ListMeta PodSpec DeploymentStrategy SessionAffinityConfig

lemma Metadata: "copier Metadata_DeepCopyInto read_Metadata refs_Metadata"
  unfolding Metadata_parts read_Metadata_def refs_Metadata_def by (intro copiers) auto

lemma EgressPodTemplate:
  "copier (EgressPodTemplate_DeepCopyInto lib) (read_EgressPodTemplate xread) (refs_EgressPodTemplate xrefs)"
  unfolding EgressPodTemplate_parts read_EgressPodTemplate_def refs_EgressPodTemplate_def
  by (intro copiers Metadata) auto

lemma EgressSpec: "copier (EgressSpec_DeepCopyInto lib) (read_EgressSpec xread) (refs_EgressSpec xrefs)"
  unfolding EgressSpec_parts read_EgressSpec_def refs_EgressSpec_def
  by (intro copiers EgressPodTemplate) auto

lemma Egress: "copier (Egress_DeepCopyInto lib) (read_Egress xread) (refs_Egress xrefs)"
  unfolding Egress_parts read_Egress_def refs_Egress_def by (intro copiers EgressSpec) auto

lemma EgressList: "copier (EgressList_DeepCopyInto lib) (read_EgressList xread) (refs_EgressList xrefs)"
  unfolding EgressList_parts read_EgressList_def refs_EgressList_def by (intro copiers Egress) auto

end

sublocale ext_copies \<subseteq> egress: copier "Egress_DeepCopy lib" "read_ptr cEgress (read_Egress xread)" "refs_ptr cEgress (refs_Egress xrefs)"
  unfolding Egress_DeepCopy_def by (intro copier_ptr Egress) simp

sublocale ext_copies \<subseteq> egress_list: copier "EgressList_DeepCopy lib" "read_ptr cList (read_EgressList xread)"
    "refs_ptr cList (refs_EgressList xrefs)"
  unfolding EgressList_DeepCopy_def by (intro copier_ptr EgressList) simp

text \<open>The same for the parts that have a \<^verbatim>\<open>DeepCopy\<close> of their own.\<close>

context ext_copies
begin

lemma parts_DeepCopy:
  "copier Metadata_DeepCopy (read_ptr cMetadata read_Metadata) (refs_ptr cMetadata refs_Metadata)"
  "copier (EgressPodTemplate_DeepCopy lib) (read_ptr cTemplate (read_EgressPodTemplate xread))
    (refs_ptr cTemplate (refs_EgressPodTemplate xrefs))"
  "copier (EgressSpec_DeepCopy lib) (read_ptr cSpec (read_EgressSpec xread)) (refs_ptr cSpec (refs_EgressSpec xrefs))"
  unfolding Metadata_DeepCopy_def EgressPodTemplate_DeepCopy_def EgressSpec_DeepCopy_def
  by (intro copier_ptr Metadata EgressPodTemplate EgressSpec; simp)+

lemmas objects_isolated = egress.isolated_copy egress_list.isolated_copy

end

interpretation status: copier EgressStatus_DeepCopy "read_ptr cStatus (\<lambda>h x. x)" "refs_ptr cStatus (\<lambda>h x. {})"
  unfolding EgressStatus_DeepCopy_def EgressStatus_DeepCopyInto_def
  by (rule copier_ptr [OF copier_return]) simp

section \<open>Copies that run\<close>

text \<open>Objects of other packages that hold a text and pointers to texts.\<close>

type_synonym mem_ext = "string \<times> nat option list"

definition mem_text :: "(mem_ext, mem_ext) copy" where
  "mem_text = copy_parts fst (\<lambda>t x. (t, [])) State_Monad.return"

definition mem_copy :: "(mem_ext, mem_ext) copy" where
  "mem_copy = copy_pair State_Monad.return (copy_list (copy_ptr cExt CExt mem_text))"

definition mem_read where
  "mem_read = read_pair (\<lambda>h x. x) (read_list (read_ptr cExt (read_parts fst (\<lambda>x. ()) (\<lambda>h x. x))))"

definition mem_refs where
  "mem_refs = refs_pair (\<lambda>h x. {}) (refs_list (refs_ptr cExt (refs_parts fst (\<lambda>h x. {}))))"

lemma mem_copier: "copier mem_copy mem_read mem_refs"
  unfolding mem_copy_def mem_read_def mem_refs_def mem_text_def
  by (intro copier_pair copier_return copier_list copier_ptr copier_parts) auto

definition mem_ext_lib :: "mem_ext ext_lib" where
  "mem_ext_lib = \<lparr>ObjectMeta_DeepCopyInto = mem_copy, ListMeta_DeepCopyInto = mem_copy,
    PodSpec_DeepCopyInto = mem_copy, DeploymentStrategy_DeepCopyInto = mem_copy,
    SessionAffinityConfig_DeepCopyInto = mem_copy\<rparr>"

interpretation mem_ext: ext_copies mem_ext_lib mem_read mem_refs
  by unfold_locales (simp_all add: mem_ext_lib_def copier.frame [OF mem_copier] copier.copy_spec [OF mem_copier])

section \<open>Property\<close>

text \<open>
  C38. The deep copies of an \<^verbatim>\<open>Egress\<close> and of an \<^verbatim>\<open>EgressList\<close> are isolated from their originals, at every
  depth, if those of the structs of other packages are: the copy has the same contents, no pointer, map
  or slice in common with the original, and neither sees later changes of the other; nil is
  copied to nil.
\<close>

theorem DeepCopyObject_isolated:
  assumes "ext_copies lib xread xrefs"
  shows "(refs_ptr cEgress (refs_Egress xrefs) h p \<subseteq> {..<hp_next h} \<longrightarrow>
      isolated_copy (read_ptr cEgress (read_Egress xread)) (refs_ptr cEgress (refs_Egress xrefs)) h p
        (run_state (Egress_DeepCopyObject lib p) h)) \<and>
    (refs_ptr cList (refs_EgressList xrefs) h p \<subseteq> {..<hp_next h} \<longrightarrow>
      isolated_copy (read_ptr cList (read_EgressList xread)) (refs_ptr cList (refs_EgressList xrefs)) h p
        (run_state (EgressList_DeepCopyObject lib p) h))"
  unfolding DeepCopyObject_eq
  by (blast intro: ext_copies.objects_isolated [OF assms])

text \<open>A list of one \<^verbatim>\<open>Egress\<close> with destinations, a template with labels, and metadata with an owner.\<close>

definition demo_cells :: "nat \<Rightarrow> mem_ext cell" where
  "demo_cells = (\<lambda>a. CStrs [''10.0.0.0/8''])(
    0 := CList \<lparr>ls_TypeMeta = (''EgressList'', ''v1beta1''), ls_ListMeta = ([], []), ls_Items = Some 1\<rparr>,
    1 := CItems [\<lparr>es_TypeMeta = (''Egress'', ''v1beta1''), es_ObjectMeta = (''nat'', [Some 5]),
      es_Spec = \<lparr>ss_Destinations = Some 2, ss_Replicas = 1, ss_Strategy = None, ss_Template = Some 3,
        ss_SessionAffinity = ''ClientIP'', ss_SessionAffinityConfig = None\<rparr>,
      es_Status = \<lparr>st_Replicas = 0, st_Selector = []\<rparr>\<rparr>],
    3 := CTemplate \<lparr>ts_Metadata = \<lparr>ms_Annotations = None, ms_Labels = Some 4\<rparr>, ts_Spec = (''pod'', [])\<rparr>,
    4 := CMap [(''app'', ''egress''), (''tier'', ''net'')],
    5 := CExt (''owner'', []))"

lemmas demo_defs = refs_ptr_def refs_EgressList_def refs_Egress_def refs_EgressSpec_def refs_EgressPodTemplate_def
  refs_Metadata_def refs_parts_def refs_pair_def refs_list_def mem_refs_def demo_cells_def

lemma demo_allocated:
  "refs_ptr cList (refs_EgressList mem_refs) \<lparr>hp_next = 6, hp_cells = demo_cells\<rparr> (Some 0) \<subseteq> {..<6}"
  by (simp add: demo_defs)

theorem DeepCopyObject_isolated_witness:
  "isolated_copy (read_ptr cList (read_EgressList mem_read)) (refs_ptr cList (refs_EgressList mem_refs))
      \<lparr>hp_next = 6, hp_cells = demo_cells\<rparr> (Some 0)
      (run_state (EgressList_DeepCopyObject mem_ext_lib (Some 0)) \<lparr>hp_next = 6, hp_cells = demo_cells\<rparr>)"
  using DeepCopyObject_isolated [OF mem_ext.ext_copies_axioms, of "\<lparr>hp_next = 6, hp_cells = demo_cells\<rparr>" "Some 0"] demo_allocated
  by simp

end
