(* ===== verification/Echo_Server.thy ===== *)
theory Echo_Server
  imports Go_Prelude
begin

text \<open>
  \<^verbatim>\<open>e2e/echo-server\<close>: the handler that the end-to-end tests call through a gateway, to see the source address
  of their packets.
\<close>

record http_request =
  rq_Body :: "err + string"
  rq_Path :: string
  rq_RemoteAddr :: string

text \<open>\<open>rq_Body\<close> is the result of \<^verbatim>\<open>io.ReadAll\<close>.  The status is 200 unless it is written before the body.\<close>

record http_response =
  rs_Status :: "nat option"
  rs_Header :: "string \<Rightarrow> string option"
  rs_Body :: string

definition http_Write :: "string \<Rightarrow> http_response \<Rightarrow> http_response" where
  "http_Write data w = w\<lparr>rs_Status := Some (case rs_Status w of None \<Rightarrow> 200 | Some c \<Rightarrow> c), rs_Body := rs_Body w @ data\<rparr>"

definition http_Error :: "string \<Rightarrow> nat \<Rightarrow> http_response \<Rightarrow> http_response" where
  "http_Error msg code w =
    http_Write (msg @ [CHR 0x0A]) (w\<lparr>rs_Header := (rs_Header w)(''Content-Type'' \<mapsto> ''text/plain; charset=utf-8'',
      ''X-Content-Type-Options'' \<mapsto> ''nosniff''), rs_Status := Some code\<rparr>)"

text \<open>Header names are canonical; \<open>Error\<close> prints an error value.\<close>

definition ServeHTTP :: "(err \<Rightarrow> string) \<Rightarrow> http_request \<Rightarrow> http_response \<Rightarrow> http_response" where
  "ServeHTTP Error req w =
    (case rq_Body req of
       Inl e \<Rightarrow> http_Error (Error e) 400 w
     | Inr body \<Rightarrow>
         let w = w\<lparr>rs_Header := (rs_Header w)(''Content-Type'' \<mapsto> ''application/octet-stream'')\<rparr> in
         if rq_Path req = ''/source'' then http_Write (''source: '' @ rq_RemoteAddr req @ [CHR 0x0A]) w
         else http_Write body w)"

text \<open>Every request is answered, with its own body or address, or with the error of reading it.\<close>

lemma ServeHTTP_answers:
  fixes fresh :: http_response
  defines "fresh \<equiv> \<lparr>rs_Status = None, rs_Header = Map.empty, rs_Body = []\<rparr>"
  shows "rs_Body (ServeHTTP Error req fresh) =
      (case rq_Body req of
         Inl e \<Rightarrow> Error e @ [CHR 0x0A]
       | Inr body \<Rightarrow> if rq_Path req = ''/source'' then ''source: '' @ rq_RemoteAddr req @ [CHR 0x0A] else body)"
    and "rs_Status (ServeHTTP Error req fresh) = Some (case rq_Body req of Inl _ \<Rightarrow> 400 | Inr _ \<Rightarrow> 200)"
  by (auto simp: fresh_def ServeHTTP_def http_Error_def http_Write_def Let_def split: sum.splits)

end
