(* ===== verification/Spec2Isabelle.thy ===== *)
theory Spec2Isabelle
  imports Cni_Rpc Command_Lines Watcher_Workers Gencert Deep_Copy Echo_Server
begin

text \<open>
  A verification development of the Kubernetes egress gateway in \<^verbatim>\<open>src/\<close>.

  \<^bold>\<open>The program.\<close>  An \<^verbatim>\<open>Egress\<close> resource lists networks; the controller runs gateway pods and a Service for it.
  A client pod names an \<^verbatim>\<open>Egress\<close> in an annotation.  When the container runtime creates the client, the CNI
  plugin calls the agent of the node, which looks up the \<^verbatim>\<open>Egress\<close> and its Service and sets up, in the
  client's network namespace, a Foo-over-UDP tunnel to the Service and policy routing for the networks.
  The process of a gateway pod sets up the receiving end of the tunnels and masquerading, and watches the
  pods to add a tunnel back to every client and to remove it when the last pod of an address is gone.

  \<^bold>\<open>Parts, theories, sources.\<close>

  \<^item> \<open>Go_Prelude\<close>: error values, functions that return \<^verbatim>\<open>(T, error)\<close> as a state monad over a sum type, its
    weakest preconditions and loop rule, strings.  \<open>Go_Net\<close>: what is used of package \<^verbatim>\<open>net\<close>.
    \<open>Go_Sha1\<close>: \<^verbatim>\<open>sha1.Sum\<close> on machine words.
  \<^item> \<open>Netlink\<close>: the calls on the kernel as a record of parameters, and what the program relies on of them
    (locales \<open>netlink_laws\<close>, and \<open>netlink_reliable\<close> for what succeeds).  \<open>Mem_Kernel\<close>: a kernel that can be run,
    with calls that fail on demand, which meets both.
  \<^item> \<open>Fou\<close> (\<^verbatim>\<open>pkg/founat/fou.go\<close>), \<open>Nat_Client\<close> (\<^verbatim>\<open>client.go\<close>), \<open>Egress_Nat\<close> (\<^verbatim>\<open>egress.go\<close>): each method is a
    definition of the name of the method; the Go interfaces are records of methods, and what they promise to
    their clients are the locales \<open>fou_peers\<close> and \<open>egress_clients\<close>, which \<open>netlink_laws\<close> implies for this code.
    Shown: tunnel names, the exact effect of every method on success and what an error leaves, that the
    peers are a set, that initialisation is done once, when calls succeed, that initialising a client again
    restores the same state, and that the rules and routes select the intended table for every destination.
  \<^item> \<open>Egress_Api\<close> (\<^verbatim>\<open>api/v1beta1\<close>, \<^verbatim>\<open>pkg/constants\<close>): the resource, validation and the webhook.  Shown: exactly
    what is admitted, which errors are reported, and that all stored versions are well formed and keep
    their destinations.
  \<^item> \<open>Pod_Watcher\<close>, \<open>Watcher_Spec\<close> (\<^verbatim>\<open>controllers/pod_watcher.go\<close>): the reconciler over the interfaces of \<open>Fou\<close> and
    \<open>Egress_Nat\<close> (locale \<open>gateway\<close>) and its maps.  Shown: the effect of adding and deleting pods, when a
    reconciliation succeeds, and how shared addresses and failed deletions go wrong.  \<open>Watcher_Workers\<close>: any number
    of workers as a step relation, with the mutex.  Shown for every interleaving: mutual exclusion, the
    invariants of the maps and of the tunnels, no deadlock, and a bound on the steps until all are idle.
  \<^item> \<open>Agent\<close>, \<open>Agent_Setup\<close>, \<open>Agent_Spec\<close> (\<^verbatim>\<open>runners/agent.go\<close>): the handlers and what they leave in the namespace
    of the client, through tunnels and policy routing, for all gateways of the pod together.
  \<^item> \<open>Cni_Plugin\<close> (\<^verbatim>\<open>cmd/egress-gw-cni\<close>): the commands and the conversion of errors, composed with the agent.
    \<open>Cni_Rpc\<close> (\<^verbatim>\<open>pkg/cnirpc/cni_grpc.pb.go\<close>): the generated client and handlers between the two.  Shown: over a
    connection with the contract \<open>grpc_conn\<close> a call is one run of the agent's handler, so the assumption on
    the client in \<open>plugin_agent\<close> follows (locale \<open>rpc_plugin\<close>).
  \<^item> \<open>Cluster\<close>: the objects of the API server that the controllers write, the client's calls, their contract
    (locale \<open>k8s_laws\<close>) and an in-memory server.  \<open>Crb_Controller\<close>, \<open>Egress_Controller\<close> (\<^verbatim>\<open>controllers/\<close>): both
    reconcilers.  Shown: the pod template, that reconciling is stable under what a server fills in, and what the
    server holds after a reconciliation.
  \<^item> \<open>Egress_Gw\<close> (\<^verbatim>\<open>cmd/egress-gw/sub/run.go\<close>): the start of a gateway pod, composed of the above.
  \<^item> \<open>Processes\<close> (\<^verbatim>\<open>cmd/egress-gw-controller/sub/run.go\<close>, \<^verbatim>\<open>cmd/egress-gw-agent/sub/run.go\<close>, with the functions that
    register the controllers and the webhook): what the two processes hand to their managers, over a contract
    of the manager (locale \<open>mgr_laws\<close>); \<open>Go_Addr\<close> has the parsing of the webhook address.
  \<^item> \<open>Command_Lines\<close> (\<^verbatim>\<open>sub/root.go\<close> of each command, \<^verbatim>\<open>version.go\<close>, \<^verbatim>\<open>groupversion_info.go\<close>): flags with their defaults, settings
    of the installer, exit codes and schemes, over a parser of flags with a contract (locale \<open>flag_laws\<close>).
  \<^item> \<open>Installer\<close> (\<^verbatim>\<open>cmd/egress-gw-installer\<close>) and \<open>Gencert\<close> (\<^verbatim>\<open>cmd/gencert\<close>): over the calls of package \<^verbatim>\<open>os\<close> and their
    contracts (\<open>os_laws\<close>, \<open>gencert_laws\<close>), with \<^verbatim>\<open>filepath.Join\<close> as a definition.  Shown: what the directories hold
    after a success and after a failure at any call, that the plugin's binary is replaced atomically, and
    that certificate and key belong together.
  \<^item> \<open>Deep_Copy\<close> (\<^verbatim>\<open>api/v1beta1/zz_generated.deepcopy.go\<close>): the copies over a heap of addresses, since sharing is what
    they are about.  Shown: copy and original have the same contents and share nothing (locale \<open>copier\<close>, one
    combinator per shape of the generated code).
  \<^item> \<open>Echo_Server\<close> (\<^verbatim>\<open>e2e/echo-server\<close>): the handler of the test server.
  \<^item> this theory: what spans components, from the controller to the gateway pods and to the agent, and the ports
    on which they meet.

  \<^bold>\<open>State and errors.\<close>  A function that changes the kernel or the API server is a program over an
  arbitrary state type; theorems speak of a view of it (\<open>kview\<close>, \<open>cluster\<close>).  The watcher's own maps are
  an explicit record.  Every error return is an \<open>Inl\<close>; a panic is the error value \<open>Panic\<close>.  Maps that
  the code iterates over are lists of entries in the order of the iteration, so the theorems hold for
  every order.  Integers are unbounded where the code only compares or copies them; bytes, masks and
  SHA-1 are machine words.

  \<^bold>\<open>Bounds.\<close>  No definition uses fuel: loops are structural recursion over slices, and the parsers
  recurse over the characters that are left.

  \<^bold>\<open>Concurrency.\<close>  The mutex of the watcher is explicit in \<open>Watcher_Workers\<close>, where a locked section is one step:
  all accesses to the maps are inside of locked sections.  The mutexes of \<^verbatim>\<open>fouTunnel\<close>, \<^verbatim>\<open>natClient\<close> and \<^verbatim>\<open>egress\<close> are left
  out: the methods they guard are called by the watcher with its own mutex held, or by a handler of the
  agent on objects of its own.

  \<^bold>\<open>Not modelled.\<close>  Logging and metrics registration, and of the manager's options those for leader
  election, metrics and probes.  The reflection code of the generated protobuf messages, which only hands
  descriptors to the library; the messages themselves are records.  The \<^verbatim>\<open>main\<close> functions that only call
  \<^verbatim>\<open>Execute\<close>, and the declarations of usage texts.
\<close>

section \<open>From the controller to the gateway pods\<close>

text \<open>
  The environment the kubelet gives a container: the value of the last entry of a name, where the
  field \<^verbatim>\<open>status.podIPs\<close> is the comma-separated list of the pod's addresses.
\<close>

fun env_name :: "EnvVar \<Rightarrow> string" where
  "env_name (EnvValue x v) = x"
| "env_name (EnvFieldRef x path) = x"

fun env_value :: "string list \<Rightarrow> EnvVar \<Rightarrow> string \<Rightarrow> bool" where
  "env_value ips (EnvValue x v) y = (y = v)"
| "env_value ips (EnvFieldRef x path) y = (path = ''status.podIPs'' \<longrightarrow> y = Join ips '','')"

definition kubelet_env :: "string list \<Rightarrow> EnvVar list \<Rightarrow> (string \<Rightarrow> string) \<Rightarrow> bool" where
  "kubelet_env ips env Getenv \<longleftrightarrow> (\<forall>pre v post. env = pre @ v # post \<and> env_name v \<notin> env_name ` set post \<longrightarrow>
    env_value ips v (Getenv (env_name v)))"

lemma kubelet_env_gateway:
  assumes "kubelet_env ips (c_Env (egressContainer r eg u)) Getenv"
  shows "Getenv EnvPodNamespace = eg_Namespace eg" "Getenv EnvEgressName = eg_Name eg"
    "Getenv EnvAddresses = Join ips '',''"
proof -
  let ?vars = "[EnvValue EnvPodNamespace (eg_Namespace eg), EnvValue EnvEgressName (eg_Name eg),
      EnvFieldRef EnvAddresses ''status.podIPs'']"
  have env: "c_Env (egressContainer r eg u) = c_Env u @ ?vars" by (simp add: egressContainer_def)
  have last: "env_value ips v (Getenv (env_name v))"
    if "c_Env u @ ?vars = pre @ v # post" "env_name v \<notin> env_name ` set post" for pre v post
    using assms that unfolding kubelet_env_def env by blast
  have names: "distinct [EnvPodNamespace, EnvEgressName, EnvAddresses]"
    by (simp add: EnvPodNamespace_def EnvEgressName_def EnvAddresses_def)
  show "Getenv EnvPodNamespace = eg_Namespace eg"
    using last [of "c_Env u" "?vars ! 0" "drop 1 ?vars"] names by simp
  show "Getenv EnvEgressName = eg_Name eg"
    using last [of "c_Env u @ take 1 ?vars" "?vars ! 1" "drop 2 ?vars"] names by simp
  show "Getenv EnvAddresses = Join ips '',''"
    using last [of "c_Env u @ take 2 ?vars" "?vars ! 2" "[]"] by (simp add: numeral_2_eq_2)
qed

text \<open>The container the controller configures.\<close>

definition gateway_container :: "EgressReconciler \<Rightarrow> EgressObj \<Rightarrow> Deployment \<Rightarrow> Container" where
  "gateway_container r eg d = last (filter is_gateway (Containers (tp_Spec (dp_Template (reconcilePodTemplate r eg d)))))"

lemma gateway_container_eq:
  "gateway_container r eg d = egressContainer r eg (user_gateway (Containers (user_spec eg)))"
  by (simp add: gateway_container_def reconcilePodTemplate_eq gateway_spec_def gateway_containers_gateways)

section \<open>Properties\<close>

text \<open>
  C1. A gateway pod that the controller has made for an \<^verbatim>\<open>Egress\<close>, and whose process has started, serves
  exactly the clients of that \<^verbatim>\<open>Egress\<close>: its watcher handles a pod exactly if the agent looks this \<^verbatim>\<open>Egress\<close>
  up for the pod, whatever environment the user's template sets; its tunnels and its masquerading
  are for the families of the pod's own addresses.
\<close>

theorem gateway_pod_serves_egress:
  assumes "gw_manager nl view mgr"
    and "kubelet_env ips (c_Env (gateway_container r eg d)) Getenv"
    and "ips \<noteq> []" "\<forall>ip \<in> set ips. CHR '','' \<notin> set ip" "CHR '','' \<notin> set (eg_Name eg)"
    and "run_state (subMain_setup nl mgr port Getenv) s = (Inr w, s')"
  shows "\<exists>t e. w = (founat_watcher nl (GetClient mgr) (eg_Namespace eg) (eg_Name eg) t e, new_watch) \<and>
    initialised nl t e (view s) (view s') \<and>
    (\<forall>a. supports t a \<longleftrightarrow> (\<exists>ip \<in> set ips. ip_family (ParseIP ip) = ip_family a)) \<and>
    (\<forall>a. supports t a \<longleftrightarrow> eg_serves e (ip_family a)) \<and>
    (\<forall>p. shouldHandle (fst w) p \<longleftrightarrow> \<not> HostNetwork p \<and> eg_key eg \<in> set (egNames (Annotations p)))"
proof -
  note env = kubelet_env_gateway [OF assms(2) [unfolded gateway_container_eq]]
  have addrs: "Split (CHR '','') (Getenv EnvAddresses) = ips"
    unfolding env by (rule Split_Join [OF assms(3,4)])
  obtain t e where *: "gateway_process nl (GetClient mgr) port Getenv w t e" "initialised nl t e (view s) (view s')"
    using wp_runD [OF gw_manager.wp_subMain_setup [OF assms(1)] assms(6)] by auto
  then have w: "w = (founat_watcher nl (GetClient mgr) (eg_Namespace eg) (eg_Name eg) t e, new_watch)"
    by (simp add: gateway_process_def env)
  moreover have "shouldHandle (fst w) p \<longleftrightarrow> \<not> HostNetwork p \<and> eg_key eg \<in> set (egNames (Annotations p))" for p
    using shouldHandle_iff [of "fst w" p] assms(5) by (simp add: w eg_key_def)
  moreover have "\<forall>a. supports t a \<longleftrightarrow> (\<exists>ip \<in> set ips. ip_family (ParseIP ip) = ip_family a)"
      "\<forall>a. supports t a \<longleftrightarrow> eg_serves e (ip_family a)"
    using *(1) unfolding gateway_process_def addrs by (simp_all add: has_family_def)
  ultimately show ?thesis using *(2) by blast
qed

lemma env1_kubelet: "kubelet_env [''10.1.2.3''] (c_Env (gateway_container reconciler1 eg_nat d)) env1"
proof -
  have "c_Env (gateway_container reconciler1 eg_nat d) = [EnvValue EnvPodNamespace ''gw'', EnvValue EnvEgressName ''nat'',
      EnvFieldRef EnvAddresses ''status.podIPs'']"
    by (simp add: gateway_container_eq egressContainer_def user_spec_def user_gateway_def zero_Container_def
        eg_nat_def zero_PodSpec_def)
  then show ?thesis by (auto simp: kubelet_env_def Cons_eq_append_conv env1_simps)
qed

theorem gateway_pod_serves_egress_witness:
  "\<exists>w s'. run_state (subMain_setup mem_ops (mem_manager []) 5555 env1) mem_init = (Inr w, s') \<and>
    shouldHandle (fst w) client_pod"
proof -
  obtain w s' where run: "run_state (subMain_setup mem_ops (mem_manager []) 5555 env1) mem_init = (Inr w, s')"
    using env1_runs by blast
  from gateway_pod_serves_egress [OF mem_gw.gw_manager_axioms env1_kubelet _ _ _ run] run show ?thesis
    by (auto simp: egNames_client eg_key_def eg_nat_def)
qed

section \<open>Ports\<close>

text \<open>The tunnel listeners that the start of a gateway adds, if it is the first in its pod.\<close>

lemma egress_init_fou [simp]: "v_fou (egress_init_view nl e v) = v_fou v"
  by (simp add: egress_init_view_def egress_step_def upd_chain_def)

lemma subMain_listeners:
  assumes "gw_manager nl view mgr" "run_state (subMain_setup nl mgr port Getenv) s = (Inr w, s')"
    and "v_links (view s) fouDummy = None"
  shows "v_fou (view s') - v_fou (view s) \<noteq> {#} \<and> (\<forall>l \<in># v_fou (view s') - v_fou (view s). fou_Port l = port)"
proof -
  note spec = wp_runD [OF gw_manager.wp_subMain_setup [OF assms(1)] assms(2)]
  then have env: "good_env Getenv" by auto
  from spec obtain t e where t: "gateway_process nl (GetClient mgr) port Getenv w t e" "initialised nl t e (view s) (view s')"
    by auto
  let ?fs = "filter (serves t) [FAMILY_V4, FAMILY_V6]"
  have "v_fou (view s') = v_fou (view s) + mset (map (init_fou t) ?fs)"
    using t(2) assms(3) unfolding initialised_def init_done_def
    by (auto split: if_splits) (metis egress_init_fou kview.select_convs kview.update_convs kview.surjective)+
  moreover obtain a where "a \<in> set (Split (CHR '','') (Getenv EnvAddresses))"
    using Split_not_Nil [of "CHR '',''" "Getenv EnvAddresses"] by (meson list.set_intros(1) neq_Nil_conv list.set_sel(1))
  then have "supports t (ParseIP a)" using t(1) by (auto simp: gateway_process_def has_family_def)
  then have "?fs \<noteq> []" by (auto simp: supports_def serves_def split: if_splits)
  moreover have "dport t = port" using t(1) by (simp add: gateway_process_def)
  ultimately show ?thesis by (auto simp: init_fou_def)
qed

text \<open>
  C11. Whether packets reach the gateways.  The controller makes the Service of an \<^verbatim>\<open>Egress\<close> forward to the port
  of its own flag \<^verbatim>\<open>--egress-port\<close>, but it does not hand that port to the gateway pods: unless the user's
  template sets \<^verbatim>\<open>--fou-port\<close>, they listen on 5555.  So the Service reaches the listeners of a gateway exactly
  if the controller's flag has the value 5555.  This is so by default, and then the agents send to this port
  by default, too.
\<close>

theorem service_reaches_gateway:
  assumes "flag_laws parse"
    and "parse (controller_flags cgo) cargs = Inr (Some cv)" "distinct (map flag_name (controller_flags cgo))"
    and "parse (agent_flags ago) aargs = Inr (Some av)" "distinct (map flag_name (agent_flags ago))"
    and "parse (gateway_flags ggo) (c_Args (gateway_container r eg d)) = Inr (Some gv)" "distinct (map flag_name (gateway_flags ggo))"
    and "\<forall>a \<in> set (c_Args (user_gateway (Containers (user_spec eg)))). \<not> mentions a ''fou-port''"
    and "Port r = cc_egressPort (controller_config_of cv)" "fronted r eg svc"
    and "gw_manager nl view mgr" "v_links (view s) fouDummy = None"
    and "run_state (subMain_setup nl mgr (gc_port (gateway_config_of gv)) Getenv) s = (Inr w, s')"
  shows "svc_Ports svc \<noteq> [] \<and> v_fou (view s') - v_fou (view s) \<noteq> {#} \<and>
    (\<forall>p \<in> set (svc_Ports svc). \<forall>l \<in># v_fou (view s') - v_fou (view s).
      (sp_TargetPort p = fou_Port l \<longleftrightarrow> cc_egressPort (controller_config_of cv) = 5555) \<and>
      ((\<forall>a \<in> set cargs \<union> set aargs. \<not> mentions a ''egress-port'') \<longrightarrow>
        sp_TargetPort p = fou_Port l \<and> sp_Port p = ac_egressPort (agent_config_of av)))"
proof -
  have "\<not> mentions a ''fou-port''" if "a \<in> set (c_Args (gateway_container r eg d))" for a
    using that assms(8) by (auto simp: gateway_container_eq egressContainer_def mentions_def HasPrefix_def split: if_splits)
  then have "gc_port (gateway_config_of gv) = 5555" by (rule flag_laws.gateway_port [OF assms(1,6,7)])
  moreover note subMain_listeners [OF assms(11,13,12)]
  moreover have "svc_Ports svc = [\<lparr>sp_Port = Port r, sp_TargetPort = Port r, sp_Protocol = ''UDP''\<rparr>]"
    using assms(10) by (simp add: fronted_def)
  ultimately show ?thesis
    using assms(9) flag_laws.controller_port(1) [OF assms(1-3)] flag_laws.agent_port(1) [OF assms(1,4,5)] by auto
qed

definition zap_flags :: "flag list" where
  "zap_flags = [GoFlag ''zap-stacktrace-level'' (FString ''error'')]"

lemma zap_flags_distinct:
  "distinct (map flag_name (controller_flags zap_flags))" "distinct (map flag_name (agent_flags zap_flags))"
  "distinct (map flag_name (gateway_flags zap_flags))"
  by (simp_all add: controller_flags_def agent_flags_def gateway_flags_def zap_flags_def)

lemma eg_nat_args: "c_Args (user_gateway (Containers (user_spec eg_nat))) = []"
  by (simp add: user_spec_def user_gateway_def zero_Container_def eg_nat_def zero_PodSpec_def)

lemma zap_args: "c_Args (gateway_container r eg_nat d) = [''--zap-stacktrace-level=panic'']"
  by (simp add: gateway_container_eq egressContainer_def eg_nat_args)

theorem service_reaches_gateway_witness:
  "\<exists>cv av gv w s'. mem_parse (controller_flags zap_flags) [] = Inr (Some cv) \<and> mem_parse (agent_flags zap_flags) [] = Inr (Some av) \<and>
    mem_parse (gateway_flags zap_flags) (c_Args (gateway_container reconciler1 eg_nat zero_Deployment)) = Inr (Some gv) \<and>
    run_state (subMain_setup mem_ops (mem_manager []) (gc_port (gateway_config_of gv)) env1) mem_init = (Inr w, s') \<and>
    (\<forall>svc. fronted reconciler1 eg_nat svc \<longrightarrow> (\<forall>p \<in> set (svc_Ports svc). \<forall>l \<in># v_fou (mem_view s') - v_fou (mem_view mem_init).
      sp_TargetPort p = fou_Port l))"
proof -
  obtain cv av gv where v: "mem_parse (controller_flags zap_flags) [] = Inr (Some cv)" "mem_parse (agent_flags zap_flags) [] = Inr (Some av)"
      "mem_parse (gateway_flags zap_flags) (c_Args (gateway_container reconciler1 eg_nat zero_Deployment)) = Inr (Some gv)"
    by (simp add: mem_parse_def mem_value_def zap_args) (simp add: gateway_flags_def zap_flags_def HasPrefix_def)
  have port: "cc_egressPort (controller_config_of cv) = 5555" "gc_port (gateway_config_of gv) = 5555"
    using mem_flags.controller_port(1) [OF v(1) zap_flags_distinct(1)]
      mem_flags.gateway_port [OF v(3) zap_flags_distinct(3)] by (auto simp: zap_args mentions_def HasPrefix_def)
  obtain w s' where run: "run_state (subMain_setup mem_ops (mem_manager []) (gc_port (gateway_config_of gv)) env1) mem_init = (Inr w, s')"
    using env1_runs port by metis
  have dummy: "v_links (mem_view mem_init) fouDummy = None" by (simp add: mem_view_def mem_init_def)
  have "\<forall>p \<in> set (svc_Ports svc). \<forall>l \<in># v_fou (mem_view s') - v_fou (mem_view mem_init). sp_TargetPort p = fou_Port l"
    if "fronted reconciler1 eg_nat svc" for svc
    using service_reaches_gateway [OF mem_flags.flag_laws_axioms v(1) zap_flags_distinct(1) v(2) zap_flags_distinct(2)
        v(3) zap_flags_distinct(3) _ _ that mem_gw.gw_manager_axioms dummy run] port
    by (simp add: eg_nat_args reconciler1_def)
  with v run show ?thesis by blast
qed

section \<open>From the controller to the agent\<close>

text \<open>
  C8. What admission and the controller leave behind is what the agent needs: after the
  reconciliation of an \<^verbatim>\<open>Egress\<close> that the webhook has admitted, and once its Service has an address, the
  \<^verbatim>\<open>Egress\<close> and the Service are there under the name that pods are annotated with, and all its
  destinations parse, so that the agent looks up no name of it in vain.
\<close>

theorem reconciled_egress_is_complete:
  assumes "k8s_laws k cview" "derivative_ok k" "'''' \<notin> egress_namespaces (cview s)"
    and "cl_egresses (cview s) (eg_key eg) = Some eg" "\<not> eg_DeletionTimestamp eg" "ValidateCreate lib eg = None"
    and "run_state (eg_Reconcile k r (eg_key eg)) s = (Inr (), s')"
    and "\<And>x. cl_svcs (cview s') (eg_key eg) = Some x \<Longrightarrow> ParseIP (ClusterIP x) \<noteq> nil_IP"
  shows "complete (cl_egresses (cview s')) (\<lambda>n. map_option ServiceIP.truncate (cl_svcs (cview s') n)) (eg_key eg)"
proof -
  have "reconciled k r eg (cview s) (cview s')"
    using wp_runD [OF k8s_laws.wp_eg_Reconcile [OF assms(1-3)] assms(7)] assms(4,5) by simp
  moreover have "well_formed (Spec eg)"
    using assms(6) by (simp add: ValidateCreate_def Let_def validate_Nil split: if_splits)
  ultimately show ?thesis
    using assms(8) by (auto simp: reconciled_def complete_def well_formed_def ServiceIP.truncate_def)
qed

theorem reconciled_egress_is_complete_witness:
  "\<exists>s'. run_state (eg_Reconcile (mem_k8s [eg_nat]) reconciler1 (''gw'', ''nat'')) (cluster0 [eg_nat]) = (Inr (), s') \<and>
    complete (cl_egresses s') (\<lambda>n. map_option ServiceIP.truncate (cl_svcs s' n)) (''gw'', ''nat'')"
proof -
  obtain s' where run: "run_state (eg_Reconcile (mem_k8s [eg_nat]) reconciler1 (''gw'', ''nat'')) (cluster0 [eg_nat]) = (Inr (), s')"
      "map_option ClusterIP (cl_svcs s' (''gw'', ''nat'')) = Some ''10.1.2.3''"
    using reconcile_runs by blast
  have key: "eg_key eg_nat = (''gw'', ''nat'')" by (simp add: eg_key_def eg_nat_def)
  have c0: "cl_egresses (cluster0 [eg_nat]) (eg_key eg_nat) = Some eg_nat" "\<not> eg_DeletionTimestamp eg_nat"
    by (simp_all add: cluster0_def eg_nat_def)
  have ok: "ValidateCreate no_checks eg_nat = None"
    by (simp add: ValidateCreate_def Let_def) (simp add: validate_def no_checks_def eg_nat_def eg_nat_parses)
  have "ParseIP (ClusterIP x) \<noteq> nil_IP" if "cl_svcs s' (eg_key eg_nat) = Some x" for x
    using run(2) that by (simp add: key ParseIP_A ipA_def)
  with reconciled_egress_is_complete [OF mem_k8s.k8s_laws_axioms mem_derivative_ok _ c0 ok run(1) [folded key]] run(1)
  show ?thesis by (auto simp: cluster0_nat key)
qed

end
